(* ===== verification/Prelude.thy ===== *)
theory Prelude
  imports Main "HOL-Library.Code_Target_Nat"
begin

text \<open>
  Shared vocabulary of the development: the exceptions of the C++ code as values, the error
  monad that threads them, and the searches and splits on strings that the code writes with
  \<open>std::string::find\<close> and \<open>substr\<close>, together with the lemmas that every component uses.
  A C++ \<open>std::string\<close> is a HOL \<open>string\<close>, a list of bytes.
\<close>

section \<open>Exceptions as values\<close>

text \<open>
  \<open>ODataParseException\<close> is the class of \<open>src/src/parser/errors.hpp\<close>; \<open>OutOfRange\<close> and
  \<open>InvalidArgument\<close> are \<open>std::out_of_range\<close> and \<open>std::invalid_argument\<close>, with their \<open>what()\<close> text as
  libstdc++ gives it; \<open>DuckDBException\<close> for an exception raised inside
  DuckDB; \<open>InvalidInputException\<close> for the one the SQL functions of the extension raise.
  \<open>UndefinedBehaviour\<close> is the value of a read outside a vector: the theorems show that no
  modelled function ever produces it. \<open>OutOfFuel\<close> is the exhausted recursion bound of the
  filter parser, shown unreachable as well.
\<close>

datatype exn =
    ODataParseException string
  | OutOfRange string
  | InvalidArgument string
  | DuckDBException string
  | InvalidInputException string
  | UndefinedBehaviour
  | OutOfFuel

type_synonym 'a res = "exn + 'a"

fun what :: "exn \<Rightarrow> string" where
  "what (ODataParseException m) = m"
| "what (OutOfRange m) = m"
| "what (InvalidArgument m) = m"
| "what (DuckDBException m) = m"
| "what (InvalidInputException m) = m"
| "what UndefinedBehaviour = []"
| "what OutOfFuel = []"

definition bindE :: "'e + 'a \<Rightarrow> ('a \<Rightarrow> 'e + 'b) \<Rightarrow> 'e + 'b" where
  "bindE m f = (case m of Inl e \<Rightarrow> Inl e | Inr x \<Rightarrow> f x)"

lemma bindE_simps [simp]:
  "bindE (Inl e) f = Inl e"
  "bindE (Inr x) f = f x"
  by (simp_all add: bindE_def)

lemma bindE_Inr_iff: "bindE m f = Inr y \<longleftrightarrow> (\<exists>x. m = Inr x \<and> f x = Inr y)"
  by (cases m) auto

lemma bindE_Inl_iff:
  "bindE m f = Inl e \<longleftrightarrow> m = Inl e \<or> (\<exists>x. m = Inr x \<and> f x = Inl e)"
  by (cases m) auto

lemma bindE_assoc: "bindE (bindE m f) g = bindE m (\<lambda>x. bindE (f x) g)"
  by (cases m) auto

lemma bindE_cong [fundef_cong]:
  "m = m' \<Longrightarrow> (\<And>x. m' = Inr x \<Longrightarrow> f x = g x) \<Longrightarrow> bindE m f = bindE m' g"
  by (cases m') auto

text \<open>A loop that stops at the first exception.\<close>

fun mapE :: "('a \<Rightarrow> 'e + 'b) \<Rightarrow> 'a list \<Rightarrow> 'e + 'b list" where
  "mapE f [] = Inr []"
| "mapE f (x # xs) = bindE (f x) (\<lambda>y. bindE (mapE f xs) (\<lambda>ys. Inr (y # ys)))"

lemma mapE_cong [fundef_cong]:
  "xs = ys \<Longrightarrow> (\<And>x. x \<in> set ys \<Longrightarrow> f x = g x) \<Longrightarrow> mapE f xs = mapE g ys"
  by (induction ys arbitrary: xs) auto

lemma mapE_Inr_list_all2: "mapE f xs = Inr ys \<longleftrightarrow> list_all2 (\<lambda>x y. f x = Inr y) xs ys"
  by (induction xs arbitrary: ys) (auto simp: bindE_Inr_iff list_all2_Cons1)

lemma mapE_Inr_length: "mapE f xs = Inr ys \<Longrightarrow> length ys = length xs"
  by (simp add: mapE_Inr_list_all2 list_all2_lengthD)

lemma mapE_Inl_mem: "mapE f xs = Inl e \<Longrightarrow> \<exists>x \<in> set xs. f x = Inl e"
  by (induction xs) (auto simp: bindE_Inl_iff)

lemma mapE_all_Inr: "(\<And>x. x \<in> set xs \<Longrightarrow> f x = Inr (g x)) \<Longrightarrow> mapE f xs = Inr (map g xs)"
  by (induction xs) auto

section \<open>Searching and splitting strings\<close>

text \<open>
  \<open>split_first c s\<close> is the idiom \<open>pos = s.find(c); s.substr(0, pos); s.substr(pos + 1)\<close>,
  \<open>None\<close> when \<open>find\<close> gives \<open>npos\<close>.
\<close>

fun split_first :: "'a \<Rightarrow> 'a list \<Rightarrow> ('a list \<times> 'a list) option" where
  "split_first c [] = None"
| "split_first c (x # xs) =
     (if x = c then Some ([], xs)
      else case split_first c xs of None \<Rightarrow> None | Some (a, b) \<Rightarrow> Some (x # a, b))"

lemma split_first_None_iff: "split_first c s = None \<longleftrightarrow> c \<notin> set s"
  by (induction s) (auto split: option.split prod.split)

lemma split_first_None [simp]: "c \<notin> set s \<Longrightarrow> split_first c s = None"
  by (simp add: split_first_None_iff)

lemma split_first_SomeD: "split_first c s = Some (a, b) \<Longrightarrow> s = a @ c # b \<and> c \<notin> set a"
  by (induction s arbitrary: a b) (auto split: if_splits option.splits)

lemma split_first_append [simp]: "c \<notin> set a \<Longrightarrow> split_first c (a @ c # b) = Some (a, b)"
  by (induction a) auto

lemma split_first_Some:
  "split_first c s = Some (a, b) \<longleftrightarrow> s = a @ c # b \<and> c \<notin> set a"
  using split_first_SomeD by fastforce

lemma append_sep_eqD:
  assumes "a @ c # b = a' @ c # b'" "c \<notin> set a" "c \<notin> set a'"
  shows "a = a' \<and> b = b'"
proof -
  have "split_first c (a @ c # b) = split_first c (a' @ c # b')" by (simp only: assms(1))
  with assms(2,3) show ?thesis by simp
qed

lemma split_first_length:
  "split_first c s = Some (a, b) \<Longrightarrow> length a < length s \<and> length b < length s"
  by (auto simp: split_first_Some)

text \<open>The same at the last occurrence: \<open>rfind\<close>.\<close>

definition split_last :: "'a \<Rightarrow> 'a list \<Rightarrow> ('a list \<times> 'a list) option" where
  "split_last c s =
     (case split_first c (rev s) of None \<Rightarrow> None | Some (a, b) \<Rightarrow> Some (rev b, rev a))"

lemma split_last_None [simp]: "c \<notin> set s \<Longrightarrow> split_last c s = None"
  by (simp add: split_last_def)

lemma split_last_append [simp]: "c \<notin> set b \<Longrightarrow> split_last c (a @ c # b) = Some (a, b)"
  by (simp add: split_last_def)

lemma split_last_SomeD:
  assumes "split_last c s = Some (a, b)"
  shows "s = a @ c # b \<and> c \<notin> set b"
proof -
  from assms have "split_first c (rev s) = Some (rev b, rev a)"
    by (auto simp: split_last_def split: option.splits prod.splits)
  then have "rev s = rev b @ c # rev a" "c \<notin> set b" by (auto dest: split_first_SomeD)
  then have "rev (rev s) = rev (rev b @ c # rev a)" by (simp only:)
  with \<open>c \<notin> set b\<close> show ?thesis by simp
qed

text \<open>
  \<open>split_on c s\<close> is the loop that cuts a string at every separator: the pieces between the
  separators, in order, the empty ones included.
\<close>

fun split_on :: "'a \<Rightarrow> 'a list \<Rightarrow> 'a list list" where
  "split_on c [] = [[]]"
| "split_on c (x # xs) =
     (if x = c then [] # split_on c xs
      else case split_on c xs of [] \<Rightarrow> [[x]] | p # ps \<Rightarrow> (x # p) # ps)"

lemma split_on_nonempty [simp]: "split_on c s \<noteq> []"
  by (cases s) (auto split: list.splits)

lemma split_on_no_sep: "p \<in> set (split_on c s) \<Longrightarrow> c \<notin> set p"
  by (induction s arbitrary: p) (auto split: list.splits if_splits)

lemma split_on_single [simp]: "c \<notin> set s \<Longrightarrow> split_on c s = [s]"
  by (induction s) auto

lemma split_on_append [simp]: "c \<notin> set a \<Longrightarrow> split_on c (a @ c # b) = a # split_on c b"
  by (induction a) auto

text \<open>\<open>join_with c\<close> is the inverse: the pieces with a separator between them.\<close>

fun join_with :: "'a list \<Rightarrow> 'a list list \<Rightarrow> 'a list" where
  "join_with sep [] = []"
| "join_with sep [p] = p"
| "join_with sep (p # ps) = p @ sep @ join_with sep ps"

lemma join_with_Cons [simp]: "ps \<noteq> [] \<Longrightarrow> join_with sep (p # ps) = p @ sep @ join_with sep ps"
  by (cases ps) auto

lemma join_split_on [simp]: "join_with [c] (split_on c s) = s"
proof (induction s)
  case (Cons x xs)
  then show ?case
    by (cases "split_on c xs"; cases "tl (split_on c xs)") (auto split: list.splits)
qed simp

lemma split_on_join:
  "ps \<noteq> [] \<Longrightarrow> \<forall>p \<in> set ps. c \<notin> set p \<Longrightarrow> split_on c (join_with [c] ps) = ps"
proof (induction ps)
  case (Cons p ps)
  then show ?case by (cases "ps = []") auto
qed simp

text \<open>
  \<open>find_sub pat s\<close> is \<open>s.find(pat)\<close> for a string \<open>pat\<close>: the least position where \<open>pat\<close> stands.
\<close>

definition has_prefix :: "'a list \<Rightarrow> 'a list \<Rightarrow> bool" where
  "has_prefix p s \<longleftrightarrow> take (length p) s = p"

fun find_sub :: "'a list \<Rightarrow> 'a list \<Rightarrow> nat option" where
  "find_sub pat [] = (if pat = [] then Some 0 else None)"
| "find_sub pat (x # xs) =
     (if has_prefix pat (x # xs) then Some 0 else map_option Suc (find_sub pat xs))"

lemma has_prefix_append [simp]: "has_prefix p (p @ s)"
  by (simp add: has_prefix_def)

lemma has_prefixD: "has_prefix p s \<Longrightarrow> s = p @ drop (length p) s"
  unfolding has_prefix_def by (metis append_take_drop_id)

lemma has_prefix_iff: "has_prefix p s \<longleftrightarrow> (\<exists>t. s = p @ t)"
  using has_prefixD has_prefix_append by metis

lemma has_prefix_length: "has_prefix p s \<Longrightarrow> length p \<le> length s"
  by (auto simp: has_prefix_iff)

lemma find_sub_SomeD:
  "find_sub pat s = Some i \<Longrightarrow>
     has_prefix pat (drop i s) \<and> i + length pat \<le> length s \<and> (\<forall>j<i. \<not> has_prefix pat (drop j s))"
proof (induction s arbitrary: i)
  case Nil
  then show ?case by (simp add: has_prefix_def split: if_splits)
next
  case (Cons x xs)
  show ?case
  proof (cases "has_prefix pat (x # xs)")
    case True
    with Cons.prems show ?thesis using has_prefix_length [OF True] by simp
  next
    case False
    with Cons.prems obtain k where k: "find_sub pat xs = Some k" "i = Suc k" by auto
    from Cons.IH [OF k(1)] False k(2) show ?thesis
      by (auto simp: less_Suc_eq_0_disj)
  qed
qed

lemma find_sub_NoneD: "find_sub pat s = None \<Longrightarrow> j \<le> length s \<Longrightarrow> \<not> has_prefix pat (drop j s)"
proof (induction s arbitrary: j)
  case Nil
  then show ?case by (simp add: has_prefix_def split: if_splits)
next
  case (Cons x xs)
  then show ?case by (cases j) (auto split: if_splits)
qed

lemma find_sub_eq_SomeI:
  assumes "has_prefix pat (drop i s)" "i \<le> length s" "\<And>j. j < i \<Longrightarrow> \<not> has_prefix pat (drop j s)"
  shows "find_sub pat s = Some i"
proof (cases "find_sub pat s")
  case None
  from find_sub_NoneD [OF this assms(2)] assms(1) show ?thesis by simp
next
  case (Some k)
  from find_sub_SomeD [OF Some] have k: "has_prefix pat (drop k s)" "\<And>j. j < k \<Longrightarrow> \<not> has_prefix pat (drop j s)"
    by auto
  with assms have "\<not> k < i" "\<not> i < k" by blast+
  with Some show ?thesis by simp
qed

lemma has_prefix_append_iff:
  "length p \<le> length s \<Longrightarrow> has_prefix p (s @ t) \<longleftrightarrow> has_prefix p s"
  by (simp add: has_prefix_def)

text \<open>Where a pattern is found does not depend on what follows it.\<close>

lemma find_sub_append_left:
  assumes "find_sub pat a = Some i"
  shows "find_sub pat (a @ b) = Some i"
proof -
  from find_sub_SomeD [OF assms] have i: "has_prefix pat (drop i a)" "i + length pat \<le> length a"
    "\<And>j. j < i \<Longrightarrow> \<not> has_prefix pat (drop j a)"
    by auto
  show ?thesis
  proof (rule find_sub_eq_SomeI)
    show "has_prefix pat (drop i (a @ b))"
      using i(1,2) by (simp add: has_prefix_append_iff)
    show "i \<le> length (a @ b)" using i(2) by simp
    show "\<not> has_prefix pat (drop j (a @ b))" if "j < i" for j
      using i(2) i(3) [OF that] that by (simp add: has_prefix_append_iff)
  qed
qed

lemma find_sub_append_SomeD:
  assumes "find_sub pat (a @ b) = Some i"
  shows "find_sub pat a = (if i + length pat \<le> length a then Some i else None)"
proof (cases "find_sub pat a")
  case None
  show ?thesis
  proof (cases "i + length pat \<le> length a")
    case True
    with find_sub_SomeD [OF assms] have "has_prefix pat (drop i a)" by (simp add: has_prefix_append_iff)
    with find_sub_NoneD [OF None, of i] True show ?thesis by simp
  qed (use None in simp)
next
  case (Some k)
  with assms find_sub_append_left [OF Some, of b] have "k = i" by simp
  with Some find_sub_SomeD [OF Some] show ?thesis by simp
qed

section \<open>List facts\<close>

lemma takeWhile_all [simp]: "\<forall>x \<in> set xs. P x \<Longrightarrow> takeWhile P xs = xs"
  by (simp add: takeWhile_eq_all_conv)

lemma dropWhile_all [simp]: "\<forall>x \<in> set xs. P x \<Longrightarrow> dropWhile P xs = []"
  by simp

lemma takeWhile_append_stop [simp]:
  "(\<And>x. x \<in> set a \<Longrightarrow> P x) \<Longrightarrow> b = [] \<or> \<not> P (hd b) \<Longrightarrow> takeWhile P (a @ b) = a"
  by (cases b) auto

lemma dropWhile_append_stop [simp]:
  "(\<And>x. x \<in> set a \<Longrightarrow> P x) \<Longrightarrow> b = [] \<or> \<not> P (hd b) \<Longrightarrow> dropWhile P (a @ b) = b"
  by (cases b) auto

lemma length_dropWhile_less: "xs \<noteq> [] \<Longrightarrow> P (hd xs) \<Longrightarrow> length (dropWhile P xs) < length xs"
  by (cases xs) (auto simp: le_imp_less_Suc length_dropWhile_le)

lemma find_SomeD: "find P xs = Some x \<Longrightarrow> x \<in> set xs \<and> P x"
  by (induction xs) (auto split: if_splits)

lemma concat_map_singleton_id [simp]: "concat (map (\<lambda>x. [x]) xs) = xs"
  by (induction xs) auto

end
