(* ===== verification/Cpp_Std.thy ===== *)
theory Cpp_Std
  imports Prelude
begin

text \<open>
  What the code uses of the C and C++ library on strings and integers: the character
  classes of \<open><cctype>\<close> in the C locale, \<open>std::to_string\<close> on integers, \<open>std::stoll\<close> and
  \<open>std::stoi\<close> with the position of the first unread character, \<open>std::toupper\<close>-free lower
  casing. Bytes above 127 belong to no class, as in the C locale.
\<close>

named_theorems char_class \<open>definitions of the character classes\<close>

section \<open>Character classes\<close>

definition code :: "char \<Rightarrow> nat" where
  "code c = of_char c"

definition isdigit :: "char \<Rightarrow> bool" where
  [char_class]: "isdigit c \<longleftrightarrow> 48 \<le> code c \<and> code c \<le> 57"

definition isupper :: "char \<Rightarrow> bool" where
  [char_class]: "isupper c \<longleftrightarrow> 65 \<le> code c \<and> code c \<le> 90"

definition islower :: "char \<Rightarrow> bool" where
  [char_class]: "islower c \<longleftrightarrow> 97 \<le> code c \<and> code c \<le> 122"

definition isalpha :: "char \<Rightarrow> bool" where
  [char_class]: "isalpha c \<longleftrightarrow> isupper c \<or> islower c"

definition isalnum :: "char \<Rightarrow> bool" where
  [char_class]: "isalnum c \<longleftrightarrow> isalpha c \<or> isdigit c"

definition isspace :: "char \<Rightarrow> bool" where
  [char_class]: "isspace c \<longleftrightarrow> code c = 32 \<or> (9 \<le> code c \<and> code c \<le> 13)"

definition tolower :: "char \<Rightarrow> char" where
  "tolower c = (if isupper c then char_of (code c + 32) else c)"

lemma code_less [simp]: "code c < 256"
  by (simp add: code_def)

lemma char_of_code [simp]: "char_of (code c) = c"
  by (simp add: code_def)

lemma code_char_of [simp]: "n < 256 \<Longrightarrow> code (char_of n) = n"
  by (simp add: code_def)

lemma code_inj: "code c = code d \<longleftrightarrow> c = d"
  by (metis char_of_code)

text \<open>The code of a character literal is a numeral.\<close>

lemma code_Char [simp]: "code (Char b0 b1 b2 b3 b4 b5 b6 b7) =
    horner_sum of_bool 2 [b0, b1, b2, b3, b4, b5, b6, b7]"
  by (simp only: code_def of_char_Char)

text \<open>So every class is decided on a literal.\<close>

lemma class_Char [simp]:
  "isdigit (Char b0 b1 b2 b3 b4 b5 b6 b7) =
     (let n = horner_sum of_bool 2 [b0, b1, b2, b3, b4, b5, b6, b7] :: nat in 48 \<le> n \<and> n \<le> 57)"
  "isupper (Char b0 b1 b2 b3 b4 b5 b6 b7) =
     (let n = horner_sum of_bool 2 [b0, b1, b2, b3, b4, b5, b6, b7] :: nat in 65 \<le> n \<and> n \<le> 90)"
  "islower (Char b0 b1 b2 b3 b4 b5 b6 b7) =
     (let n = horner_sum of_bool 2 [b0, b1, b2, b3, b4, b5, b6, b7] :: nat in 97 \<le> n \<and> n \<le> 122)"
  "isspace (Char b0 b1 b2 b3 b4 b5 b6 b7) =
     (let n = horner_sum of_bool 2 [b0, b1, b2, b3, b4, b5, b6, b7] :: nat
      in n = 32 \<or> (9 \<le> n \<and> n \<le> 13))"
  by (simp_all only: isdigit_def isupper_def islower_def isspace_def code_Char Let_def)

lemma isalpha_Char [simp]:
  "isalpha (Char b0 b1 b2 b3 b4 b5 b6 b7) \<longleftrightarrow>
     isupper (Char b0 b1 b2 b3 b4 b5 b6 b7) \<or> islower (Char b0 b1 b2 b3 b4 b5 b6 b7)"
  "isalnum (Char b0 b1 b2 b3 b4 b5 b6 b7) \<longleftrightarrow>
     isalpha (Char b0 b1 b2 b3 b4 b5 b6 b7) \<or> isdigit (Char b0 b1 b2 b3 b4 b5 b6 b7)"
  by (simp_all only: isalpha_def isalnum_def)

lemma code_tolower: "code (tolower c) = (if isupper c then code c + 32 else code c)"
  by (simp add: tolower_def char_class)

lemma tolower_idem [simp]: "tolower (tolower c) = tolower c"
  by (simp add: tolower_def char_class)

lemma isupper_tolower [simp]: "\<not> isupper (tolower c)"
  by (simp add: code_tolower char_class)

lemma tolower_id: "\<not> isupper c \<Longrightarrow> tolower c = c"
  by (simp add: tolower_def)

lemma tolower_Char [simp]:
  "tolower (Char b0 b1 b2 b3 b4 b5 b6 b7) =
     (if isupper (Char b0 b1 b2 b3 b4 b5 b6 b7) then Char b0 b1 b2 b3 b4 True b6 b7
      else Char b0 b1 b2 b3 b4 b5 b6 b7)"
proof (cases "isupper (Char b0 b1 b2 b3 b4 b5 b6 b7)")
  case True
  then have "code (tolower (Char b0 b1 b2 b3 b4 b5 b6 b7)) = code (Char b0 b1 b2 b3 b4 True b6 b7)"
    by (cases b0; cases b1; cases b2; cases b3; cases b4; cases b5; cases b6; cases b7)
      (simp_all add: code_tolower Let_def)
  then have "tolower (Char b0 b1 b2 b3 b4 b5 b6 b7) = Char b0 b1 b2 b3 b4 True b6 b7"
    by (simp only: code_inj)
  with True show ?thesis by (simp only: if_True)
qed (simp add: tolower_def)

lemma tolower_eq_nonalpha: "\<not> isalpha d \<Longrightarrow> tolower c = d \<longleftrightarrow> c = d"
  by (auto simp: char_class tolower_def simp flip: code_inj)

section \<open>Printing integers\<close>

definition digit_char :: "nat \<Rightarrow> char" where
  "digit_char d = char_of (48 + d)"

fun nat_to_string :: "nat \<Rightarrow> string" where
  "nat_to_string n =
     (if n < 10 then [digit_char n] else nat_to_string (n div 10) @ [digit_char (n mod 10)])"

declare nat_to_string.simps [simp del]

definition to_string :: "int \<Rightarrow> string" where
  "to_string v = (if v < 0 then ''-'' @ nat_to_string (nat (- v)) else nat_to_string (nat v))"

definition digit_val :: "char \<Rightarrow> nat" where
  "digit_val c = code c - 48"

definition digits_val :: "string \<Rightarrow> nat" where
  "digits_val s = foldl (\<lambda>n c. n * 10 + digit_val c) 0 s"

lemma code_digit_char [simp]: "d < 10 \<Longrightarrow> code (digit_char d) = 48 + d"
  by (simp add: digit_char_def)

lemma isdigit_digit_char [simp]: "d < 10 \<Longrightarrow> isdigit (digit_char d)"
  by (simp add: char_class)

lemma digit_val_digit_char [simp]: "d < 10 \<Longrightarrow> digit_val (digit_char d) = d"
  by (simp add: digit_val_def)

lemma digits_val_Nil [simp]: "digits_val [] = 0"
  by (simp add: digits_val_def)

lemma digits_val_snoc [simp]: "digits_val (s @ [c]) = digits_val s * 10 + digit_val c"
  by (simp add: digits_val_def)

lemma nat_to_string_digits: "c \<in> set (nat_to_string n) \<Longrightarrow> isdigit c"
proof (induction n rule: nat_to_string.induct)
  case (1 n)
  then show ?case
    by (subst (asm) (2) nat_to_string.simps) (auto split: if_splits)
qed

lemma nat_to_string_nonempty [simp]: "nat_to_string n \<noteq> []"
  by (subst nat_to_string.simps) simp

lemma digits_val_nat_to_string [simp]: "digits_val (nat_to_string n) = n"
proof (induction n rule: nat_to_string.induct)
  case (1 n)
  show ?case
  proof (cases "n < 10")
    case True
    then show ?thesis
      using digits_val_snoc [of "[]" "digit_char n"] by (subst nat_to_string.simps) simp
  next
    case False
    with 1 show ?thesis by (subst nat_to_string.simps) simp
  qed
qed

lemma set_to_string: "c \<in> set (to_string v) \<Longrightarrow> isdigit c \<or> c = CHR ''-''"
  by (auto simp: to_string_def dest: nat_to_string_digits split: if_splits)

lemma to_string_nonempty [simp]: "to_string v \<noteq> []"
  by (simp add: to_string_def)

lemma to_string_nonneg: "0 \<le> v \<Longrightarrow> c \<in> set (to_string v) \<Longrightarrow> isdigit c"
  by (auto simp: to_string_def dest: nat_to_string_digits)

section \<open>Reading integers\<close>

text \<open>
  \<open>read_int s\<close> is the scan of \<open>strtoll(s, &end, 10)\<close>: leading white space, an optional sign,
  the digits. It gives the value and the number of characters read, \<open>None\<close> when there is no
  digit. \<open>std::stoll\<close> then raises \<open>std::invalid_argument\<close> or, outside the type,
  \<open>std::out_of_range\<close>; the result is the value with \<open>*idx\<close>.
\<close>

definition read_int :: "string \<Rightarrow> (int \<times> nat) option" where
  "read_int s =
     (let ws = takeWhile isspace s;
          r = dropWhile isspace s;
          sg = (case r of c # _ \<Rightarrow> if c = CHR ''-'' \<or> c = CHR ''+'' then [c] else [] | [] \<Rightarrow> []);
          ds = takeWhile isdigit (drop (length sg) r)
      in if ds = [] then None
         else Some (if sg = ''-'' then - int (digits_val ds) else int (digits_val ds),
                    length ws + length sg + length ds))"

definition int64_ok :: "int \<Rightarrow> bool" where
  "int64_ok v \<longleftrightarrow> - (2 ^ 63) \<le> v \<and> v < 2 ^ 63"

definition int32_ok :: "int \<Rightarrow> bool" where
  "int32_ok v \<longleftrightarrow> - (2 ^ 31) \<le> v \<and> v < 2 ^ 31"

definition stoll :: "string \<Rightarrow> (int \<times> nat) res" where
  "stoll s =
     (case read_int s of
        None \<Rightarrow> Inl (InvalidArgument ''stoll'')
      | Some (v, idx) \<Rightarrow> if int64_ok v then Inr (v, idx) else Inl (OutOfRange ''stoll''))"

definition stoi :: "string \<Rightarrow> int res" where
  "stoi s =
     (case read_int s of
        None \<Rightarrow> Inl (InvalidArgument ''stoi'')
      | Some (v, idx) \<Rightarrow> if int32_ok v then Inr v else Inl (OutOfRange ''stoi''))"

lemma isdigit_not_space [simp]: "isdigit c \<Longrightarrow> \<not> isspace c"
  by (auto simp: char_class)

lemma isdigit_not_sign [simp]: "isdigit c \<Longrightarrow> c \<noteq> CHR ''-''" "isdigit c \<Longrightarrow> c \<noteq> CHR ''+''"
  by (auto simp: char_class)

lemma read_int_digits:
  assumes "ds \<noteq> []" "\<And>c. c \<in> set ds \<Longrightarrow> isdigit c"
  shows "read_int ds = Some (int (digits_val ds), length ds)"
proof -
  obtain d ds' where ds: "ds = d # ds'" using assms(1) by (cases ds) auto
  then show ?thesis
    using assms(2) by (simp add: read_int_def Let_def)
qed

lemma read_int_neg_digits:
  assumes "ds \<noteq> []" "\<And>c. c \<in> set ds \<Longrightarrow> isdigit c"
  shows "read_int (CHR ''-'' # ds) = Some (- int (digits_val ds), Suc (length ds))"
  using assms by (simp add: read_int_def Let_def isspace_def)

lemma read_int_to_string: "read_int (to_string v) = Some (v, length (to_string v))"
  using nat_to_string_digits
  by (auto simp: to_string_def read_int_digits read_int_neg_digits)

lemma stoll_to_string: "int64_ok v \<Longrightarrow> stoll (to_string v) = Inr (v, length (to_string v))"
  by (simp add: stoll_def read_int_to_string)

lemma stoll_Inr_ok: "stoll s = Inr (v, idx) \<Longrightarrow> int64_ok v"
  by (auto simp: stoll_def split: option.splits if_splits)

text \<open>The first character of the input decides the sign of what is read.\<close>

lemma read_int_nonneg:
  "read_int s = Some (v, i) \<Longrightarrow> CHR ''-'' \<notin> set s \<Longrightarrow> 0 \<le> v"
  by (auto simp: read_int_def Let_def split: if_splits list.splits
      dest!: arg_cong [of "dropWhile isspace s" _ set] set_dropWhileD)

end
