(* ===== verification/Cpp_Double.thy ===== *)
theory Cpp_Double
  imports Cpp_Std
begin

text \<open>
  The IEEE 754 binary64 values the code handles and the two library functions it applies to
  them: \<open>std::stod\<close> on the decimal literals the tokenizer cuts out, and \<open>std::to_string\<close>, which
  prints like the \<open>%f\<close> conversion of \<open>printf\<close>, with six digits after the point. Both round to
  the nearest value, ties to even, from the exact rational number. \<open>std::stod\<close> raises
  \<open>std::out_of_range\<close> when \<open>strtod\<close> reports a range error: an overflow, or an underflow
  to an inexact subnormal result, as glibc does.
\<close>

text \<open>\<open>Fin neg m e\<close> is the number \<open>m * 2 ^ e\<close>, negated when \<open>neg\<close>; both zeros exist.\<close>

datatype double = NaN bool | Infty bool | Fin bool nat int

definition div_round_even :: "nat \<Rightarrow> nat \<Rightarrow> nat" where
  "div_round_even a b =
     (let q = a div b; r = a mod b
      in if 2 * r < b \<or> (2 * r = b \<and> even q) then q else q + 1)"

fun bit_length :: "nat \<Rightarrow> nat" where
  "bit_length n = (if n = 0 then 0 else Suc (bit_length (n div 2)))"

declare bit_length.simps [simp del]

text \<open>The fraction \<open>num / den\<close> divided by \<open>2 ^ e\<close>, as a fraction of naturals.\<close>

definition scale_down :: "nat \<Rightarrow> nat \<Rightarrow> int \<Rightarrow> nat \<times> nat" where
  "scale_down num den e =
     (if 0 \<le> e then (num, den * 2 ^ nat e) else (num * 2 ^ nat (- e), den))"

text \<open>
  The nearest double to \<open>num / den > 0\<close>: the exponent puts the quotient below \<open>2 ^ 53\<close>, not
  under the least exponent \<open>-1074\<close>. \<open>None\<close> is a range error.
\<close>

definition round_binary64 :: "nat \<Rightarrow> nat \<Rightarrow> (nat \<times> int) option" where
  "round_binary64 num den =
     (let e0 = int (bit_length num) - int (bit_length den) - 53;
          e1 = (case scale_down num den e0 of (a, b) \<Rightarrow> if a div b < 2 ^ 53 then e0 else e0 + 1);
          e = max e1 (- 1074)
      in case scale_down num den e of
           (a, b) \<Rightarrow>
             (let m = div_round_even a b;
                  (m', e') = (if m = 2 ^ 53 then (2 ^ 52, e + 1) else (m, e))
              in if e' > 971 \<or> (m' < 2 ^ 52 \<and> a mod b \<noteq> 0) then None else Some (m', e')))"

text \<open>The parts of a decimal literal: sign, integer digits, fraction digits, exponent.\<close>

definition read_exponent :: "string \<Rightarrow> int" where
  "read_exponent s =
     (case s of
        [] \<Rightarrow> 0
      | c # r \<Rightarrow>
          if c = CHR ''e'' \<or> c = CHR ''E'' then
            (case r of
               [] \<Rightarrow> 0
             | g # ds \<Rightarrow>
                 if g = CHR ''-'' then - int (digits_val (takeWhile isdigit ds))
                 else if g = CHR ''+'' then int (digits_val (takeWhile isdigit ds))
                 else int (digits_val (takeWhile isdigit r)))
          else 0)"

text \<open>Sign, number of digits, their value and the decimal exponent of the last digit.\<close>

definition decimal_parts :: "string \<Rightarrow> bool \<times> nat \<times> nat \<times> int" where
  "decimal_parts s =
     (let neg = (s \<noteq> [] \<and> hd s = CHR ''-'');
          r0 = (if neg then tl s else s);
          ip = takeWhile isdigit r0;
          r1 = dropWhile isdigit r0;
          fp = (if r1 \<noteq> [] \<and> hd r1 = CHR ''.'' then takeWhile isdigit (tl r1) else []);
          r2 = (if r1 \<noteq> [] \<and> hd r1 = CHR ''.'' then dropWhile isdigit (tl r1) else r1)
      in (neg, length ip + length fp, digits_val (ip @ fp), read_exponent r2 - int (length fp)))"

definition stod :: "string \<Rightarrow> double res" where
  "stod s =
     (case decimal_parts s of
        (neg, n, d, k) \<Rightarrow>
          if n = 0 then Inl (InvalidArgument ''stod'')
          else if d = 0 then Inr (Fin neg 0 0)
          else case round_binary64 (if 0 \<le> k then d * 10 ^ nat k else d)
                                   (if 0 \<le> k then 1 else 10 ^ nat (- k)) of
                 None \<Rightarrow> Inl (OutOfRange ''stod'')
               | Some (m, e) \<Rightarrow> Inr (Fin neg m e))"

definition pad6 :: "nat \<Rightarrow> string" where
  "pad6 n = map (\<lambda>k. digit_char (n div 10 ^ k mod 10)) [5, 4, 3, 2, 1, 0]"

definition fixed6 :: "nat \<Rightarrow> int \<Rightarrow> nat" where
  "fixed6 m e = (case scale_down (m * 10 ^ 6) 1 (- e) of (a, b) \<Rightarrow> div_round_even a b)"

fun to_string_double :: "double \<Rightarrow> string" where
  "to_string_double (NaN neg) = (if neg then ''-nan'' else ''nan'')"
| "to_string_double (Infty neg) = (if neg then ''-inf'' else ''inf'')"
| "to_string_double (Fin neg m e) =
     (if neg then ''-'' else [])
       @ nat_to_string (fixed6 m e div 10 ^ 6) @ ''.'' @ pad6 (fixed6 m e mod 10 ^ 6)"

fun is_finite :: "double \<Rightarrow> bool" where
  "is_finite (Fin _ _ _) = True"
| "is_finite _ = False"

lemma stod_finite: "stod s = Inr d \<Longrightarrow> is_finite d"
  by (auto simp: stod_def split: prod.splits if_splits option.splits)

lemma stod_exn: "stod s = Inl e \<Longrightarrow> e = OutOfRange ''stod'' \<or> e = InvalidArgument ''stod''"
  by (auto simp: stod_def split: prod.splits if_splits option.splits)

lemma length_pad6 [simp]: "length (pad6 n) = 6"
  by (simp add: pad6_def)

lemma pad6_digits: "c \<in> set (pad6 n) \<Longrightarrow> isdigit c"
  by (auto simp: pad6_def)

text \<open>The shape of a printed finite number: digits, a point, six digits.\<close>

lemma to_string_double_shape:
  assumes "is_finite d"
  shows "\<exists>sg ip fp. to_string_double d = sg @ ip @ ''.'' @ fp \<and> (sg = [] \<or> sg = ''-'')
    \<and> ip \<noteq> [] \<and> (\<forall>c \<in> set ip. isdigit c) \<and> length fp = 6 \<and> (\<forall>c \<in> set fp. isdigit c)"
proof (cases d)
  case (Fin neg m e)
  have "to_string_double d = (if neg then ''-'' else []) @ nat_to_string (fixed6 m e div 10 ^ 6)
      @ ''.'' @ pad6 (fixed6 m e mod 10 ^ 6)"
    by (simp only: Fin to_string_double.simps)
  moreover have "(if neg then ''-'' else []) = [] \<or> (if neg then ''-'' else []) = ''-''" by simp
  moreover have "\<forall>c \<in> set (nat_to_string n). isdigit c" "\<forall>c \<in> set (pad6 k). isdigit c" for n k
    by (auto dest: nat_to_string_digits pad6_digits)
  ultimately show ?thesis using length_pad6 nat_to_string_nonempty by blast
qed (use assms in auto)

lemma set_to_string_double:
  "is_finite d \<Longrightarrow> c \<in> set (to_string_double d) \<Longrightarrow> isdigit c \<or> c = CHR ''-'' \<or> c = CHR ''.''"
  by (cases d) (auto dest: nat_to_string_digits pad6_digits split: if_splits)

text \<open>Reference values, checked against the C library.\<close>

lemma bit_length_examples: "bit_length (Suc 0) = 1" "bit_length 10000000 = 24"
  by (simp_all add: bit_length.simps)

lemma round_1em7: "round_binary64 (Suc 0) 10000000 = Some (7555786372591432, - 76)"
  by (simp add: round_binary64_def bit_length_examples scale_down_def div_round_even_def Let_def)

lemma decimal_parts_1em7: "decimal_parts ''1e-7'' = (False, 1, 1, - 7)"
  by code_simp

lemma stod_1em7: "stod ''1e-7'' = Inr (Fin False 7555786372591432 (- 76))"
  by (simp add: stod_def decimal_parts_1em7 round_1em7)

lemma stod_1_5: "stod ''1.5'' = Inr (Fin False 6755399441055744 (- 52))"
  by code_simp

lemma to_string_1em7: "to_string_double (Fin False 7555786372591432 (- 76)) = ''0.000000''"
  by code_simp

lemma to_string_1_5: "to_string_double (Fin False 6755399441055744 (- 52)) = ''1.500000''"
  by code_simp

end
