(* ===== verification/Ast.thy ===== *)
theory Ast
  imports Cpp_Double
begin

text \<open>
  The query AST of \<open>src/src/parser/ast.hpp\<close>. The class hierarchy \<open>Expr\<close> with its \<open>kind\<close> tag is
  one datatype with a constructor per subclass; a \<open>LiteralExpr\<close>, whose payload is the one field
  its \<open>literal_kind\<close> selects, is the datatype \<open>LiteralExpr\<close>. \<open>int64_t\<close> values are integers; the
  operations that could leave their range say so where they occur.
\<close>

datatype BinaryOp = EQ | NE | GT | GE | LT | LE | AND | OR

datatype UnaryOp = NOT

datatype LiteralExpr =
    IntegerLit int
  | FloatLit double
  | StringLit string
  | BooleanLit bool
  | NullLit

datatype Expr =
    PropertyExpr string
  | Literal LiteralExpr
  | BinaryExpr BinaryOp Expr Expr
  | UnaryExpr UnaryOp Expr
  | FunctionCallExpr string "Expr list"

datatype SortOrder = ASC | DESC

record OrderByTerm =
  ob_property :: string
  ob_order :: SortOrder

text \<open>\<open>q_top\<close> and \<open>q_skip\<close> are \<open>-1\<close> when not specified, as in the source.\<close>

record ODataQuery =
  entity_set :: string
  q_select :: "string list"
  q_filter :: "Expr option"
  q_order_by :: "OrderByTerm list"
  q_top :: int
  q_skip :: int
  q_count :: bool

definition empty_query :: "string \<Rightarrow> ODataQuery" where
  "empty_query name =
     \<lparr>entity_set = name, q_select = [], q_filter = None, q_order_by = [],
      q_top = - 1, q_skip = - 1, q_count = False\<rparr>"

fun is_literal :: "Expr \<Rightarrow> bool" where
  "is_literal (Literal _) = True"
| "is_literal _ = False"

text \<open>The properties an expression reads, in order of occurrence.\<close>

fun expr_properties :: "Expr \<Rightarrow> string list" where
  "expr_properties (PropertyExpr n) = [n]"
| "expr_properties (Literal _) = []"
| "expr_properties (BinaryExpr _ l r) = expr_properties l @ expr_properties r"
| "expr_properties (UnaryExpr _ e) = expr_properties e"
| "expr_properties (FunctionCallExpr _ args) = concat (map expr_properties args)"

text \<open>The string literals of an expression, in order of occurrence.\<close>

fun literal_strings :: "LiteralExpr \<Rightarrow> string list" where
  "literal_strings (StringLit s) = [s]"
| "literal_strings _ = []"

fun expr_strings :: "Expr \<Rightarrow> string list" where
  "expr_strings (PropertyExpr _) = []"
| "expr_strings (Literal l) = literal_strings l"
| "expr_strings (BinaryExpr _ l r) = expr_strings l @ expr_strings r"
| "expr_strings (UnaryExpr _ e) = expr_strings e"
| "expr_strings (FunctionCallExpr _ args) = concat (map expr_strings args)"

end
