(* ===== verification/String_Util.thy ===== *)
theory String_Util
  imports Cpp_Std
begin

text \<open>
  The string, URL and escaping utilities of \<open>src/src/common/string_util.cpp\<close>, one definition
  per function, and two interfaces the rest of the code relies on: \<open>sql_quoting\<close>, what a quoting
  function promises to the SQL text it is put into, and \<open>char_escape\<close>, a character-wise
  escape that its decoder reads back. The decoders \<open>scan_quoted\<close> and \<open>json_unescape\<close> are
  specifications (the lexical rules of SQL and of RFC 8259), not code of the repository.
\<close>

section \<open>The functions\<close>

definition double_quotes :: "char \<Rightarrow> string \<Rightarrow> string" where
  "double_quotes q s = concat (map (\<lambda>c. if c = q then [q, q] else [c]) s)"

definition QuoteIdentifier :: "string \<Rightarrow> string" where
  "QuoteIdentifier name = [CHR 0x22] @ double_quotes (CHR 0x22) name @ [CHR 0x22]"

definition QuoteStringLiteral :: "string \<Rightarrow> string" where
  "QuoteStringLiteral value = [CHR 0x27] @ double_quotes (CHR 0x27) value @ [CHR 0x27]"

definition hex_lower :: "nat \<Rightarrow> char" where
  "hex_lower d = (if d < 10 then char_of (48 + d) else char_of (87 + d))"

definition json_escape_char :: "char \<Rightarrow> string" where
  "json_escape_char c =
     (if c = CHR 0x22 then [CHR 0x5C, CHR 0x22]
      else if c = CHR 0x5C then [CHR 0x5C, CHR 0x5C]
      else if c = CHR 0x08 then [CHR 0x5C, CHR ''b'']
      else if c = CHR 0x0C then [CHR 0x5C, CHR ''f'']
      else if c = CHR 0x0A then [CHR 0x5C, CHR ''n'']
      else if c = CHR 0x0D then [CHR 0x5C, CHR ''r'']
      else if c = CHR 0x09 then [CHR 0x5C, CHR ''t'']
      else if code c < 32
        then [CHR 0x5C, CHR ''u'', CHR ''0'', CHR ''0'',
              hex_lower (code c div 16), hex_lower (code c mod 16)]
      else [c])"

definition JsonEscape :: "string \<Rightarrow> string" where
  "JsonEscape value = concat (map json_escape_char value)"

definition HexValue :: "char \<Rightarrow> int" where
  "HexValue c =
     (if isdigit c then int (code c) - 48
      else if 97 \<le> code c \<and> code c \<le> 102 then int (code c) - 97 + 10
      else if 65 \<le> code c \<and> code c \<le> 70 then int (code c) - 65 + 10
      else -1)"

fun UrlDecode :: "string \<Rightarrow> string" where
  "UrlDecode [] = []"
| "UrlDecode (c # h # l # rest) =
     (if c = CHR ''%'' \<and> 0 \<le> HexValue h \<and> 0 \<le> HexValue l
      then char_of (nat (HexValue h * 16 + HexValue l)) # UrlDecode rest
      else (if c = CHR ''+'' then CHR '' '' else c) # UrlDecode (h # l # rest))"
| "UrlDecode (c # rest) = (if c = CHR ''+'' then CHR '' '' else c) # UrlDecode rest"

definition parse_pair :: "string \<Rightarrow> string \<times> string" where
  "parse_pair pr =
     (case split_first (CHR ''='') pr of
        None \<Rightarrow> (UrlDecode pr, [])
      | Some (k, v) \<Rightarrow> (UrlDecode k, UrlDecode v))"

definition ParseQueryString :: "string \<Rightarrow> (string \<times> string) list" where
  "ParseQueryString query =
     (if query = [] then []
      else map parse_pair (filter (\<lambda>pr. pr \<noteq> []) (split_on (CHR ''&'') query)))"

definition ToLower :: "string \<Rightarrow> string" where
  "ToLower input = map tolower input"

definition Trim :: "string \<Rightarrow> string" where
  "Trim input = rev (dropWhile isspace (rev (dropWhile isspace input)))"

definition StartsWith :: "string \<Rightarrow> string \<Rightarrow> bool" where
  "StartsWith name prefix \<longleftrightarrow> length prefix \<le> length name \<and> take (length prefix) name = prefix"

section \<open>Quoting: the interface to SQL text\<close>

text \<open>
  \<open>scan_quoted q\<close> reads the rest of a quoted token after its opening \<open>q\<close>: a doubled \<open>q\<close>
  stands for one, a single \<open>q\<close> ends the token. This is the lexical rule of SQL for delimited
  identifiers (\<open>q\<close> the double quote) and for string literals (\<open>q\<close> the single quote).
\<close>

fun scan_quoted :: "char \<Rightarrow> string \<Rightarrow> (string \<times> string) option" where
  "scan_quoted q [] = None"
| "scan_quoted q (c # cs) =
     (if c \<noteq> q then map_option (map_prod ((#) c) id) (scan_quoted q cs)
      else case cs of
             [] \<Rightarrow> Some ([], [])
           | d # ds \<Rightarrow> if d = q then map_option (map_prod ((#) q) id) (scan_quoted q ds)
                      else Some ([], cs))"

definition quote_free :: "char \<Rightarrow> string \<Rightarrow> bool" where
  "quote_free q rest \<longleftrightarrow> rest = [] \<or> hd rest \<noteq> q"

lemma quote_free_simps [simp]:
  "quote_free q []" "quote_free q (c # cs) \<longleftrightarrow> c \<noteq> q"
  by (simp_all add: quote_free_def)

lemma double_quotes_simps [simp]:
  "double_quotes q [] = []"
  "double_quotes q (c # s) = (if c = q then [q, q] else [c]) @ double_quotes q s"
  by (simp_all add: double_quotes_def)

lemma scan_double_quotes:
  "quote_free q rest \<Longrightarrow> scan_quoted q (double_quotes q s @ q # rest) = Some (s, rest)"
  by (induction s) (auto split: list.split)

lemma scan_quoted_length: "scan_quoted q s = Some (v, rest) \<Longrightarrow> length rest < length s"
  by (induction q s arbitrary: v rest rule: scan_quoted.induct)
     (auto split: if_splits list.splits, fastforce+)

locale sql_quoting =
  fixes q :: char
    and quote :: "string \<Rightarrow> string"
  assumes quote_open: "quote s = q # tl (quote s)"
    and quote_scan: "quote_free q rest \<Longrightarrow> scan_quoted q (tl (quote s) @ rest) = Some (s, rest)"
begin

lemma quote_nonempty: "quote s \<noteq> []"
  by (subst quote_open) simp

lemma quote_hd: "hd (quote s) = q"
  by (subst quote_open) simp

lemma quote_self: "scan_quoted q (tl (quote s)) = Some (s, [])"
  using quote_scan [of "[]" s] by simp

lemma quote_inj: "quote s = quote t \<Longrightarrow> s = t"
  using quote_self by (metis option.inject prod.inject)

text \<open>Two quoted texts followed by text that does not start with \<open>q\<close> are never confused.\<close>

lemma quote_prefix_inj:
  assumes "quote s @ r = quote t @ r'" "quote_free q r" "quote_free q r'"
  shows "s = t \<and> r = r'"
proof -
  have "tl (quote s) @ r = tl (quote s @ r)"
    by (simp only: tl_append2 [OF quote_nonempty])
  also have "\<dots> = tl (quote t) @ r'"
    by (simp only: assms(1) tl_append2 [OF quote_nonempty])
  finally have "Some (s, r) = Some (t, r')"
    using quote_scan [OF assms(2), of s] quote_scan [OF assms(3), of t] by (simp only:)
  then show ?thesis by blast
qed

end

interpretation ident: sql_quoting "CHR 0x22" QuoteIdentifier
  by unfold_locales (simp_all add: QuoteIdentifier_def scan_double_quotes)

interpretation strlit: sql_quoting "CHR 0x27" QuoteStringLiteral
  by unfold_locales (simp_all add: QuoteStringLiteral_def scan_double_quotes)

section \<open>Character-wise escapes\<close>

locale char_escape =
  fixes enc :: "char \<Rightarrow> string"
    and dec :: "string \<Rightarrow> string option"
  assumes dec_Nil: "dec [] = Some []"
    and dec_enc: "dec (enc c @ t) = map_option ((#) c) (dec t)"
begin

lemma dec_append: "dec (concat (map enc s) @ t) = map_option ((@) s) (dec t)"
  by (induction s) (auto simp: dec_enc option.map_comp comp_def option.map_ident)

lemma dec_concat: "dec (concat (map enc s)) = Some s"
  using dec_append [of s "[]"] by (simp add: dec_Nil)

lemma enc_inj: "concat (map enc s) = concat (map enc t) \<Longrightarrow> s = t"
  using dec_concat by (metis option.inject)

end

text \<open>
  The content of a JSON string literal (RFC 8259, section 7), read back: a raw quote or a raw
  control character is not allowed, a backslash starts an escape. Only the \<open>\u00xx\<close> escapes of
  one byte are read.
\<close>

definition byte_of_hex :: "char \<Rightarrow> char \<Rightarrow> char option" where
  "byte_of_hex h l =
     (if 0 \<le> HexValue h \<and> 0 \<le> HexValue l \<and> HexValue h < 8
      then Some (char_of (nat (HexValue h * 16 + HexValue l))) else None)"

definition json_simple_escape :: "char \<Rightarrow> char option" where
  "json_simple_escape e =
     map_of [(CHR 0x22, CHR 0x22), (CHR 0x5C, CHR 0x5C), (CHR ''/'', CHR ''/''),
             (CHR ''b'', CHR 0x08), (CHR ''f'', CHR 0x0C), (CHR ''n'', CHR 0x0A),
             (CHR ''r'', CHR 0x0D), (CHR ''t'', CHR 0x09)] e"

function json_unescape :: "string \<Rightarrow> string option" where
  "json_unescape s =
     (case s of
        [] \<Rightarrow> Some []
      | c # cs \<Rightarrow>
          if c = CHR 0x22 \<or> code c < 32 then None
          else if c \<noteq> CHR 0x5C then map_option ((#) c) (json_unescape cs)
          else (case cs of
                  e # ds \<Rightarrow>
                    if e = CHR ''u'' then
                      (case ds of
                         z1 # z2 # h # l # r \<Rightarrow>
                           (if z1 = CHR ''0'' \<and> z2 = CHR ''0'' then
                              (case byte_of_hex h l of None \<Rightarrow> None
                               | Some b \<Rightarrow> map_option ((#) b) (json_unescape r))
                            else None)
                       | _ \<Rightarrow> None)
                    else
                      (case json_simple_escape e of None \<Rightarrow> None
                       | Some b \<Rightarrow> map_option ((#) b) (json_unescape ds))
                | [] \<Rightarrow> None))"
  by pat_completeness auto
termination
  by (relation "measure length") auto

declare json_unescape.simps [simp del]

lemma HexValue_hex_lower [simp]: "d < 16 \<Longrightarrow> HexValue (hex_lower d) = int d"
  by (simp add: HexValue_def hex_lower_def isdigit_def)

lemma byte_of_hex_lower:
  "code c < 128 \<Longrightarrow> byte_of_hex (hex_lower (code c div 16)) (hex_lower (code c mod 16)) = Some c"
  by (simp add: byte_of_hex_def nat_add_distrib nat_mult_distrib nat_div_distrib nat_mod_distrib
      flip: zdiv_int zmod_int)

lemma json_unescape_backslash:
  "json_simple_escape e = Some b \<Longrightarrow>
     json_unescape (CHR 0x5C # e # t) = map_option ((#) b) (json_unescape t)"
  by (subst json_unescape.simps) (auto simp: json_simple_escape_def split: if_splits)

lemma json_unescape_u:
  "byte_of_hex h l = Some b \<Longrightarrow>
     json_unescape (CHR 0x5C # CHR ''u'' # CHR ''0'' # CHR ''0'' # h # l # t) =
       map_option ((#) b) (json_unescape t)"
  by (subst json_unescape.simps) simp

lemma json_unescape_plain:
  "code c \<ge> 32 \<Longrightarrow> c \<noteq> CHR 0x22 \<Longrightarrow> c \<noteq> CHR 0x5C \<Longrightarrow>
     json_unescape (c # t) = map_option ((#) c) (json_unescape t)"
  by (subst json_unescape.simps) simp

lemma json_escape_char_unfold:
  "json_unescape (json_escape_char c @ t) = map_option ((#) c) (json_unescape t)"
  unfolding json_escape_char_def
  by (simp add: json_unescape_backslash json_simple_escape_def json_unescape_u
      byte_of_hex_lower json_unescape_plain)

interpretation json: char_escape json_escape_char json_unescape
  by unfold_locales (simp_all add: json_escape_char_unfold json_unescape.simps [of "[]"])

lemma json_unescape_JsonEscape: "json_unescape (JsonEscape s) = Some s"
  unfolding JsonEscape_def by (rule json.dec_concat)

lemma json_escape_char_no_control: "x \<in> set (json_escape_char c) \<Longrightarrow> 32 \<le> code x"
  by (auto simp: json_escape_char_def hex_lower_def split: if_splits)

lemma JsonEscape_no_control: "x \<in> set (JsonEscape s) \<Longrightarrow> 32 \<le> code x"
  by (auto simp: JsonEscape_def dest: json_escape_char_no_control)

section \<open>Lower casing and trimming\<close>

lemma ToLower_simps [simp]:
  "ToLower [] = []" "ToLower (c # s) = tolower c # ToLower s"
  "ToLower (s @ t) = ToLower s @ ToLower t" "length (ToLower s) = length s"
  by (simp_all add: ToLower_def)

lemma ToLower_idem [simp]: "ToLower (ToLower s) = ToLower s"
  by (induction s) auto

lemma ToLower_eq_Nil [simp]: "ToLower s = [] \<longleftrightarrow> s = []" "[] = ToLower s \<longleftrightarrow> s = []"
  by (auto simp: ToLower_def)

text \<open>Trimming leaves no white space at either end and nothing else to remove.\<close>

definition trimmed :: "string \<Rightarrow> bool" where
  "trimmed s \<longleftrightarrow> s = [] \<or> (\<not> isspace (hd s) \<and> \<not> isspace (last s))"

lemma Trim_trimmed: "trimmed s \<Longrightarrow> Trim s = s"
proof (cases s rule: rev_cases)
  case (snoc xs x)
  assume "trimmed s"
  with snoc have "\<not> isspace (hd s)" "\<not> isspace x" "s \<noteq> []" by (auto simp: trimmed_def)
  then have "dropWhile isspace s = s" by (cases s) auto
  with snoc \<open>\<not> isspace x\<close> show ?thesis by (simp add: Trim_def)
qed (simp add: Trim_def)

lemma dropWhile_hd: "dropWhile P s \<noteq> [] \<Longrightarrow> \<not> P (hd (dropWhile P s))"
  by (rule hd_dropWhile)

lemma trimmed_Trim: "trimmed (Trim s)"
proof (cases "Trim s = []")
  case False
  define a where "a = dropWhile isspace s"
  define b where "b = dropWhile isspace (rev a)"
  from False have b: "b \<noteq> []" "Trim s = rev b" by (auto simp: Trim_def a_def b_def)
  then have "\<not> isspace (hd b)" using dropWhile_hd [of isspace "rev a"] by (simp add: b_def)
  moreover obtain c where c: "rev a = c @ b"
    unfolding b_def by (metis takeWhile_dropWhile_id)
  then have a: "a = rev b @ rev c" by (metis rev_append rev_rev_ident)
  then have "a \<noteq> []" "hd a = last b" using b(1) by (auto simp: hd_append hd_rev)
  then have "\<not> isspace (last b)" using dropWhile_hd [of isspace s] by (simp add: a_def)
  ultimately show ?thesis using b by (simp add: trimmed_def hd_rev last_rev)
qed (simp add: trimmed_def)

lemma Trim_idem [simp]: "Trim (Trim s) = Trim s"
  by (simp add: Trim_trimmed trimmed_Trim)

lemma Trim_eq_iff: "Trim s = s \<longleftrightarrow> trimmed s"
  using Trim_trimmed trimmed_Trim by metis

section \<open>Percent decoding and query strings\<close>

lemma UrlDecode_plain [simp]:
  "c \<noteq> CHR ''%'' \<Longrightarrow> c \<noteq> CHR ''+'' \<Longrightarrow> UrlDecode (c # s) = c # UrlDecode s"
  by (cases s; cases "tl s") auto

lemma UrlDecode_percent:
  "0 \<le> HexValue h \<Longrightarrow> 0 \<le> HexValue l \<Longrightarrow>
     UrlDecode (CHR ''%'' # h # l # s) = char_of (nat (HexValue h * 16 + HexValue l)) # UrlDecode s"
  by simp

lemma UrlDecode_plain_append [simp]:
  "CHR ''%'' \<notin> set a \<Longrightarrow> CHR ''+'' \<notin> set a \<Longrightarrow> UrlDecode (a @ b) = a @ UrlDecode b"
  by (induction a) auto

lemma UrlDecode_plain_id: "CHR ''%'' \<notin> set a \<Longrightarrow> CHR ''+'' \<notin> set a \<Longrightarrow> UrlDecode a = a"
  using UrlDecode_plain_append [of a "[]"] by simp

lemma length_UrlDecode: "length (UrlDecode s) \<le> length s"
  by (induction s rule: UrlDecode.induct) auto

lemma split_on_append_sep: "split_on c (a @ c # b) = split_on c a @ split_on c b"
  by (induction a) (auto split: list.split)

lemma ParseQueryString_Nil [simp]: "ParseQueryString [] = []"
  by (simp add: ParseQueryString_def)

text \<open>The pairs of a query string are the pairs of its parts, in order.\<close>

lemma ParseQueryString_append:
  "ParseQueryString (q @ CHR ''&'' # r) = ParseQueryString q @ ParseQueryString r"
  by (auto simp: ParseQueryString_def split_on_append_sep)

lemma ParseQueryString_single:
  "s \<noteq> [] \<Longrightarrow> CHR ''&'' \<notin> set s \<Longrightarrow> ParseQueryString s = [parse_pair s]"
  by (simp add: ParseQueryString_def)

end
