(* ===== verification/Lexer.thy ===== *)
theory Lexer
  imports Ast String_Util
begin

text \<open>
  The tokenizer of \<open>$filter\<close> expressions, \<open>src/src/parser/lexer.cpp\<close>. The index \<open>i\<close> of the code
  is the remaining input; each inner loop of \<open>Tokenize\<close> is a scanner that gives what it read
  and the rest. \<open>std::stoll\<close> and \<open>std::stod\<close> may raise \<open>std::out_of_range\<close>, which is not an
  \<open>ODataParseException\<close>: the model keeps the two apart.
\<close>

datatype TokenType =
    IDENTIFIER | STRING | INTEGER | FLOAT | DATE | TIMESTAMP | GUID | BOOLEAN | NULL_VAL
  | EQ | NE | GT | GE | LT | LE | AND | OR | NOT
  | LPAREN | RPAREN | COMMA | COLON | END

record Token =
  tok_type :: TokenType
  tok_text :: string
  int_value :: int
  float_value :: double
  tok_line :: nat

definition Token_ToString :: "Token \<Rightarrow> string" where
  "Token_ToString t = tok_text t"

definition EscapeODataString :: "string \<Rightarrow> string" where
  "EscapeODataString txt = txt"

definition mk_token :: "TokenType \<Rightarrow> string \<Rightarrow> nat \<Rightarrow> Token" where
  "mk_token t s ln =
     \<lparr>tok_type = t, tok_text = s, int_value = 0, float_value = Fin False 0 0, tok_line = ln\<rparr>"

definition KeywordType :: "string \<Rightarrow> TokenType" where
  "KeywordType lower =
     (if lower = ''eq'' then TokenType.EQ
      else if lower = ''ne'' then TokenType.NE
      else if lower = ''gt'' then TokenType.GT
      else if lower = ''ge'' then TokenType.GE
      else if lower = ''lt'' then TokenType.LT
      else if lower = ''le'' then TokenType.LE
      else if lower = ''and'' then TokenType.AND
      else if lower = ''or'' then TokenType.OR
      else if lower = ''not'' then TokenType.NOT
      else if lower = ''true'' \<or> lower = ''false'' then BOOLEAN
      else if lower = ''null'' then NULL_VAL
      else IDENTIFIER)"

definition IsIdentStart :: "char \<Rightarrow> bool" where
  "IsIdentStart c \<longleftrightarrow> isalpha c \<or> c = CHR ''_''"

definition IsIdentChar :: "char \<Rightarrow> bool" where
  "IsIdentChar c \<longleftrightarrow> isalnum c \<or> c = CHR ''_'' \<or> c = CHR ''.'' \<or> c = CHR ''/''"

text \<open>The loop of a string literal after its opening quote; \<open>None\<close> when it is not closed.\<close>

fun lex_string :: "char \<Rightarrow> string \<Rightarrow> string \<Rightarrow> (string \<times> string) option" where
  "lex_string quote value [] = None"
| "lex_string quote value [c] = (if c = quote then Some (value, []) else None)"
| "lex_string quote value (c # d # cs) =
     (if c = quote then
        (if d = quote then lex_string quote (value @ [quote]) cs else Some (value, d # cs))
      else lex_string quote (value @ [c]) (d # cs))"

text \<open>The parts of a number: what is read and what is left.\<close>

definition scan_digits :: "string \<Rightarrow> string \<times> string" where
  "scan_digits s = (takeWhile isdigit s, dropWhile isdigit s)"

definition scan_sign :: "string \<Rightarrow> string \<times> string" where
  "scan_sign s = (case s of c # r \<Rightarrow> if c = CHR ''-'' then ([c], r) else ([], s) | [] \<Rightarrow> ([], []))"

definition scan_fraction :: "string \<Rightarrow> string \<times> string" where
  "scan_fraction s =
     (case s of
        c # r \<Rightarrow> if c = CHR ''.'' then (case scan_digits r of (a, b) \<Rightarrow> (c # a, b)) else ([], s)
      | [] \<Rightarrow> ([], []))"

definition scan_exponent :: "string \<Rightarrow> string \<times> string" where
  "scan_exponent s =
     (case s of
        c # r \<Rightarrow>
          if c = CHR ''e'' \<or> c = CHR ''E'' then
            (case r of
               g # r' \<Rightarrow>
                 if g = CHR ''+'' \<or> g = CHR ''-''
                 then (case scan_digits r' of (a, b) \<Rightarrow> (c # g # a, b))
                 else (case scan_digits r of (a, b) \<Rightarrow> (c # a, b))
             | [] \<Rightarrow> ([c], []))
          else ([], s)
      | [] \<Rightarrow> ([], []))"

definition lex_number :: "string \<Rightarrow> string \<times> bool \<times> string" where
  "lex_number s =
     (case scan_sign s of (sg, r0) \<Rightarrow>
      case scan_digits r0 of (ip, r1) \<Rightarrow>
      case scan_fraction r1 of (fp, r2) \<Rightarrow>
      case scan_exponent r2 of (ep, r3) \<Rightarrow>
        (sg @ ip @ fp @ ep, fp \<noteq> [] \<or> ep \<noteq> [], r3))"

definition starts_number :: "string \<Rightarrow> bool" where
  "starts_number s =
     (case s of
        [] \<Rightarrow> False
      | c # r \<Rightarrow> isdigit c \<or> (c = CHR ''-'' \<and> r \<noteq> [] \<and> isdigit (hd r)))"

definition number_token :: "string \<Rightarrow> bool \<Rightarrow> nat \<Rightarrow> Token res" where
  "number_token txt is_float ln =
     (if is_float
      then bindE (stod txt) (\<lambda>d. Inr ((mk_token FLOAT txt ln)\<lparr>float_value := d\<rparr>))
      else bindE (stoll txt) (\<lambda>(v, idx). Inr ((mk_token INTEGER txt ln)\<lparr>int_value := v\<rparr>)))"

definition word_token :: "string \<Rightarrow> nat \<Rightarrow> Token" where
  "word_token txt ln =
     (let kt = KeywordType (ToLower txt)
      in if kt = BOOLEAN then mk_token kt txt ln
         else if kt = NULL_VAL then mk_token kt ''null'' ln
         else if kt \<noteq> IDENTIFIER then mk_token kt (ToLower txt) ln
         else mk_token IDENTIFIER txt ln)"

definition punctuation :: "char \<Rightarrow> TokenType option" where
  "punctuation c =
     (if c = CHR ''('' then Some LPAREN
      else if c = CHR '')'' then Some RPAREN
      else if c = CHR '','' then Some COMMA
      else if c = CHR '':'' then Some COLON
      else None)"

definition msg_unterminated :: string where
  "msg_unterminated = ''Unterminated string literal in $filter''"

definition msg_unexpected_char :: "char \<Rightarrow> string" where
  "msg_unexpected_char c = ''Unexpected character '' @ [CHR 0x27, c, CHR 0x27] @ '' in $filter''"

lemma lex_string_scan:
  "lex_string q w s = map_option (map_prod ((@) w) id) (scan_quoted q s)"
  by (induction q w s rule: lex_string.induct)
     (auto simp: option.map_comp comp_def map_prod_def split: prod.splits intro!: option.map_cong)

lemma lex_string_length: "lex_string q v s = Some (w, rest) \<Longrightarrow> length rest < length s"
  by (auto simp: lex_string_scan dest: scan_quoted_length)

lemma length_scan_rests:
  "length (snd (scan_digits s)) \<le> length s"
  "length (snd (scan_fraction s)) \<le> length s"
  "length (snd (scan_exponent s)) \<le> length s"
  "length (snd (scan_sign s)) \<le> length s"
  by (auto simp: scan_digits_def scan_fraction_def scan_exponent_def scan_sign_def
      length_dropWhile_le le_SucI split: list.splits)

lemma scan_rest_length:
  "scan_fraction s = (a, b) \<Longrightarrow> length b \<le> length s"
  "scan_exponent s = (a, b) \<Longrightarrow> length b \<le> length s"
  using length_scan_rests(2,3) [of s] by simp_all

lemma lex_number_length:
  assumes "starts_number s" "lex_number s = (txt, fl, rest)"
  shows "length rest < length s"
proof -
  obtain c r where s: "s = c # r" and c: "isdigit c \<or> (c = CHR ''-'' \<and> r \<noteq> [] \<and> isdigit (hd r))"
    using assms(1) by (auto simp: starts_number_def split: list.splits)
  define r0 where "r0 = snd (scan_sign s)"
  have r0: "length r0 \<le> length s" "r0 \<noteq> []" "isdigit (hd r0)"
    using c by (auto simp: r0_def s scan_sign_def)
  then have "length (snd (scan_digits r0)) < length s"
    using length_dropWhile_less [of r0 isdigit] by (simp add: scan_digits_def)
  moreover have "length rest \<le> length (snd (scan_digits r0))"
    using assms(2)
    by (auto simp: lex_number_def r0_def split: prod.splits dest!: scan_rest_length)
  ultimately show ?thesis by simp
qed

lemma IsIdentStart_Char: "IsIdentStart c \<Longrightarrow> IsIdentChar c"
  by (auto simp: IsIdentStart_def IsIdentChar_def isalnum_def)

function (sequential) tokenize_from :: "nat \<Rightarrow> string \<Rightarrow> Token list res" where
  "tokenize_from ln [] = Inr [mk_token END [] 1]"
| "tokenize_from ln (c # cs) =
     (if c = CHR '' '' \<or> c = CHR 0x09 \<or> c = CHR 0x0D then tokenize_from ln cs
      else if c = CHR 0x0A then tokenize_from (ln + 1) cs
      else if c = CHR 0x27 \<or> c = CHR 0x22 then
        (case lex_string c [] cs of
           None \<Rightarrow> Inl (ODataParseException msg_unterminated)
         | Some (value, rest) \<Rightarrow>
             bindE (tokenize_from ln rest) (\<lambda>ts. Inr (mk_token STRING value ln # ts)))
      else if starts_number (c # cs) then
        (case lex_number (c # cs) of
           (txt, is_float, rest) \<Rightarrow>
             bindE (number_token txt is_float ln) (\<lambda>t.
             bindE (tokenize_from ln rest) (\<lambda>ts. Inr (t # ts))))
      else if IsIdentStart c then
        bindE (tokenize_from ln (dropWhile IsIdentChar (c # cs)))
              (\<lambda>ts. Inr (word_token (takeWhile IsIdentChar (c # cs)) ln # ts))
      else
        (case punctuation c of
           None \<Rightarrow> Inl (ODataParseException (msg_unexpected_char c))
         | Some t \<Rightarrow> bindE (tokenize_from ln cs) (\<lambda>ts. Inr (mk_token t [c] ln # ts))))"
  by pat_completeness auto
termination
proof (relation "measure (\<lambda>(ln, s). length s)")
  show "wf (measure (\<lambda>(ln, s :: string). length s))" by simp
next
  fix ln c cs
  assume "IsIdentStart c"
  then have "length (dropWhile IsIdentChar (c # cs)) < length (c # cs)"
    by (intro length_dropWhile_less) (auto dest: IsIdentStart_Char)
  then show "((ln, dropWhile IsIdentChar (c # cs)), ln, c # cs) \<in> measure (\<lambda>(ln, s). length s)"
    by simp
qed (auto dest: lex_string_length lex_number_length [OF _ sym])

declare tokenize_from.simps(2) [simp del]

definition Tokenize :: "string \<Rightarrow> Token list res" where
  "Tokenize input = tokenize_from 1 input"

section \<open>Every token list ends with its only END token\<close>

definition closed_tokens :: "Token list \<Rightarrow> bool" where
  "closed_tokens ts \<longleftrightarrow>
     (\<exists>us t. ts = us @ [t] \<and> tok_type t = END \<and> (\<forall>u \<in> set us. tok_type u \<noteq> END))"

lemma closed_tokens_Cons [simp]:
  "tok_type t \<noteq> END \<Longrightarrow> closed_tokens (t # ts) \<longleftrightarrow> closed_tokens ts"
proof
  assume t: "tok_type t \<noteq> END" and "closed_tokens (t # ts)"
  then obtain us e where "t # ts = us @ [e]" "tok_type e = END" "\<forall>u \<in> set us. tok_type u \<noteq> END"
    unfolding closed_tokens_def by blast
  with t show "closed_tokens ts" unfolding closed_tokens_def by (cases us) auto
next
  assume t: "tok_type t \<noteq> END" and "closed_tokens ts"
  then obtain us e where "ts = us @ [e]" "tok_type e = END" "\<forall>u \<in> set us. tok_type u \<noteq> END"
    unfolding closed_tokens_def by blast
  with t show "closed_tokens (t # ts)"
    unfolding closed_tokens_def by (intro exI [of _ "t # us"] exI [of _ e]) auto
qed

lemma closed_tokens_END: "tok_type t = END \<Longrightarrow> closed_tokens (t # ts) \<longleftrightarrow> ts = []"
  unfolding closed_tokens_def by (auto simp: Cons_eq_append_conv)

lemma closed_tokens_nonempty: "closed_tokens ts \<Longrightarrow> ts \<noteq> []"
  by (auto simp: closed_tokens_def)

lemma mk_token_simps [simp]:
  "tok_type (mk_token t s ln) = t" "tok_text (mk_token t s ln) = s"
  by (simp_all add: mk_token_def)

lemma number_token_type:
  "number_token txt fl ln = Inr t \<Longrightarrow> tok_type t \<noteq> END"
  by (auto simp: number_token_def bindE_Inr_iff split: if_splits)

lemma word_token_type [simp]: "tok_type (word_token txt ln) \<noteq> END"
  by (simp add: word_token_def Let_def KeywordType_def)

lemma punctuation_type: "punctuation c = Some t \<Longrightarrow> t \<noteq> END"
  by (auto simp: punctuation_def split: if_splits)

text \<open>One step of the tokenizer: what it emits before it goes on with the rest.\<close>

definition token_step :: "nat \<Rightarrow> char \<Rightarrow> string \<Rightarrow> (Token list \<times> nat \<times> string) res" where
  "token_step ln c cs =
     (if c = CHR '' '' \<or> c = CHR 0x09 \<or> c = CHR 0x0D then Inr ([], ln, cs)
      else if c = CHR 0x0A then Inr ([], ln + 1, cs)
      else if c = CHR 0x27 \<or> c = CHR 0x22 then
        (case lex_string c [] cs of
           None \<Rightarrow> Inl (ODataParseException msg_unterminated)
         | Some (v, rest) \<Rightarrow> Inr ([mk_token STRING v ln], ln, rest))
      else if starts_number (c # cs) then
        (case lex_number (c # cs) of
           (txt, is_float, rest) \<Rightarrow>
             bindE (number_token txt is_float ln) (\<lambda>t. Inr ([t], ln, rest)))
      else if IsIdentStart c then
        Inr ([word_token (takeWhile IsIdentChar (c # cs)) ln], ln, dropWhile IsIdentChar (c # cs))
      else
        (case punctuation c of
           None \<Rightarrow> Inl (ODataParseException (msg_unexpected_char c))
         | Some t \<Rightarrow> Inr ([mk_token t [c] ln], ln, cs)))"

lemma bindE_Inr_eta [simp]: "bindE m Inr = m"
  by (cases m) auto

lemma tokenize_from_step:
  "tokenize_from ln (c # cs) =
     bindE (token_step ln c cs) (\<lambda>(us, ln', rest).
       bindE (tokenize_from ln' rest) (\<lambda>ts. Inr (us @ ts)))"
  by (subst tokenize_from.simps)
     (simp add: token_step_def bindE_assoc split: option.split prod.split)

lemma token_step_length:
  "token_step ln c cs = Inr (us, ln', rest) \<Longrightarrow> length rest < length (c # cs)"
  using length_dropWhile_less [of "c # cs" IsIdentChar]
  by (auto simp: token_step_def bindE_Inr_iff IsIdentStart_Char
      dest: lex_string_length lex_number_length
      split: if_splits option.splits prod.splits)

lemma token_step_types:
  "token_step ln c cs = Inr (us, ln', rest) \<Longrightarrow> \<forall>u \<in> set us. tok_type u \<noteq> END"
  by (auto simp: token_step_def bindE_Inr_iff dest: number_token_type punctuation_type
      split: if_splits option.splits prod.splits)

lemma tokenize_from_induct [case_names Nil Step]:
  assumes "\<And>ln. P ln []"
    and "\<And>ln c cs. (\<And>us ln' rest. token_step ln c cs = Inr (us, ln', rest) \<Longrightarrow> P ln' rest)
           \<Longrightarrow> P ln (c # cs)"
  shows "P ln s"
proof (induction "length s" arbitrary: ln s rule: less_induct)
  case less
  show ?case
  proof (cases s)
    case Nil
    with assms(1) show ?thesis by simp
  next
    case (Cons c cs)
    with less assms(2) [of ln c cs] show ?thesis by (blast dest: token_step_length)
  qed
qed

lemma closed_tokens_append:
  "\<forall>u \<in> set us. tok_type u \<noteq> END \<Longrightarrow> closed_tokens (us @ ts) \<longleftrightarrow> closed_tokens ts"
  by (induction us) auto

lemma tokenize_from_closed: "tokenize_from ln s = Inr ts \<Longrightarrow> closed_tokens ts"
proof (induction ln s arbitrary: ts rule: tokenize_from_induct)
  case (Nil ln)
  then show ?case by (auto simp: closed_tokens_END)
next
  case (Step ln c cs)
  from Step.prems obtain us ln' rest ts' where st: "token_step ln c cs = Inr (us, ln', rest)"
    and rec: "tokenize_from ln' rest = Inr ts'" and ts: "ts = us @ ts'"
    by (auto simp: tokenize_from_step bindE_Inr_iff)
  from Step.IH [OF st rec] token_step_types [OF st] show ?case
    by (simp add: ts closed_tokens_append)
qed

text \<open>The errors of the tokenizer: its own, and the range errors of the number conversions.\<close>

definition lexer_exn :: "exn \<Rightarrow> bool" where
  "lexer_exn e \<longleftrightarrow>
     (\<exists>m. e = ODataParseException m) \<or> e = OutOfRange ''stoll'' \<or> e = OutOfRange ''stod''"

text \<open>A number starts with its digits, so the conversions never find it malformed.\<close>

lemma lex_number_shape:
  assumes "starts_number s" "lex_number s = (txt, fl, rest)"
  shows "\<exists>sg ds tail. txt = sg @ ds @ tail \<and> (sg = [] \<or> sg = ''-'') \<and> ds \<noteq> []
           \<and> (\<forall>c \<in> set ds. isdigit c) \<and> (fl \<longleftrightarrow> tail \<noteq> [])"
proof -
  obtain c r where s: "s = c # r" and c: "isdigit c \<or> (c = CHR ''-'' \<and> r \<noteq> [] \<and> isdigit (hd r))"
    using assms(1) by (auto simp: starts_number_def split: list.splits)
  define sg r0 where "sg = fst (scan_sign s)" and "r0 = snd (scan_sign s)"
  have r0: "sg = [] \<or> sg = ''-''" "r0 \<noteq> []" "isdigit (hd r0)"
    using c by (auto simp: r0_def sg_def s scan_sign_def)
  then have "takeWhile isdigit r0 \<noteq> []" by (cases r0) auto
  moreover have "\<forall>c \<in> set (takeWhile isdigit r0). isdigit c" by (auto dest: set_takeWhileD)
  moreover obtain fp ep where "txt = sg @ takeWhile isdigit r0 @ (fp @ ep)" "fl \<longleftrightarrow> fp @ ep \<noteq> []"
    using assms(2)
    by (auto simp: lex_number_def sg_def r0_def scan_digits_def split: prod.splits)
  ultimately show ?thesis using r0(1) by blast
qed

lemma stoll_not_invalid:
  assumes "txt = sg @ ds" "sg = [] \<or> sg = ''-''" "ds \<noteq> []" "\<forall>c \<in> set ds. isdigit c"
  shows "stoll txt \<noteq> Inl (InvalidArgument m)"
  using assms by (auto simp: stoll_def read_int_digits read_int_neg_digits split: if_splits)

lemma stod_not_invalid:
  assumes "txt = sg @ ds @ tail" "sg = [] \<or> sg = ''-''" "ds \<noteq> []" "\<forall>c \<in> set ds. isdigit c"
  shows "stod txt \<noteq> Inl (InvalidArgument m)"
proof -
  obtain d ds' where ds: "ds = d # ds'" "isdigit d" using assms(3,4) by (cases ds) auto
  define r0 where "r0 = (if txt \<noteq> [] \<and> hd txt = CHR ''-'' then tl txt else txt)"
  have "r0 = ds @ tail" using assms(1,2) ds by (auto simp: r0_def)
  then have "takeWhile isdigit r0 \<noteq> []" using ds by simp
  moreover have "length (takeWhile isdigit r0) \<le> fst (snd (decimal_parts txt))"
    by (simp only: decimal_parts_def Let_def fst_conv snd_conv r0_def le_add1)
  ultimately have "fst (snd (decimal_parts txt)) \<noteq> 0" by (cases "takeWhile isdigit r0") auto
  then show ?thesis
    by (cases "decimal_parts txt") (simp add: stod_def split: option.split prod.split)
qed

lemma number_token_exn:
  assumes "starts_number s" "lex_number s = (txt, fl, rest)" "number_token txt fl ln = Inl e"
  shows "e = OutOfRange ''stoll'' \<or> e = OutOfRange ''stod''"
proof -
  obtain sg ds tail where shape: "txt = sg @ ds @ tail" "sg = [] \<or> sg = ''-''" "ds \<noteq> []"
    "\<forall>c \<in> set ds. isdigit c" "fl \<longleftrightarrow> tail \<noteq> []"
    using lex_number_shape [OF assms(1,2)] by blast
  show ?thesis
  proof (cases fl)
    case True
    with assms(3) stod_not_invalid [OF shape(1-4)] show ?thesis
      by (auto simp: number_token_def bindE_Inl_iff dest: stod_exn)
  next
    case False
    then have "txt = sg @ ds" using shape by simp
    from False assms(3) stoll_not_invalid [OF this shape(2-4)] show ?thesis
      by (auto simp: number_token_def bindE_Inl_iff stoll_def split: option.splits if_splits)
  qed
qed

lemma token_step_exn: "token_step ln c cs = Inl e \<Longrightarrow> lexer_exn e"
  by (auto simp: token_step_def lexer_exn_def bindE_Inl_iff
      dest!: number_token_exn split: if_splits option.splits prod.splits)

lemma tokenize_from_exn: "tokenize_from ln s = Inl e \<Longrightarrow> lexer_exn e"
proof (induction ln s rule: tokenize_from_induct)
  case (Nil ln)
  then show ?case by simp
next
  case (Step ln c cs)
  then show ?case
    by (auto simp: tokenize_from_step bindE_Inl_iff dest: token_step_exn)
qed

section \<open>A quoted literal is one token\<close>

text \<open>
  What \<open>QuoteStringLiteral\<close> writes, the tokenizer reads back as one STRING token of the same
  text: the two escape conventions agree.
\<close>

lemma tokenize_quoted:
  assumes "quote_free (CHR 0x27) rest"
  shows "tokenize_from ln (QuoteStringLiteral v @ rest) =
           bindE (tokenize_from ln rest) (\<lambda>ts. Inr (mk_token STRING v ln # ts))"
  using assms
  by (simp add: QuoteStringLiteral_def tokenize_from.simps(2) lex_string_scan scan_double_quotes)

lemma tokenize_space [simp]: "tokenize_from ln (CHR '' '' # s) = tokenize_from ln s"
  by (simp add: tokenize_from.simps(2))

end
