(* ===== verification/Filter_Parser.thy ===== *)
theory Filter_Parser
  imports Lexer
begin

text \<open>
  The recursive descent parser of \<open>$filter\<close>, class \<open>FilterParser\<close> of
  \<open>src/src/parser/odata_parser.cpp\<close>. The pair of the token vector and the index \<open>pos\<close> is the list
  of the tokens not yet read. A read past the end of the vector, undefined in C++, is
  \<open>UndefinedBehaviour\<close> here. The mutually recursive methods and their loops take a fuel argument;
  \<open>6 * n + 5\<close> for \<open>n\<close> tokens is shown to be enough, and on a token list of the tokenizer no read
  is out of range.
\<close>

type_synonym 'a parse_result = "('a \<times> Token list) res"

definition Peek :: "Token list \<Rightarrow> Token res" where
  "Peek ts = (case ts of [] \<Rightarrow> Inl UndefinedBehaviour | t # _ \<Rightarrow> Inr t)"

definition Match :: "TokenType \<Rightarrow> Token list \<Rightarrow> (bool \<times> Token list) res" where
  "Match ty ts =
     bindE (Peek ts) (\<lambda>t. if tok_type t = ty then Inr (True, tl ts) else Inr (False, ts))"

definition msg_expected :: "string \<Rightarrow> string \<Rightarrow> string" where
  "msg_expected w found = ''expected '' @ w @ '' but found '' @ [CHR 0x27] @ found @ [CHR 0x27]"

definition msg_unexpected_token :: "string \<Rightarrow> string" where
  "msg_unexpected_token tx =
     ''unexpected token '' @ [CHR 0x27] @ tx @ [CHR 0x27] @ '' in $filter''"

definition Expect :: "TokenType \<Rightarrow> string \<Rightarrow> Token list \<Rightarrow> Token list res" where
  "Expect ty w ts =
     bindE (Peek ts) (\<lambda>t. if tok_type t = ty then Inr (tl ts)
                          else Inl (ODataParseException (msg_expected w (tok_text t))))"

definition comparison_op :: "TokenType \<Rightarrow> BinaryOp option" where
  "comparison_op ty =
     (case ty of
        TokenType.EQ \<Rightarrow> Some BinaryOp.EQ
      | TokenType.NE \<Rightarrow> Some BinaryOp.NE
      | TokenType.GT \<Rightarrow> Some BinaryOp.GT
      | TokenType.GE \<Rightarrow> Some BinaryOp.GE
      | TokenType.LT \<Rightarrow> Some BinaryOp.LT
      | TokenType.LE \<Rightarrow> Some BinaryOp.LE
      | _ \<Rightarrow> None)"

text \<open>The literal cases of \<open>ParsePrimary\<close>.\<close>

definition literal_of :: "Token \<Rightarrow> LiteralExpr option" where
  "literal_of tok =
     (case tok_type tok of
        INTEGER \<Rightarrow> Some (IntegerLit (int_value tok))
      | FLOAT \<Rightarrow> Some (FloatLit (float_value tok))
      | STRING \<Rightarrow> Some (StringLit (tok_text tok))
      | BOOLEAN \<Rightarrow> Some (BooleanLit (ToLower (tok_text tok) = ''true''))
      | NULL_VAL \<Rightarrow> Some NullLit
      | _ \<Rightarrow> None)"

function ParseOr :: "nat \<Rightarrow> Token list \<Rightarrow> Expr parse_result"
and or_loop :: "nat \<Rightarrow> Expr \<Rightarrow> Token list \<Rightarrow> Expr parse_result"
and ParseAnd :: "nat \<Rightarrow> Token list \<Rightarrow> Expr parse_result"
and and_loop :: "nat \<Rightarrow> Expr \<Rightarrow> Token list \<Rightarrow> Expr parse_result"
and ParseNot :: "nat \<Rightarrow> Token list \<Rightarrow> Expr parse_result"
and ParseComparison :: "nat \<Rightarrow> Token list \<Rightarrow> Expr parse_result"
and ParsePrimary :: "nat \<Rightarrow> Token list \<Rightarrow> Expr parse_result"
and args_loop :: "nat \<Rightarrow> Token list \<Rightarrow> Expr list parse_result"
where
  "ParseOr 0 ts = Inl OutOfFuel"
| "ParseOr (Suc n) ts = bindE (ParseAnd n ts) (\<lambda>(left, r). or_loop n left r)"
| "or_loop 0 left ts = Inl OutOfFuel"
| "or_loop (Suc n) left ts =
     bindE (Match TokenType.OR ts) (\<lambda>(b, r).
       if b then bindE (ParseAnd n r) (\<lambda>(right, r'). or_loop n (BinaryExpr BinaryOp.OR left right) r')
       else Inr (left, r))"
| "ParseAnd 0 ts = Inl OutOfFuel"
| "ParseAnd (Suc n) ts = bindE (ParseNot n ts) (\<lambda>(left, r). and_loop n left r)"
| "and_loop 0 left ts = Inl OutOfFuel"
| "and_loop (Suc n) left ts =
     bindE (Match TokenType.AND ts) (\<lambda>(b, r).
       if b then bindE (ParseNot n r) (\<lambda>(right, r'). and_loop n (BinaryExpr BinaryOp.AND left right) r')
       else Inr (left, r))"
| "ParseNot 0 ts = Inl OutOfFuel"
| "ParseNot (Suc n) ts =
     bindE (Match TokenType.NOT ts) (\<lambda>(b, r).
       if b then bindE (ParseNot n r) (\<lambda>(child, r'). Inr (UnaryExpr UnaryOp.NOT child, r'))
       else ParseComparison n r)"
| "ParseComparison 0 ts = Inl OutOfFuel"
| "ParseComparison (Suc n) ts =
     bindE (ParsePrimary n ts) (\<lambda>(left, r).
       bindE (Peek r) (\<lambda>t.
         case comparison_op (tok_type t) of
           None \<Rightarrow> Inr (left, r)
         | Some op \<Rightarrow>
             bindE (ParsePrimary n (tl r)) (\<lambda>(right, r'). Inr (BinaryExpr op left right, r'))))"
| "ParsePrimary 0 ts = Inl OutOfFuel"
| "ParsePrimary (Suc n) ts =
     bindE (Peek ts) (\<lambda>tok.
       if tok_type tok = LPAREN then
         bindE (ParseOr n (tl ts)) (\<lambda>(e, r).
         bindE (Expect RPAREN [CHR 0x27, CHR '')'', CHR 0x27] r) (\<lambda>r'. Inr (e, r')))
       else if tok_type tok = IDENTIFIER then
         bindE (Match LPAREN (tl ts)) (\<lambda>(b, r).
           if b then
             bindE (Match RPAREN r) (\<lambda>(b', r').
               if b' then Inr (FunctionCallExpr (tok_text tok) [], r')
               else bindE (args_loop n r')
                      (\<lambda>(args, r''). Inr (FunctionCallExpr (tok_text tok) args, r'')))
           else Inr (PropertyExpr (tok_text tok), r))
       else
         (case literal_of tok of
            Some lit \<Rightarrow> Inr (Literal lit, tl ts)
          | None \<Rightarrow> Inl (ODataParseException (msg_unexpected_token (tok_text tok)))))"
| "args_loop 0 ts = Inl OutOfFuel"
| "args_loop (Suc n) ts =
     bindE (ParseOr n ts) (\<lambda>(a, r).
     bindE (Match RPAREN r) (\<lambda>(b, r').
       if b then Inr ([a], r')
       else bindE (Expect COMMA [CHR 0x27, CHR '','', CHR 0x27] r') (\<lambda>r''.
            bindE (args_loop n r'') (\<lambda>(args, r'''). Inr (a # args, r''')))))"

  by pat_completeness simp_all
termination
  by (relation "measure (case_sum (case_sum (case_sum fst fst) (case_sum fst fst))
        (case_sum (case_sum fst fst) (case_sum fst fst)))") simp_all

definition parse_fuel :: "Token list \<Rightarrow> nat" where
  "parse_fuel ts = 6 * length ts + 5"

text \<open>\<open>FilterParser::Parse\<close> and \<open>ParseFilter\<close>.\<close>

definition Parse :: "Token list \<Rightarrow> Expr res" where
  "Parse ts =
     bindE (Peek ts) (\<lambda>t0.
       if tok_type t0 = END then Inl (ODataParseException ''empty $filter expression'')
       else
         bindE (ParseOr (parse_fuel ts) ts) (\<lambda>(e, r).
         bindE (Peek r) (\<lambda>t.
           if tok_type t \<noteq> END then Inl (ODataParseException (msg_unexpected_token (tok_text t)))
           else Inr e)))"

definition ParseFilter :: "string \<Rightarrow> Expr res" where
  "ParseFilter flt = bindE (Tokenize flt) Parse"

lemma Peek_simps [simp]: "Peek (t # ts) = Inr t" "Peek [] = Inl UndefinedBehaviour"
  by (simp_all add: Peek_def)

lemma Match_Cons [simp]:
  "Match ty (t # ts) = (if tok_type t = ty then Inr (True, ts) else Inr (False, t # ts))"
  by (simp add: Match_def)

lemma Expect_Cons [simp]:
  "Expect ty w (t # ts) = (if tok_type t = ty then Inr ts
      else Inl (ODataParseException (msg_expected w (tok_text t))))"
  by (simp add: Expect_def)

section \<open>The parser is total on tokenizer output\<close>

text \<open>
  \<open>parse_ok k ts res\<close>: the result is an \<open>ODataParseException\<close>, or what is left is a closed token
  list shorter than \<open>ts\<close> by at least \<open>k\<close> tokens.
\<close>

definition parse_ok :: "nat \<Rightarrow> Token list \<Rightarrow> 'a parse_result \<Rightarrow> bool" where
  "parse_ok k ts res =
     (case res of
        Inl e \<Rightarrow> (\<exists>m. e = ODataParseException m)
      | Inr (x, r) \<Rightarrow> closed_tokens r \<and> length r + k \<le> length ts)"

lemma parse_ok_simps [simp]:
  "parse_ok k ts (Inl (ODataParseException m))"
  "parse_ok k ts (Inr (x, r)) \<longleftrightarrow> closed_tokens r \<and> length r + k \<le> length ts"
  by (simp_all add: parse_ok_def)

lemma parse_ok_bind:
  assumes "parse_ok k us m"
    and "\<And>x r. m = Inr (x, r) \<Longrightarrow> closed_tokens r \<Longrightarrow> length r + k \<le> length us \<Longrightarrow> parse_ok j ts (f (x, r))"
  shows "parse_ok j ts (bindE m f)"
  using assms by (cases m) (auto simp: parse_ok_def split: sum.splits)

lemma parse_ok_mono:
  "parse_ok k ts res \<Longrightarrow> j + length ts \<le> k + length us \<Longrightarrow> parse_ok j us res"
  by (auto simp: parse_ok_def split: sum.splits)

lemma closed_tokens_tl: "closed_tokens (t # r) \<Longrightarrow> tok_type t \<noteq> END \<Longrightarrow> closed_tokens r"
  by simp

lemma parse_ok_Match:
  assumes "closed_tokens ts" "ty \<noteq> END"
    and "\<And>t r. ts = t # r \<Longrightarrow> tok_type t = ty \<Longrightarrow> closed_tokens r \<Longrightarrow> parse_ok k us (f (True, r))"
    and "\<And>t r. ts = t # r \<Longrightarrow> tok_type t \<noteq> ty \<Longrightarrow> parse_ok k us (f (False, ts))"
  shows "parse_ok k us (bindE (Match ty ts) f)"
proof -
  obtain t r where ts: "ts = t # r" using closed_tokens_nonempty [OF assms(1)] by (cases ts) auto
  show ?thesis using assms by (auto simp: ts)
qed

lemma parse_ok_Expect:
  assumes "closed_tokens ts" "ty \<noteq> END"
    and "\<And>t r. ts = t # r \<Longrightarrow> closed_tokens r \<Longrightarrow> parse_ok k us (f r)"
  shows "parse_ok k us (bindE (Expect ty w ts) f)"
proof -
  obtain t r where ts: "ts = t # r" using closed_tokens_nonempty [OF assms(1)] by (cases ts) auto
  show ?thesis using assms by (auto simp: ts)
qed

lemma literal_of_not_END: "literal_of t = Some l \<Longrightarrow> tok_type t \<noteq> END"
  by (auto simp: literal_of_def)

lemma comparison_op_not_END: "comparison_op ty = Some op \<Longrightarrow> ty \<noteq> END"
  by (auto simp: comparison_op_def)

text \<open>The fuel each method needs on \<open>ts\<close>, by its depth in the grammar.\<close>

definition enough :: "nat \<Rightarrow> nat \<Rightarrow> Token list \<Rightarrow> bool" where
  "enough k n ts \<longleftrightarrow> 6 * length ts + k \<le> n"

definition parser_ok_at :: "nat \<Rightarrow> bool" where
  "parser_ok_at n \<longleftrightarrow>
     (\<forall>ts. closed_tokens ts \<longrightarrow>
        (enough 5 n ts \<longrightarrow> parse_ok 1 ts (ParseOr n ts)) \<and>
        (enough 5 n ts \<longrightarrow> (\<forall>left. parse_ok 0 ts (or_loop n left ts))) \<and>
        (enough 4 n ts \<longrightarrow> parse_ok 1 ts (ParseAnd n ts)) \<and>
        (enough 4 n ts \<longrightarrow> (\<forall>left. parse_ok 0 ts (and_loop n left ts))) \<and>
        (enough 3 n ts \<longrightarrow> parse_ok 1 ts (ParseNot n ts)) \<and>
        (enough 2 n ts \<longrightarrow> parse_ok 1 ts (ParseComparison n ts)) \<and>
        (enough 1 n ts \<longrightarrow> parse_ok 1 ts (ParsePrimary n ts)) \<and>
        (enough 6 n ts \<longrightarrow> parse_ok 1 ts (args_loop n ts)))"

lemma parser_ok_atD:
  assumes "parser_ok_at n" "closed_tokens ts"
  shows "enough 5 n ts \<Longrightarrow> parse_ok 1 ts (ParseOr n ts)"
    and "enough 5 n ts \<Longrightarrow> parse_ok 0 ts (or_loop n left ts)"
    and "enough 4 n ts \<Longrightarrow> parse_ok 1 ts (ParseAnd n ts)"
    and "enough 4 n ts \<Longrightarrow> parse_ok 0 ts (and_loop n left ts)"
    and "enough 3 n ts \<Longrightarrow> parse_ok 1 ts (ParseNot n ts)"
    and "enough 2 n ts \<Longrightarrow> parse_ok 1 ts (ParseComparison n ts)"
    and "enough 1 n ts \<Longrightarrow> parse_ok 1 ts (ParsePrimary n ts)"
    and "enough 6 n ts \<Longrightarrow> parse_ok 1 ts (args_loop n ts)"
  using assms unfolding parser_ok_at_def by blast+

lemma ParseOr_ok_step:
  assumes "parser_ok_at n" "closed_tokens ts" "enough 5 (Suc n) ts"
  shows "parse_ok 1 ts (ParseOr (Suc n) ts)"
  unfolding ParseOr.simps
  by (rule parse_ok_bind [OF parser_ok_atD(3) [OF assms(1,2)]])
     (use assms in \<open>auto simp: enough_def intro!: parse_ok_mono [OF parser_ok_atD(2) [OF assms(1)]]\<close>)

lemma or_loop_ok_step:
  assumes "parser_ok_at n" "closed_tokens ts" "enough 5 (Suc n) ts"
  shows "parse_ok 0 ts (or_loop (Suc n) left ts)"
  unfolding or_loop.simps
proof (rule parse_ok_Match [OF assms(2)], goal_cases)
  case (2 t r)
  then show ?case
    using assms
    by (auto simp: enough_def intro!: parse_ok_bind [OF parser_ok_atD(3) [OF assms(1)]]
        parse_ok_mono [OF parser_ok_atD(2) [OF assms(1)]])
qed (use assms in auto)

lemma ParseAnd_ok_step:
  assumes "parser_ok_at n" "closed_tokens ts" "enough 4 (Suc n) ts"
  shows "parse_ok 1 ts (ParseAnd (Suc n) ts)"
  unfolding ParseAnd.simps
  by (rule parse_ok_bind [OF parser_ok_atD(5) [OF assms(1,2)]])
     (use assms in \<open>auto simp: enough_def intro!: parse_ok_mono [OF parser_ok_atD(4) [OF assms(1)]]\<close>)

lemma and_loop_ok_step:
  assumes "parser_ok_at n" "closed_tokens ts" "enough 4 (Suc n) ts"
  shows "parse_ok 0 ts (and_loop (Suc n) left ts)"
  unfolding and_loop.simps
proof (rule parse_ok_Match [OF assms(2)], goal_cases)
  case (2 t r)
  then show ?case
    using assms
    by (auto simp: enough_def intro!: parse_ok_bind [OF parser_ok_atD(5) [OF assms(1)]]
        parse_ok_mono [OF parser_ok_atD(4) [OF assms(1)]])
qed (use assms in auto)

lemma ParseNot_ok_step:
  assumes "parser_ok_at n" "closed_tokens ts" "enough 3 (Suc n) ts"
  shows "parse_ok 1 ts (ParseNot (Suc n) ts)"
  unfolding ParseNot.simps
proof (rule parse_ok_Match [OF assms(2)], goal_cases)
  case (2 t r)
  then show ?case
    using assms by (auto simp: enough_def intro!: parse_ok_bind [OF parser_ok_atD(5) [OF assms(1)]])
next
  case (3 t r)
  then show ?case
    using assms parser_ok_atD(6) [OF assms(1,2)] by (simp add: enough_def)
qed auto

lemma ParseComparison_ok_step:
  assumes "parser_ok_at n" "closed_tokens ts" "enough 2 (Suc n) ts"
  shows "parse_ok 1 ts (ParseComparison (Suc n) ts)"
  unfolding ParseComparison.simps
proof (rule parse_ok_bind [OF parser_ok_atD(7) [OF assms(1,2)]], goal_cases)
  case 1
  then show ?case using assms by (simp add: enough_def)
next
  case (2 x r)
  then obtain t r' where r: "r = t # r'" using closed_tokens_nonempty by (cases r) auto
  show ?case
  proof (cases "comparison_op (tok_type t)")
    case None
    with 2 show ?thesis by (simp add: r)
  next
    case (Some op)
    with 2 have "closed_tokens r'" by (auto simp: r dest: comparison_op_not_END)
    moreover have "enough 1 n r'" using 2 assms(3) by (auto simp: r enough_def)
    ultimately have "parse_ok 1 r' (ParsePrimary n r')" by (rule parser_ok_atD(7) [OF assms(1)])
    then show ?thesis using 2 Some by (auto simp: r intro!: parse_ok_bind)
  qed
qed

lemma ParsePrimary_ok_step:
  assumes "parser_ok_at n" "closed_tokens ts" "enough 1 (Suc n) ts"
  shows "parse_ok 1 ts (ParsePrimary (Suc n) ts)"
proof -
  obtain t r where ts: "ts = t # r" using closed_tokens_nonempty [OF assms(2)] by (cases ts) auto
  consider (paren) "tok_type t = LPAREN" | (ident) "tok_type t = IDENTIFIER"
    | (other) "tok_type t \<noteq> LPAREN" "tok_type t \<noteq> IDENTIFIER" by blast
  then show ?thesis
  proof cases
    case paren
    then have "closed_tokens r" "enough 5 n r" using assms by (auto simp: ts enough_def)
    with paren show ?thesis
      by (auto simp: ts intro!: parse_ok_bind [OF parser_ok_atD(1) [OF assms(1)]] parse_ok_Expect)
  next
    case ident
    then have r: "closed_tokens r" using assms by (simp add: ts)
    then have r_tl: "closed_tokens (u # us)" if "r = u # us" for u us using that by simp
    have "parse_ok 1 ts (bindE (Match LPAREN r) (\<lambda>(b, r).
             if b then
               bindE (Match RPAREN r) (\<lambda>(b', r').
                 if b' then Inr (FunctionCallExpr (tok_text t) [], r')
                 else bindE (args_loop n r')
                        (\<lambda>(args, r''). Inr (FunctionCallExpr (tok_text t) args, r'')))
             else Inr (PropertyExpr (tok_text t), r)))"
      using assms
      by (auto simp: ts enough_def r r_tl intro!: parse_ok_Match
          parse_ok_bind [OF parser_ok_atD(8) [OF assms(1)]])
    then show ?thesis using ident by (simp add: ts)
  next
    case other
    then show ?thesis
      using assms(2) by (auto simp: ts split: option.split dest: literal_of_not_END)
  qed
qed

lemma args_loop_ok_step:
  assumes "parser_ok_at n" "closed_tokens ts" "enough 6 (Suc n) ts"
  shows "parse_ok 1 ts (args_loop (Suc n) ts)"
  unfolding args_loop.simps
proof (rule parse_ok_bind [OF parser_ok_atD(1) [OF assms(1,2)]], goal_cases)
  case 1
  then show ?case using assms by (simp add: enough_def)
next
  case (2 x r)
  then show ?case
    using assms
    by (auto simp: enough_def intro!: parse_ok_Match parse_ok_Expect
        parse_ok_bind [OF parser_ok_atD(8) [OF assms(1)]])
qed

lemma parser_ok_all: "parser_ok_at n"
proof (induction n)
  case 0
  then show ?case by (auto simp: parser_ok_at_def enough_def dest: closed_tokens_nonempty)
next
  case (Suc n)
  show ?case
    unfolding parser_ok_at_def
    using ParseOr_ok_step [OF Suc] or_loop_ok_step [OF Suc] ParseAnd_ok_step [OF Suc]
      and_loop_ok_step [OF Suc] ParseNot_ok_step [OF Suc] ParseComparison_ok_step [OF Suc]
      ParsePrimary_ok_step [OF Suc] args_loop_ok_step [OF Suc]
    by blast
qed

lemmas parser_ok = parser_ok_atD [OF parser_ok_all]

lemma Parse_ok: "closed_tokens ts \<Longrightarrow> Parse ts = Inl e \<Longrightarrow> \<exists>m. e = ODataParseException m"
proof -
  assume ts: "closed_tokens ts" and "Parse ts = Inl e"
  from parser_ok(1) [OF ts, of "parse_fuel ts"]
  have ok: "parse_ok 1 ts (ParseOr (parse_fuel ts) ts)" by (simp add: enough_def parse_fuel_def)
  obtain t r where "ts = t # r" using closed_tokens_nonempty [OF ts] by (cases ts) auto
  with ok \<open>Parse ts = Inl e\<close> show ?thesis
    by (auto simp: Parse_def bindE_Inl_iff parse_ok_def Peek_def
        split: if_splits sum.splits list.splits dest: closed_tokens_nonempty)
qed

end
