(* ===== verification/Filter_Printer.thy ===== *)
theory Filter_Printer
  imports Filter_Parser
begin

text \<open>
  The grammar of \<open>$filter\<close> as a printer: \<open>print_at k e\<close> writes the expression \<open>e\<close> as tokens for a
  place of level \<open>k\<close> (0 an \<open>or\<close> operand, 1 an \<open>and\<close> operand, 2 an operand of \<open>not\<close>, 3 a
  comparison, 4 an operand of a comparison), with parentheses exactly where the precedence of
  \<open>e\<close> is lower. This is the specification: \<open>or\<close> and \<open>and\<close> associate to the left, \<open>and\<close> binds
  tighter than \<open>or\<close>, \<open>not\<close> tighter than both, a comparison does not chain. The parser reads
  every printed expression back, whatever follows it.
\<close>

section \<open>The printer\<close>

fun literal_token :: "LiteralExpr \<Rightarrow> Token" where
  "literal_token (IntegerLit v) = (mk_token INTEGER (to_string v) 1)\<lparr>int_value := v\<rparr>"
| "literal_token (FloatLit d) = (mk_token FLOAT (to_string_double d) 1)\<lparr>float_value := d\<rparr>"
| "literal_token (StringLit s) = mk_token STRING s 1"
| "literal_token (BooleanLit b) = mk_token BOOLEAN (if b then ''true'' else ''false'') 1"
| "literal_token NullLit = mk_token NULL_VAL ''null'' 1"

fun op_token :: "BinaryOp \<Rightarrow> Token" where
  "op_token BinaryOp.EQ = mk_token TokenType.EQ ''eq'' 1"
| "op_token BinaryOp.NE = mk_token TokenType.NE ''ne'' 1"
| "op_token BinaryOp.GT = mk_token TokenType.GT ''gt'' 1"
| "op_token BinaryOp.GE = mk_token TokenType.GE ''ge'' 1"
| "op_token BinaryOp.LT = mk_token TokenType.LT ''lt'' 1"
| "op_token BinaryOp.LE = mk_token TokenType.LE ''le'' 1"
| "op_token BinaryOp.AND = mk_token TokenType.AND ''and'' 1"
| "op_token BinaryOp.OR = mk_token TokenType.OR ''or'' 1"

definition lparen :: Token where "lparen = mk_token LPAREN ''('' 1"

definition rparen :: Token where "rparen = mk_token RPAREN '')'' 1"

definition comma :: Token where "comma = mk_token COMMA '','' 1"

definition end_token :: Token where "end_token = mk_token END [] 1"

definition op_prec :: "BinaryOp \<Rightarrow> nat" where
  "op_prec op = (if op = BinaryOp.OR then 0 else if op = BinaryOp.AND then 1 else 3)"

fun prec :: "Expr \<Rightarrow> nat" where
  "prec (BinaryExpr op _ _) = op_prec op"
| "prec (UnaryExpr _ _) = 2"
| "prec _ = 4"

definition wrap :: "nat \<Rightarrow> Expr \<Rightarrow> Token list \<Rightarrow> Token list" where
  "wrap k e ts = (if prec e < k then lparen # ts @ [rparen] else ts)"

definition left_level :: "BinaryOp \<Rightarrow> nat" where
  "left_level op = (if op = BinaryOp.OR then 0 else if op = BinaryOp.AND then 1 else 4)"

definition right_level :: "BinaryOp \<Rightarrow> nat" where
  "right_level op = (if op = BinaryOp.OR then 1 else if op = BinaryOp.AND then 2 else 4)"

fun print_body :: "Expr \<Rightarrow> Token list" where
  "print_body (PropertyExpr n) = [mk_token IDENTIFIER n 1]"
| "print_body (Literal l) = [literal_token l]"
| "print_body (UnaryExpr op e) = mk_token TokenType.NOT ''not'' 1 # wrap 2 e (print_body e)"
| "print_body (BinaryExpr op l r) =
     wrap (left_level op) l (print_body l) @ op_token op # wrap (right_level op) r (print_body r)"
| "print_body (FunctionCallExpr n args) =
     mk_token IDENTIFIER n 1 # lparen # join_with [comma] (map print_body args) @ [rparen]"

definition print_at :: "nat \<Rightarrow> Expr \<Rightarrow> Token list" where
  "print_at k e = wrap k e (print_body e)"

definition print_filter :: "Expr \<Rightarrow> Token list" where
  "print_filter e = print_at 0 e @ [end_token]"

lemma print_at_low [simp]: "k \<le> prec e \<Longrightarrow> print_at k e = print_body e"
  by (simp add: print_at_def wrap_def)

lemma print_at_high [simp]: "prec e < k \<Longrightarrow> print_at k e = lparen # print_body e @ [rparen]"
  by (simp add: print_at_def wrap_def)

lemma print_body_nonempty [simp]: "print_body e \<noteq> []"
  by (cases e) auto

lemma print_at_nonempty [simp]: "print_at k e \<noteq> []"
  by (simp add: print_at_def wrap_def)

lemma token_types [simp]:
  "tok_type lparen = LPAREN" "tok_type rparen = RPAREN" "tok_type comma = COMMA"
  "tok_type end_token = END"
  by (simp_all add: lparen_def rparen_def comma_def end_token_def)

lemma literal_of_token [simp]: "literal_of (literal_token l) = Some l"
  by (cases l) (auto simp: literal_of_def)

lemma literal_token_type [simp]:
  "tok_type (literal_token l) \<in> {INTEGER, FLOAT, STRING, BOOLEAN, NULL_VAL}"
  by (cases l) auto

lemma comparison_op_token [simp]:
  "op \<noteq> BinaryOp.AND \<Longrightarrow> op \<noteq> BinaryOp.OR \<Longrightarrow> comparison_op (tok_type (op_token op)) = Some op"
  by (cases op) (auto simp: comparison_op_def)

lemma op_token_types [simp]:
  "tok_type (op_token op) \<noteq> LPAREN" "tok_type (op_token op) \<noteq> END"
  "tok_type (op_token op) = TokenType.OR \<longleftrightarrow> op = BinaryOp.OR"
  "tok_type (op_token op) = TokenType.AND \<longleftrightarrow> op = BinaryOp.AND"
  "op = BinaryOp.AND \<or> op = BinaryOp.OR \<Longrightarrow> comparison_op (tok_type (op_token op)) = None"
  by (cases op; simp add: comparison_op_def)+

lemma comparison_op_simps [simp]:
  "comparison_op TokenType.AND = None" "comparison_op TokenType.OR = None"
  "comparison_op RPAREN = None" "comparison_op COMMA = None" "comparison_op END = None"
  by (simp_all add: comparison_op_def)

section \<open>What may follow an expression\<close>

definition follow4 :: "Token list \<Rightarrow> bool" where
  "follow4 r \<longleftrightarrow> r \<noteq> [] \<and> tok_type (hd r) \<noteq> LPAREN"

definition follow3 :: "Token list \<Rightarrow> bool" where
  "follow3 r \<longleftrightarrow> follow4 r \<and> comparison_op (tok_type (hd r)) = None"

definition follow0 :: "Token list \<Rightarrow> bool" where
  "follow0 r \<longleftrightarrow> follow3 r \<and> tok_type (hd r) \<noteq> TokenType.AND"

lemmas follow_defs = follow0_def follow3_def follow4_def

definition reads_primary :: "Expr \<Rightarrow> bool" where
  "reads_primary e \<longleftrightarrow>
     (\<forall>n rest. follow4 rest \<longrightarrow> enough 1 n (print_at 4 e @ rest) \<longrightarrow>
        ParsePrimary n (print_at 4 e @ rest) = Inr (e, rest))"

definition reads_comparison :: "Expr \<Rightarrow> bool" where
  "reads_comparison e \<longleftrightarrow>
     (\<forall>n rest. follow3 rest \<longrightarrow> enough 2 n (print_at 3 e @ rest) \<longrightarrow>
        ParseComparison n (print_at 3 e @ rest) = Inr (e, rest))"

definition reads_not :: "Expr \<Rightarrow> bool" where
  "reads_not e \<longleftrightarrow>
     (\<forall>n rest. follow3 rest \<longrightarrow> enough 3 n (print_at 2 e @ rest) \<longrightarrow>
        ParseNot n (print_at 2 e @ rest) = Inr (e, rest))"

definition reads_and :: "Expr \<Rightarrow> bool" where
  "reads_and e \<longleftrightarrow>
     (\<forall>n rest. follow3 rest \<longrightarrow> enough 4 n (print_at 1 e @ rest) \<longrightarrow>
        (\<exists>m. enough 4 m rest \<and> ParseAnd n (print_at 1 e @ rest) = and_loop m e rest))"

definition reads_or :: "Expr \<Rightarrow> bool" where
  "reads_or e \<longleftrightarrow>
     (\<forall>n rest. follow0 rest \<longrightarrow> enough 5 n (print_at 0 e @ rest) \<longrightarrow>
        (\<exists>m. enough 5 m rest \<and> ParseOr n (print_at 0 e @ rest) = or_loop m e rest))"

text \<open>The loops stop in front of a token that does not continue them.\<close>

lemma and_loop_stop:
  "enough 4 n r \<Longrightarrow> r \<noteq> [] \<Longrightarrow> tok_type (hd r) \<noteq> TokenType.AND \<Longrightarrow> and_loop n e r = Inr (e, r)"
  by (cases n; cases r) (auto simp: enough_def)

lemma or_loop_stop:
  "enough 5 n r \<Longrightarrow> r \<noteq> [] \<Longrightarrow> tok_type (hd r) \<noteq> TokenType.OR \<Longrightarrow> or_loop n e r = Inr (e, r)"
  by (cases n; cases r) (auto simp: enough_def)

lemma enough_Suc: "enough (Suc k) n ts \<Longrightarrow> \<exists>m. n = Suc m \<and> enough k m ts"
  by (cases n) (auto simp: enough_def)

lemma enough_append:
  "enough k n (us @ rest) \<Longrightarrow> us \<noteq> [] \<Longrightarrow> j \<le> k + 6 \<Longrightarrow> enough j n rest"
  by (cases us) (auto simp: enough_def)

section \<open>From one level to the next\<close>

definition starts_primary :: "Token list \<Rightarrow> bool" where
  "starts_primary ts \<longleftrightarrow> ts \<noteq> [] \<and>
     tok_type (hd ts) \<in> {INTEGER, FLOAT, STRING, BOOLEAN, NULL_VAL, IDENTIFIER, LPAREN}"

lemma starts_primary_print4: "starts_primary (print_at 4 e @ rest)"
proof (cases "prec e < 4")
  case False
  then show ?thesis
  proof (cases e)
    case (Literal l)
    then show ?thesis using literal_token_type [of l] by (auto simp: starts_primary_def)
  next
    case (BinaryExpr op l r)
    with False show ?thesis by (cases op) (simp_all add: op_prec_def)
  qed (auto simp: starts_primary_def)
qed (simp add: starts_primary_def)

lemma starts_primary_print3: "prec e \<noteq> 2 \<Longrightarrow> starts_primary (print_at 2 e @ rest)"
proof (cases "prec e < 3")
  case True
  moreover assume "prec e \<noteq> 2"
  ultimately show ?thesis by (simp add: starts_primary_def)
next
  case False
  then show ?thesis
  proof (cases e)
    case (BinaryExpr op l r)
    with False have "left_level op = 4" by (auto simp: op_prec_def left_level_def split: if_splits)
    then have "print_at 2 e = print_at 4 l @ op_token op # print_at (right_level op) r"
      using BinaryExpr False by (simp add: print_at_def wrap_def)
    then show ?thesis using starts_primary_print4 [of l] by simp
  next
    case (Literal l)
    then show ?thesis using literal_token_type [of l] by (auto simp: starts_primary_def)
  qed (auto simp: starts_primary_def)
qed

lemma prec_cases: "prec e = 0 \<or> prec e = 1 \<or> prec e = 2 \<or> prec e = 3 \<or> prec e = 4"
  by (cases e) (auto simp: op_prec_def)

lemma print_at_Suc: "prec e \<noteq> k \<Longrightarrow> print_at (Suc k) e = print_at k e"
  by (simp add: print_at_def wrap_def)

lemma lift_primary:
  assumes "reads_primary e" "prec e \<noteq> 3"
  shows "reads_comparison e"
  unfolding reads_comparison_def
proof (intro allI impI)
  fix n rest
  assume f: "follow3 rest" and n: "enough 2 n (print_at 3 e @ rest)"
  from n obtain m where m: "n = Suc m" "enough 1 m (print_at 3 e @ rest)"
    using enough_Suc [of 1 n] by (auto simp: numeral_2_eq_2)
  have "print_at 3 e = print_at 4 e" using print_at_Suc [of e 3] assms(2) by simp
  with assms(1) f m show "ParseComparison n (print_at 3 e @ rest) = Inr (e, rest)"
    by (cases rest) (auto simp: reads_primary_def follow_defs)
qed

lemma lift_comparison:
  assumes "reads_comparison e" "prec e \<noteq> 2"
  shows "reads_not e"
  unfolding reads_not_def
proof (intro allI impI)
  fix n rest
  assume f: "follow3 rest" and n: "enough 3 n (print_at 2 e @ rest)"
  from n obtain m where m: "n = Suc m" "enough 2 m (print_at 2 e @ rest)"
    using enough_Suc [of 2 n] by (auto simp: numeral_3_eq_3 numeral_2_eq_2)
  have eq: "print_at 2 e = print_at 3 e" using print_at_Suc [of e 2] assms(2) by simp
  obtain t r where ts: "print_at 2 e @ rest = t # r" "tok_type t \<noteq> TokenType.NOT"
    using starts_primary_print3 [OF assms(2), of rest]
    by (cases "print_at 2 e @ rest") (auto simp: starts_primary_def)
  have "ParseNot n (print_at 2 e @ rest) = ParseComparison m (print_at 2 e @ rest)"
    using ts by (simp add: m)
  also have "\<dots> = Inr (e, rest)"
    using assms(1) f m(2) unfolding reads_comparison_def eq by blast
  finally show "ParseNot n (print_at 2 e @ rest) = Inr (e, rest)" .
qed

lemma lift_not:
  assumes "reads_not e" "prec e \<noteq> 1"
  shows "reads_and e"
  unfolding reads_and_def
proof (intro allI impI)
  fix n rest
  assume f: "follow3 rest" and n: "enough 4 n (print_at 1 e @ rest)"
  from n obtain m where m: "n = Suc m" "enough 3 m (print_at 1 e @ rest)"
    using enough_Suc [of 3 n] by (auto simp: eval_nat_numeral)
  have eq: "print_at 1 e = print_at 2 e" using print_at_Suc [of e 1] assms(2) by (simp add: numeral_2_eq_2)
  from assms(1) f m(2) have "ParseNot m (print_at 1 e @ rest) = Inr (e, rest)"
    unfolding reads_not_def eq by blast
  moreover have "enough 4 m rest" using enough_append [OF m(2)] by simp
  ultimately show "\<exists>m. enough 4 m rest \<and> ParseAnd n (print_at 1 e @ rest) = and_loop m e rest"
    using m(1) by auto
qed

lemma lift_and:
  assumes "reads_and e" "prec e \<noteq> 0"
  shows "reads_or e"
  unfolding reads_or_def
proof (intro allI impI)
  fix n rest
  assume f: "follow0 rest" and n: "enough 5 n (print_at 0 e @ rest)"
  from n obtain m where m: "n = Suc m" "enough 4 m (print_at 0 e @ rest)"
    using enough_Suc [of 4 n] by (auto simp: eval_nat_numeral)
  have eq: "print_at 0 e = print_at 1 e" using print_at_Suc [of e 0] assms(2) by simp
  from f have "follow3 rest" by (simp add: follow0_def)
  with assms(1) m(2) obtain k where k: "enough 4 k rest"
    "ParseAnd m (print_at 0 e @ rest) = and_loop k e rest"
    unfolding reads_and_def eq by blast
  with f have "ParseAnd m (print_at 0 e @ rest) = Inr (e, rest)"
    using and_loop_stop [OF k(1)] by (simp add: follow_defs)
  moreover have "enough 5 m rest" using enough_append [OF m(2)] by simp
  ultimately show "\<exists>m. enough 5 m rest \<and> ParseOr n (print_at 0 e @ rest) = or_loop m e rest"
    using m(1) by auto
qed

lemma lift_or:
  assumes "reads_or e" "prec e \<noteq> 4"
  shows "reads_primary e"
  unfolding reads_primary_def
proof (intro allI impI)
  fix n rest
  assume f: "follow4 rest" and n: "enough 1 n (print_at 4 e @ rest)"
  from n obtain m where m: "n = Suc m" "enough 0 m (print_at 4 e @ rest)"
    using enough_Suc [of 0 n] by auto
  have lt: "prec e < 4" using prec_cases [of e] assms(2) by auto
  then have pr: "print_at 4 e @ rest = lparen # print_body e @ (rparen # rest)" by simp
  have "follow0 (rparen # rest)" by (simp add: follow_defs)
  moreover have "enough 5 m (print_at 0 e @ (rparen # rest))"
    using m(2) lt by (simp add: enough_def)
  ultimately obtain k where k: "enough 5 k (rparen # rest)"
    "ParseOr m (print_at 0 e @ (rparen # rest)) = or_loop k e (rparen # rest)"
    using assms(1) unfolding reads_or_def by blast
  then have "ParseOr m (print_body e @ rparen # rest) = Inr (e, rparen # rest)"
    using or_loop_stop [OF k(1)] by simp
  then show "ParsePrimary n (print_at 4 e @ rest) = Inr (e, rest)"
    by (simp add: pr m(1))
qed


section \<open>Each construct at its own level\<close>

lemma print_body_head:
  "tok_type (hd (print_body e @ rest)) \<noteq> RPAREN" "tok_type (hd (print_body e @ rest)) \<noteq> END"
proof -
  have "tok_type (hd (print_body e @ rest)) = TokenType.NOT \<or> starts_primary (print_body e @ rest)" for rest
  proof (induction e arbitrary: rest)
    case (BinaryExpr op l r)
    then show ?case by (auto simp: wrap_def starts_primary_def)
  next
    case (Literal l)
    then show ?case using literal_token_type [of l] by (auto simp: starts_primary_def)
  qed (auto simp: starts_primary_def)
  then show "tok_type (hd (print_body e @ rest)) \<noteq> RPAREN" "tok_type (hd (print_body e @ rest)) \<noteq> END"
    by (force simp: starts_primary_def)+
qed

lemma reads_Literal: "reads_primary (Literal l)"
  unfolding reads_primary_def
proof (intro allI impI)
  fix n rest
  assume "enough 1 n (print_at 4 (Literal l) @ rest)"
  then obtain m where "n = Suc m" using enough_Suc [of 0 n] by auto
  then show "ParsePrimary n (print_at 4 (Literal l) @ rest) = Inr (Literal l, rest)"
    using literal_token_type [of l] by auto
qed

lemma reads_Property: "reads_primary (PropertyExpr p)"
  unfolding reads_primary_def
proof (intro allI impI)
  fix n rest
  assume f: "follow4 rest" and "enough 1 n (print_at 4 (PropertyExpr p) @ rest)"
  then obtain m where "n = Suc m" using enough_Suc [of 0 n] by auto
  with f show "ParsePrimary n (print_at 4 (PropertyExpr p) @ rest) = Inr (PropertyExpr p, rest)"
    by (cases rest) (auto simp: follow4_def)
qed

lemma reads_or_stop:
  assumes "reads_or e" "follow0 rest" "tok_type (hd rest) \<noteq> TokenType.OR"
    "enough 5 n (print_body e @ rest)"
  shows "ParseOr n (print_body e @ rest) = Inr (e, rest)"
proof -
  from assms obtain k where "enough 5 k rest" "ParseOr n (print_body e @ rest) = or_loop k e rest"
    unfolding reads_or_def by (auto simp: print_at_low)
  with assms show ?thesis using or_loop_stop [of k rest e] by (simp add: follow_defs)
qed

lemma args_loop_reads:
  assumes "args \<noteq> []" "\<And>a. a \<in> set args \<Longrightarrow> reads_or a"
    "enough 6 n (join_with [comma] (map print_body args) @ rparen # rest)"
  shows "args_loop n (join_with [comma] (map print_body args) @ rparen # rest) = Inr (args, rest)"
  using assms
proof (induction args arbitrary: n)
  case (Cons a args)
  from Cons.prems(3) obtain m where m: "n = Suc m" by (cases n) (auto simp: enough_def)
  show ?case
  proof (cases "args = []")
    case True
    have "ParseOr m (print_body a @ rparen # rest) = Inr (a, rparen # rest)"
      using Cons.prems True by (intro reads_or_stop) (auto simp: follow_defs enough_def m)
    with True show ?thesis by (simp add: m)
  next
    case False
    define us where "us = join_with [comma] (map print_body args) @ rparen # rest"
    have eq: "join_with [comma] (map print_body (a # args)) @ rparen # rest
        = print_body a @ comma # us"
      using False by (simp add: us_def)
    have "ParseOr m (print_body a @ comma # us) = Inr (a, comma # us)"
      using Cons.prems(2) Cons.prems(3) [unfolded eq]
      by (intro reads_or_stop) (auto simp: follow_defs enough_def m)
    moreover have "args_loop m us = Inr (args, rest)"
      unfolding us_def using Cons.prems False
      by (intro Cons.IH) (auto simp: enough_def m)
    ultimately have "args_loop n (print_body a @ comma # us) = Inr (a # args, rest)" by (simp add: m)
    then show ?thesis by (simp only: eq)
  qed
qed simp

lemma reads_Call:
  assumes "\<And>a. a \<in> set args \<Longrightarrow> reads_or a"
  shows "reads_primary (FunctionCallExpr f args)"
  unfolding reads_primary_def
proof (intro allI impI)
  fix n rest
  assume n: "enough 1 n (print_at 4 (FunctionCallExpr f args) @ rest)"
  then obtain m where m: "n = Suc m" using enough_Suc [of 0 n] by auto
  define us where "us = join_with [comma] (map print_body args) @ rparen # rest"
  have body: "print_at 4 (FunctionCallExpr f args) @ rest = mk_token IDENTIFIER f 1 # lparen # us"
    by (simp add: us_def)
  show "ParsePrimary n (print_at 4 (FunctionCallExpr f args) @ rest)
          = Inr (FunctionCallExpr f args, rest)"
  proof (cases args)
    case Nil
    then show ?thesis by (simp add: m)
  next
    case (Cons a args')
    have "us \<noteq> []" "tok_type (hd us) \<noteq> RPAREN"
      using Cons print_body_head(1) [of a]
      by (cases args'; simp add: us_def)+
    then have "Match RPAREN us = Inr (False, us)" by (cases us) auto
    moreover have "args_loop m us = Inr (args, rest)"
      unfolding us_def using Cons n assms
      by (intro args_loop_reads) (auto simp: enough_def m)
    ultimately have "ParsePrimary n (mk_token IDENTIFIER f 1 # lparen # us)
        = Inr (FunctionCallExpr f args, rest)"
      by (simp add: m)
    then show ?thesis by (simp only: body)
  qed
qed

lemma reads_Comparison:
  assumes "op \<noteq> BinaryOp.AND" "op \<noteq> BinaryOp.OR" "reads_primary l" "reads_primary r"
  shows "reads_comparison (BinaryExpr op l r)"
  unfolding reads_comparison_def
proof (intro allI impI)
  fix n rest
  assume f: "follow3 rest" and n: "enough 2 n (print_at 3 (BinaryExpr op l r) @ rest)"
  then obtain m where m: "n = Suc m" using enough_Suc [of 1 n] by (auto simp: numeral_2_eq_2)
  have body: "print_at 3 (BinaryExpr op l r) @ rest
      = print_at 4 l @ (op_token op # print_at 4 r @ rest)"
    using assms(1,2) by (simp add: op_prec_def left_level_def right_level_def print_at_def wrap_def)
  have "ParsePrimary m (print_at 4 l @ (op_token op # print_at 4 r @ rest))
      = Inr (l, op_token op # print_at 4 r @ rest)"
    using assms(3) n unfolding reads_primary_def by (auto simp: follow4_def enough_def m body)
  moreover have "ParsePrimary m (print_at 4 r @ rest) = Inr (r, rest)"
    using assms(4) n f unfolding reads_primary_def
    by (auto simp: follow3_def enough_def m body)
  ultimately show "ParseComparison n (print_at 3 (BinaryExpr op l r) @ rest)
      = Inr (BinaryExpr op l r, rest)"
    using assms(1,2) by (simp add: body m)
qed

lemma reads_Not:
  assumes "reads_not e"
  shows "reads_not (UnaryExpr UnaryOp.NOT e)"
  unfolding reads_not_def
proof (intro allI impI)
  fix n rest
  assume f: "follow3 rest" and n: "enough 3 n (print_at 2 (UnaryExpr UnaryOp.NOT e) @ rest)"
  then obtain m where m: "n = Suc m" using enough_Suc [of 2 n] by (auto simp: eval_nat_numeral)
  have body: "print_at 2 (UnaryExpr UnaryOp.NOT e) @ rest
      = mk_token TokenType.NOT ''not'' 1 # print_at 2 e @ rest"
    by (simp add: print_at_def wrap_def)
  have "ParseNot m (print_at 2 e @ rest) = Inr (e, rest)"
    using assms f n [unfolded body] unfolding reads_not_def by (auto simp: enough_def m)
  then have "ParseNot n (mk_token TokenType.NOT ''not'' 1 # print_at 2 e @ rest)
      = Inr (UnaryExpr UnaryOp.NOT e, rest)"
    by (simp add: m)
  then show "ParseNot n (print_at 2 (UnaryExpr UnaryOp.NOT e) @ rest)
      = Inr (UnaryExpr UnaryOp.NOT e, rest)"
    by (simp only: body)
qed

lemma reads_And:
  assumes "reads_and l" "reads_not r"
  shows "reads_and (BinaryExpr BinaryOp.AND l r)"
  unfolding reads_and_def
proof (intro allI impI)
  fix n rest
  let ?t = "op_token BinaryOp.AND # print_at 2 r @ rest"
  assume f: "follow3 rest" and n: "enough 4 n (print_at 1 (BinaryExpr BinaryOp.AND l r) @ rest)"
  have body: "print_at 1 (BinaryExpr BinaryOp.AND l r) @ rest = print_at 1 l @ ?t"
    by (simp add: op_prec_def left_level_def right_level_def print_at_def wrap_def)
  have "follow3 ?t" by (simp add: follow_defs)
  with assms(1) n obtain m where m: "enough 4 m ?t" "ParseAnd n (print_at 1 l @ ?t) = and_loop m l ?t"
    unfolding reads_and_def body by blast
  obtain k where k: "m = Suc k" "enough 4 k rest" "enough 3 k (print_at 2 r @ rest)"
    using m(1) by (cases m) (auto simp: enough_def)
  have "ParseNot k (print_at 2 r @ rest) = Inr (r, rest)"
    using assms(2) f k unfolding reads_not_def by blast
  then have "and_loop m l ?t = and_loop k (BinaryExpr BinaryOp.AND l r) rest" by (simp add: k)
  with k(2) m(2) show "\<exists>m. enough 4 m rest \<and>
      ParseAnd n (print_at 1 (BinaryExpr BinaryOp.AND l r) @ rest)
        = and_loop m (BinaryExpr BinaryOp.AND l r) rest"
    unfolding body by auto
qed

lemma reads_Or:
  assumes "reads_or l" "reads_and r"
  shows "reads_or (BinaryExpr BinaryOp.OR l r)"
  unfolding reads_or_def
proof (intro allI impI)
  fix n rest
  let ?t = "op_token BinaryOp.OR # print_at 1 r @ rest"
  assume f: "follow0 rest" and n: "enough 5 n (print_at 0 (BinaryExpr BinaryOp.OR l r) @ rest)"
  have body: "print_at 0 (BinaryExpr BinaryOp.OR l r) @ rest = print_at 0 l @ ?t"
    by (simp add: op_prec_def left_level_def right_level_def print_at_def wrap_def)
  have "follow0 ?t" by (simp add: follow_defs)
  with assms(1) n obtain m where m: "enough 5 m ?t" "ParseOr n (print_at 0 l @ ?t) = or_loop m l ?t"
    unfolding reads_or_def body by blast
  obtain k where k: "m = Suc k" "enough 5 k rest" "enough 4 k (print_at 1 r @ rest)"
    using m(1) by (cases m) (auto simp: enough_def)
  from f have "follow3 rest" by (simp add: follow0_def)
  with assms(2) k(3) obtain j where j: "enough 4 j rest"
    "ParseAnd k (print_at 1 r @ rest) = and_loop j r rest"
    unfolding reads_and_def by blast
  with f have "ParseAnd k (print_at 1 r @ rest) = Inr (r, rest)"
    using and_loop_stop [OF j(1)] by (simp add: follow_defs)
  then have "or_loop m l ?t = or_loop k (BinaryExpr BinaryOp.OR l r) rest" by (simp add: k)
  with k(2) m(2) show "\<exists>m. enough 5 m rest \<and>
      ParseOr n (print_at 0 (BinaryExpr BinaryOp.OR l r) @ rest)
        = or_loop m (BinaryExpr BinaryOp.OR l r) rest"
    unfolding body by auto
qed

section \<open>Parsing what was printed\<close>

definition reads_all :: "Expr \<Rightarrow> bool" where
  "reads_all e \<longleftrightarrow>
     reads_primary e \<and> reads_comparison e \<and> reads_not e \<and> reads_and e \<and> reads_or e"

lemma reads_allI:
  assumes "prec e = 4 \<Longrightarrow> reads_primary e" "prec e = 3 \<Longrightarrow> reads_comparison e"
    "prec e = 2 \<Longrightarrow> reads_not e" "prec e = 1 \<Longrightarrow> reads_and e" "prec e = 0 \<Longrightarrow> reads_or e"
  shows "reads_all e"
proof -
  have "prec e \<noteq> 3 \<Longrightarrow> reads_primary e \<Longrightarrow> reads_comparison e"
    "prec e \<noteq> 2 \<Longrightarrow> reads_comparison e \<Longrightarrow> reads_not e"
    "prec e \<noteq> 1 \<Longrightarrow> reads_not e \<Longrightarrow> reads_and e"
    "prec e \<noteq> 0 \<Longrightarrow> reads_and e \<Longrightarrow> reads_or e"
    "prec e \<noteq> 4 \<Longrightarrow> reads_or e \<Longrightarrow> reads_primary e"
    by (blast intro: lift_primary lift_comparison lift_not lift_and lift_or)+
  with assms prec_cases [of e] show ?thesis unfolding reads_all_def by force
qed

lemma reads_all: "reads_all e"
proof (induction e)
  case (BinaryExpr op l r)
  then show ?case
    by (intro reads_allI)
       (auto simp: reads_all_def op_prec_def split: if_splits
         intro: reads_Comparison reads_And reads_Or)
next
  case (UnaryExpr op e)
  then have "reads_not (UnaryExpr op e)" by (cases op) (auto simp: reads_all_def intro: reads_Not)
  then show ?case by (intro reads_allI) simp_all
next
  case (Literal l)
  then show ?case by (intro reads_allI) (simp_all add: reads_Literal)
next
  case (PropertyExpr p)
  then show ?case by (intro reads_allI) (simp_all add: reads_Property)
next
  case (FunctionCallExpr f args)
  then have "reads_primary (FunctionCallExpr f args)" by (intro reads_Call) (simp add: reads_all_def)
  then show ?case by (intro reads_allI) simp_all
qed

lemma Parse_print: "Parse (print_filter e) = Inr e"
proof -
  have "ParseOr (parse_fuel (print_filter e)) (print_body e @ [end_token]) = Inr (e, [end_token])"
    using reads_all [of e]
    by (intro reads_or_stop) (auto simp: reads_all_def follow_defs enough_def parse_fuel_def print_filter_def)
  moreover have "print_filter e = print_body e @ [end_token]" by (simp add: print_filter_def)
  moreover obtain t ts where "print_body e @ [end_token] = t # ts" "tok_type t \<noteq> END"
    using print_body_head(2) [of e "[end_token]"] by (cases "print_body e @ [end_token]") auto
  ultimately show ?thesis by (simp add: Parse_def)
qed

end
