(* ===== verification/Filter_Text.thy ===== *)
theory Filter_Text
  imports Filter_Printer
begin

text \<open>
  From an expression to the text of a \<open>$filter\<close> option and back through the tokenizer and the parser.
  The text is the printed tokens, each followed by a space; strings are quoted with their quotes
  doubled.
\<close>

definition token_text :: "Token \<Rightarrow> string" where
  "token_text t =
     (if tok_type t = END then []
      else if tok_type t = STRING then QuoteStringLiteral (tok_text t) @ '' ''
      else tok_text t @ '' '')"

definition filter_text :: "Expr \<Rightarrow> string" where
  "filter_text e = concat (map token_text (print_filter e))"

section \<open>Which expressions have a text\<close>

definition ident_name :: "string \<Rightarrow> bool" where
  "ident_name n \<longleftrightarrow> n \<noteq> [] \<and> IsIdentStart (hd n) \<and> list_all IsIdentChar n \<and> KeywordType (ToLower n) = IDENTIFIER"

text \<open>A 64-bit integer, or a double that survives being printed.\<close>

fun literal_has_text :: "LiteralExpr \<Rightarrow> bool" where
  "literal_has_text (IntegerLit v) = int64_ok v"
| "literal_has_text (FloatLit d) = (is_finite d \<and> stod (to_string_double d) = Inr d)"
| "literal_has_text _ = True"

fun has_text :: "Expr \<Rightarrow> bool" where
  "has_text (PropertyExpr n) = ident_name n"
| "has_text (Literal l) = literal_has_text l"
| "has_text (UnaryExpr op e) = has_text e"
| "has_text (BinaryExpr op l r) = (has_text l \<and> has_text r)"
| "has_text (FunctionCallExpr n args) = (ident_name n \<and> list_all has_text args)"

section \<open>Each token is read back\<close>

definition read_back :: "Token \<Rightarrow> bool" where
  "read_back t \<longleftrightarrow>
     (\<forall>rest. tokenize_from 1 (token_text t @ rest) = bindE (tokenize_from 1 rest) (\<lambda>ts. Inr (t # ts)))"

lemma read_back_string: "read_back (mk_token STRING s 1)"
  by (simp add: read_back_def token_text_def tokenize_quoted quote_free_def)

lemma takeWhile_ident: "list_all IsIdentChar n \<Longrightarrow> takeWhile IsIdentChar (n @ CHR '' '' # rest) = n"
  "list_all IsIdentChar n \<Longrightarrow> dropWhile IsIdentChar (n @ CHR '' '' # rest) = CHR '' '' # rest"
  by (induction n) (simp_all add: IsIdentChar_def char_class)

lemma not_number_start: "IsIdentStart c \<Longrightarrow> \<not> starts_number (c # s)"
  by (auto simp: IsIdentStart_def starts_number_def char_class)

lemma ident_start_not_space:
  "IsIdentStart c \<Longrightarrow> c \<noteq> CHR '' '' \<and> c \<noteq> CHR 0x09 \<and> c \<noteq> CHR 0x0D \<and> c \<noteq> CHR 0x0A \<and> c \<noteq> CHR 0x27 \<and> c \<noteq> CHR 0x22"
  by (auto simp: IsIdentStart_def char_class)

lemma tokenize_word:
  assumes "n \<noteq> []" "IsIdentStart (hd n)" "list_all IsIdentChar n"
  shows "tokenize_from ln (n @ CHR '' '' # rest) = bindE (tokenize_from ln rest) (\<lambda>ts. Inr (word_token n ln # ts))"
proof -
  from assms(1) obtain c cs where n: "n = c # cs" by (cases n) auto
  with assms show ?thesis
    using takeWhile_ident [OF assms(3), of rest] ident_start_not_space [of c]
    by (simp add: tokenize_from.simps(2) not_number_start)
qed

lemma read_back_word:
  assumes "n \<noteq> []" "IsIdentStart (hd n)" "list_all IsIdentChar n" "word_token n 1 = t" "token_text t = n @ '' ''"
  shows "read_back t"
  using tokenize_word [OF assms(1-3), of 1] assms(4,5) by (simp add: read_back_def)

lemma read_back_identifier: "ident_name n \<Longrightarrow> read_back (mk_token IDENTIFIER n 1)"
  by (rule read_back_word [of n])
     (auto simp: ident_name_def word_token_def token_text_def mk_token_def)

lemma ToLower_lower: "list_all islower w \<Longrightarrow> ToLower w = w"
  by (induction w) (simp_all add: ToLower_def tolower_def char_class)

lemma islower_ident: "islower c \<Longrightarrow> IsIdentStart c" "islower c \<Longrightarrow> IsIdentChar c"
  by (simp_all add: IsIdentStart_def IsIdentChar_def isalpha_def isalnum_def)

lemma read_back_keyword:
  assumes "KeywordType w = k" "k \<noteq> IDENTIFIER" "k \<noteq> END" "k \<noteq> STRING" "k = NULL_VAL \<Longrightarrow> w = ''null''"
    and "w \<noteq> []" "list_all islower w"
  shows "read_back (mk_token k w 1)"
proof (rule read_back_word [of w])
  show "w \<noteq> []" "IsIdentStart (hd w)" "list_all IsIdentChar w"
    using assms(6,7) islower_ident by (auto simp: list_all_iff)
  show "word_token w 1 = mk_token k w 1"
    using assms(1,2,5) ToLower_lower [OF assms(7)] by (simp add: word_token_def Let_def)
  show "token_text (mk_token k w 1) = w @ '' ''"
    using assms(3,4) by (simp add: token_text_def mk_token_def)
qed

lemma keyword_types:
  "KeywordType ''eq'' = TokenType.EQ" "KeywordType ''ne'' = TokenType.NE" "KeywordType ''gt'' = TokenType.GT"
  "KeywordType ''ge'' = TokenType.GE" "KeywordType ''lt'' = TokenType.LT" "KeywordType ''le'' = TokenType.LE"
  "KeywordType ''and'' = TokenType.AND" "KeywordType ''or'' = TokenType.OR" "KeywordType ''not'' = TokenType.NOT"
  "KeywordType ''true'' = BOOLEAN" "KeywordType ''false'' = BOOLEAN" "KeywordType ''null'' = NULL_VAL"
  by (simp_all add: KeywordType_def)

lemma read_back_op: "read_back (op_token op)"
  by (cases op; simp only: op_token.simps; rule read_back_keyword; simp add: keyword_types char_class)

lemma read_back_words:
  "read_back (mk_token TokenType.NOT ''not'' 1)" "read_back (mk_token BOOLEAN ''true'' 1)"
  "read_back (mk_token BOOLEAN ''false'' 1)" "read_back (mk_token NULL_VAL ''null'' 1)"
  by (rule read_back_keyword; simp add: keyword_types char_class)+

lemma tokenize_mark:
  assumes "punctuation c = Some ty"
  shows "tokenize_from ln (c # rest) = bindE (tokenize_from ln rest) (\<lambda>ts. Inr (mk_token ty [c] ln # ts))"
proof -
  have "c \<in> {CHR ''('', CHR '')'', CHR '','', CHR '':''}"
    using assms by (auto simp: punctuation_def split: if_splits)
  then have "\<not> IsIdentStart c" "\<not> starts_number (c # rest)"
    "c \<noteq> CHR '' '' \<and> c \<noteq> CHR 0x09 \<and> c \<noteq> CHR 0x0D \<and> c \<noteq> CHR 0x0A \<and> c \<noteq> CHR 0x27 \<and> c \<noteq> CHR 0x22"
    by (auto simp: IsIdentStart_def starts_number_def char_class)
  with assms show ?thesis by (simp add: tokenize_from.simps(2))
qed

lemma read_back_mark: "punctuation c = Some ty \<Longrightarrow> read_back (mk_token ty [c] 1)"
  by (auto simp: read_back_def token_text_def mk_token_def tokenize_mark punctuation_def split: if_splits)

lemma read_back_marks: "read_back lparen" "read_back rparen" "read_back comma"
  unfolding lparen_def rparen_def comma_def
  by (rule read_back_mark; simp add: punctuation_def)+


section \<open>Numbers\<close>

lemma digits_then:
  assumes "list_all isdigit n" "\<not> isdigit c"
  shows "scan_digits (n @ c # rest) = (n, c # rest)"
  using assms by (induction n) (auto simp: scan_digits_def)

lemma tokenize_number:
  assumes "starts_number s" "lex_number s = (txt, fl, rest)" "number_token txt fl ln = Inr t"
  shows "tokenize_from ln s = bindE (tokenize_from ln rest) (\<lambda>ts. Inr (t # ts))"
proof -
  from assms(1) obtain c cs where s: "s = c # cs" "c = CHR ''-'' \<or> isdigit c"
    by (auto simp: starts_number_def split: list.splits)
  then have "c \<noteq> CHR '' '' \<and> c \<noteq> CHR 0x09 \<and> c \<noteq> CHR 0x0D \<and> c \<noteq> CHR 0x0A \<and> c \<noteq> CHR 0x27 \<and> c \<noteq> CHR 0x22"
    by (auto simp: char_class)
  with assms s show ?thesis by (simp add: tokenize_from.simps(2))
qed

lemma tokenize_number_error:
  assumes "starts_number s \<and> lex_number s = (txt, fl, rest)" "number_token txt fl ln = Inl e"
  shows "tokenize_from ln s = Inl e"
proof -
  from assms(1) obtain c cs where s: "s = c # cs" "c = CHR ''-'' \<or> isdigit c"
    by (auto simp: starts_number_def split: list.splits)
  then have "c \<noteq> CHR '' '' \<and> c \<noteq> CHR 0x09 \<and> c \<noteq> CHR 0x0D \<and> c \<noteq> CHR 0x0A \<and> c \<noteq> CHR 0x27 \<and> c \<noteq> CHR 0x22"
    by (auto simp: char_class)
  with assms s show ?thesis by (simp add: tokenize_from.simps(2))
qed

lemma scan_sign_digits: "n \<noteq> [] \<Longrightarrow> list_all isdigit n \<Longrightarrow> scan_sign (n @ rest) = ([], n @ rest)"
  by (cases n) (auto simp: scan_sign_def char_class)

lemma starts_number_digits: "n \<noteq> [] \<Longrightarrow> list_all isdigit n \<Longrightarrow> starts_number (n @ rest)"
  by (cases n) (simp_all add: starts_number_def)

lemma to_string_number:
  obtains sg n where "to_string v = sg @ n" "n \<noteq> []" "list_all isdigit n"
    "\<And>rest. scan_sign (to_string v @ rest) = (sg, n @ rest)" "\<And>rest. starts_number (to_string v @ rest)"
proof (cases "v < 0")
  case True
  let ?n = "nat_to_string (nat (- v))"
  have "list_all isdigit ?n" by (simp add: list_all_iff nat_to_string_digits)
  moreover from this have "isdigit (hd (?n @ rest))" for rest
    by (cases "?n") (auto dest: arg_cong [where f = length])
  ultimately show thesis
    using True that [of "''-''" ?n] by (simp add: to_string_def scan_sign_def starts_number_def)
next
  case False
  let ?n = "nat_to_string (nat v)"
  have "list_all isdigit ?n" by (simp add: list_all_iff nat_to_string_digits)
  with False that [of "[]" ?n] show thesis
    by (simp add: to_string_def scan_sign_digits starts_number_digits)
qed

lemma read_back_integer:
  assumes "int64_ok v"
  shows "read_back ((mk_token INTEGER (to_string v) 1)\<lparr>int_value := v\<rparr>)"
proof -
  obtain sg n where sg: "to_string v = sg @ n" "n \<noteq> []" "list_all isdigit n"
      "\<And>rest. scan_sign (to_string v @ rest) = (sg, n @ rest)" "\<And>rest. starts_number (to_string v @ rest)"
    by (rule to_string_number [of v]) blast
  have lex: "lex_number (to_string v @ CHR '' '' # rest) = (to_string v, False, CHR '' '' # rest)" for rest
    using digits_then [OF sg(3), of "CHR '' ''" rest]
    by (simp add: lex_number_def sg(4)) (simp add: scan_fraction_def scan_exponent_def sg(1) char_class)
  have num: "number_token (to_string v) False 1 = Inr ((mk_token INTEGER (to_string v) 1)\<lparr>int_value := v\<rparr>)"
    using assms by (simp add: number_token_def stoll_to_string)
  show ?thesis
    using tokenize_number [OF sg(5) lex num] by (simp add: read_back_def token_text_def mk_token_def)
qed

lemma number_at_end: "starts_number (to_string v) \<and> lex_number (to_string v) = (to_string v, False, [])"
proof -
  obtain sg n where sg: "to_string v = sg @ n" "n \<noteq> []" "list_all isdigit n"
      "\<And>rest. scan_sign (to_string v @ rest) = (sg, n @ rest)" "\<And>rest. starts_number (to_string v @ rest)"
    by (rule to_string_number [of v]) blast
  have "scan_digits n = (n, [])"
    using sg(3) by (auto simp: scan_digits_def list_all_iff)
  with sg(1) sg(4) [of "[]"] sg(5) [of "[]"] show ?thesis
    by (simp add: lex_number_def scan_fraction_def scan_exponent_def)
qed

lemma read_back_float:
  assumes "is_finite d" "stod (to_string_double d) = Inr d"
  shows "read_back ((mk_token FLOAT (to_string_double d) 1)\<lparr>float_value := d\<rparr>)"
proof -
  obtain sg ip fp where sh: "to_string_double d = sg @ ip @ ''.'' @ fp" "sg = [] \<or> sg = ''-''"
      "ip \<noteq> []" "list_all isdigit ip" "list_all isdigit fp"
    using to_string_double_shape [OF assms(1)] by (auto simp: list_all_iff)
  let ?s = "\<lambda>rest. to_string_double d @ CHR '' '' # rest"
  have sign: "scan_sign (?s rest) = (sg, ip @ CHR ''.'' # fp @ CHR '' '' # rest) \<and> starts_number (?s rest)" for rest
  proof (cases "sg = []")
    case True
    with sh show ?thesis by (simp add: scan_sign_digits starts_number_digits)
  next
    case False
    with sh show ?thesis by (auto simp: scan_sign_def starts_number_def hd_append list_all_iff)
  qed
  have "lex_number (?s rest) = (to_string_double d, True, CHR '' '' # rest)" for rest
    using digits_then [OF sh(4), of "CHR ''.''" "fp @ CHR '' '' # rest"] digits_then [OF sh(5), of "CHR '' ''" rest]
    by (simp add: lex_number_def sign) (simp add: scan_fraction_def scan_exponent_def sh(1) char_class)
  moreover have "number_token (to_string_double d) True 1 = Inr ((mk_token FLOAT (to_string_double d) 1)\<lparr>float_value := d\<rparr>)"
    using assms(2) by (simp add: number_token_def)
  ultimately show ?thesis
    using tokenize_number sign by (simp add: read_back_def token_text_def mk_token_def)
qed

section \<open>Every printed token is read back\<close>

lemma read_back_literal: "literal_has_text l \<Longrightarrow> read_back (literal_token l)"
  by (cases l) (simp_all add: read_back_integer read_back_float read_back_string read_back_words del: One_nat_def)

lemma read_back_wrap: "list_all read_back ts \<Longrightarrow> list_all read_back (wrap k e ts)"
  by (simp add: wrap_def read_back_marks)

lemma list_all_join: "list_all P sep \<Longrightarrow> list_all (list_all P) ps \<Longrightarrow> list_all P (join_with sep ps)"
  by (induction sep ps rule: join_with.induct) simp_all

lemma read_back_body: "has_text e \<Longrightarrow> list_all read_back (print_body e)"
proof (induction e)
  case (FunctionCallExpr n args)
  then have "list_all (list_all read_back) (map print_body args)"
    by (auto simp: list_all_iff)
  with FunctionCallExpr show ?case
    by (simp add: read_back_identifier read_back_marks list_all_join del: One_nat_def)
qed (simp_all add: read_back_identifier read_back_literal read_back_words read_back_op read_back_wrap del: One_nat_def)

lemma tokenize_read_back:
  "list_all read_back ts \<Longrightarrow> tokenize_from 1 (concat (map token_text ts)) = Inr (ts @ [end_token])"
  by (induction ts) (auto simp: read_back_def end_token_def)

lemma ParseFilter_text:
  assumes "has_text e"
  shows "ParseFilter (filter_text e) = Inr e"
proof -
  have "list_all read_back (print_at 0 e)"
    using read_back_wrap [OF read_back_body [OF assms]] by (simp add: print_at_def)
  moreover have "token_text end_token = []"
    by (simp add: token_text_def end_token_def mk_token_def)
  ultimately have "Tokenize (filter_text e) = Inr (print_filter e)"
    using tokenize_read_back by (simp add: Tokenize_def filter_text_def print_filter_def)
  then show ?thesis by (simp add: ParseFilter_def Parse_print)
qed

end
