(* ===== verification/Query_Options.thy ===== *)
theory Query_Options
  imports Ast String_Util
begin

text \<open>
  The parsers of the system query options \<open>$select\<close>, \<open>$orderby\<close>, \<open>$top\<close>, \<open>$skip\<close> and
  \<open>$count\<close> and of key literals, \<open>src/src/parser/odata_parser.cpp\<close> after the filter parser, with
  what each reads back and which errors it raises.
\<close>

section \<open>$select and $orderby\<close>

definition ParseSelect :: "string \<Rightarrow> string list" where
  "ParseSelect sel =
     (if sel = [] then []
      else filter (\<lambda>p. p \<noteq> []) (map Trim (split_on (CHR '','') sel)))"

definition msg_sort_direction :: "string \<Rightarrow> string" where
  "msg_sort_direction dir =
     ''invalid sort direction '' @ [CHR 0x27] @ dir @ [CHR 0x27] @ '' in $orderby''"

definition parse_order_term :: "string \<Rightarrow> OrderByTerm res" where
  "parse_order_term raw =
     (let term = Trim raw
      in if term = [] then Inl (ODataParseException ''empty term in $orderby'')
         else case split_first (CHR '' '') term of
           None \<Rightarrow> Inr \<lparr>ob_property = term, ob_order = ASC\<rparr>
         | Some (p, d) \<Rightarrow>
             (let dir = ToLower (Trim d)
              in if dir = ''asc'' then Inr \<lparr>ob_property = p, ob_order = ASC\<rparr>
                 else if dir = ''desc'' then Inr \<lparr>ob_property = p, ob_order = DESC\<rparr>
                 else Inl (ODataParseException (msg_sort_direction dir))))"

definition ParseOrderBy :: "string \<Rightarrow> OrderByTerm list res" where
  "ParseOrderBy orderby =
     (if orderby = [] then Inr [] else mapE parse_order_term (split_on (CHR '','') orderby))"

section \<open>Integers, booleans and key literals\<close>

definition msg_empty_value :: "string \<Rightarrow> string" where
  "msg_empty_value name = ''empty value for $'' @ name"

definition msg_invalid_value :: "string \<Rightarrow> string \<Rightarrow> string" where
  "msg_invalid_value name v =
     ''invalid value for $'' @ name @ '': '' @ [CHR 0x27] @ v @ [CHR 0x27]"

definition msg_out_of_range :: "string \<Rightarrow> string \<Rightarrow> string" where
  "msg_out_of_range name v =
     ''value out of range for $'' @ name @ '': '' @ [CHR 0x27] @ v @ [CHR 0x27]"

definition msg_negative :: "string \<Rightarrow> string" where
  "msg_negative name = ''$'' @ name @ '' must not be negative''"

definition ParseNonNegativeInt :: "string \<Rightarrow> string \<Rightarrow> int res" where
  "ParseNonNegativeInt name v =
     (if v = [] then Inl (ODataParseException (msg_empty_value name))
      else case stoll v of
        Inl e \<Rightarrow>
          (case e of
             InvalidArgument _ \<Rightarrow> Inl (ODataParseException (msg_invalid_value name v))
           | OutOfRange _ \<Rightarrow> Inl (ODataParseException (msg_out_of_range name v))
           | _ \<Rightarrow> Inl e)
      | Inr (parsed, idx) \<Rightarrow>
          if idx \<noteq> length v then Inl (ODataParseException (msg_invalid_value name v))
          else if parsed < 0 then Inl (ODataParseException (msg_negative name))
          else Inr parsed)"

definition msg_invalid_boolean :: "string \<Rightarrow> string \<Rightarrow> string" where
  "msg_invalid_boolean name v =
     ''invalid boolean value for $'' @ name @ '': '' @ [CHR 0x27] @ v @ [CHR 0x27]"

definition ParseBooleanOption :: "string \<Rightarrow> string \<Rightarrow> bool res" where
  "ParseBooleanOption name v =
     (let lower = ToLower v
      in if lower = ''true'' \<or> lower = ''1'' then Inr True
         else if lower = ''false'' \<or> lower = ''0'' then Inr False
         else Inl (ODataParseException (msg_invalid_boolean name v)))"

text \<open>The loops of \<open>ParseKeyLiteral\<close> and \<open>KeyLiteralSql\<close> that read a doubled quote as one.\<close>

fun undouble :: "string \<Rightarrow> string" where
  "undouble (c # d # cs) =
     (if c = CHR 0x27 \<and> d = CHR 0x27 then CHR 0x27 # undouble cs else c # undouble (d # cs))"
| "undouble cs = cs"

definition in_single_quotes :: "string \<Rightarrow> bool" where
  "in_single_quotes s \<longleftrightarrow> 2 \<le> length s \<and> hd s = CHR 0x27 \<and> last s = CHR 0x27"

datatype LiteralKind = KIND_INTEGER | KIND_FLOAT | KIND_STRING | KIND_BOOLEAN | KIND_NULL_VALUE

record KeyLiteral =
  key_kind :: LiteralKind
  key_str :: string
  key_integer :: int

definition ParseKeyLiteral :: "string \<Rightarrow> KeyLiteral" where
  "ParseKeyLiteral txt =
     (let t = Trim txt; lower = ToLower t
      in if in_single_quotes t then
           \<lparr>key_kind = KIND_STRING, key_str = undouble (butlast (tl t)), key_integer = 0\<rparr>
         else if lower = ''true'' \<or> lower = ''false'' then
           \<lparr>key_kind = KIND_BOOLEAN, key_str = (if lower = ''true'' then ''true'' else ''false''),
            key_integer = 0\<rparr>
         else case stoll t of
           Inr (v, idx) \<Rightarrow>
             if idx = length t then \<lparr>key_kind = KIND_INTEGER, key_str = t, key_integer = v\<rparr>
             else \<lparr>key_kind = KIND_STRING, key_str = t, key_integer = 0\<rparr>
         | Inl _ \<Rightarrow> \<lparr>key_kind = KIND_STRING, key_str = t, key_integer = 0\<rparr>)"

section \<open>What $select and $orderby read\<close>

lemma ParseSelect_mem:
  "p \<in> set (ParseSelect s) \<Longrightarrow> p \<noteq> [] \<and> trimmed p \<and> CHR '','' \<notin> set p"
proof -
  have sub: "x \<in> set (Trim r) \<Longrightarrow> x \<in> set r" for x r
    unfolding Trim_def by (auto dest!: set_dropWhileD)
  assume "p \<in> set (ParseSelect s)"
  then obtain r where "r \<in> set (split_on (CHR '','') s)" "p = Trim r" "p \<noteq> []"
    by (auto simp: ParseSelect_def split: if_splits)
  then show ?thesis using split_on_no_sep sub trimmed_Trim by metis
qed

text \<open>The canonical text of a $select list and of $orderby terms.\<close>

definition column_text :: "string \<Rightarrow> bool" where
  "column_text p \<longleftrightarrow> p \<noteq> [] \<and> trimmed p \<and> CHR '','' \<notin> set p"

lemma ParseSelect_join:
  assumes "\<forall>p \<in> set ps. column_text p"
  shows "ParseSelect (join_with '','' ps) = ps"
proof (cases "ps = []")
  case False
  have sp: "split_on (CHR '','') (join_with '','' ps) = ps"
    using False assms by (intro split_on_join) (auto simp: column_text_def)
  have "join_with '','' ps \<noteq> []"
    using False assms by (cases ps; cases "tl ps") (auto simp: column_text_def)
  moreover have "map Trim ps = ps"
    using assms by (intro map_idI) (auto simp: column_text_def Trim_trimmed)
  moreover have "filter (\<lambda>p. p \<noteq> []) ps = ps"
    using assms by (auto simp: column_text_def filter_id_conv)
  ultimately show ?thesis by (simp add: ParseSelect_def sp)
qed (simp add: ParseSelect_def)

definition order_text :: "OrderByTerm \<Rightarrow> string" where
  "order_text t = ob_property t @ (case ob_order t of ASC \<Rightarrow> '' asc'' | DESC \<Rightarrow> '' desc'')"

definition order_column :: "OrderByTerm \<Rightarrow> bool" where
  "order_column t \<longleftrightarrow> column_text (ob_property t) \<and> CHR '' '' \<notin> set (ob_property t)"

lemma parse_order_text:
  assumes "order_column t"
  shows "parse_order_term (order_text t) = Inr t"
proof -
  obtain p d where t: "t = \<lparr>ob_property = p, ob_order = d\<rparr>" by (cases t) auto
  have p: "p \<noteq> []" "\<not> isspace (hd p)" "CHR '' '' \<notin> set p"
    using assms by (auto simp: t order_column_def column_text_def trimmed_def)
  have "trimmed (order_text t)"
    using p by (cases d) (auto simp: t order_text_def trimmed_def hd_append)
  then have tr: "Trim (order_text t) = order_text t" by (rule Trim_trimmed)
  show ?thesis
  proof (cases d)
    case ASC
    have "Trim ''asc'' = ''asc''" by (simp add: Trim_def)
    with ASC p tr show ?thesis by (simp add: t parse_order_term_def order_text_def)
  next
    case DESC
    have "Trim ''desc'' = ''desc''" by (simp add: Trim_def)
    with DESC p tr show ?thesis by (simp add: t parse_order_term_def order_text_def)
  qed
qed

lemma ParseOrderBy_join:
  assumes "\<forall>t \<in> set ts. order_column t"
  shows "ParseOrderBy (join_with '','' (map order_text ts)) = Inr ts"
proof (cases "ts = []")
  case False
  have nc: "\<forall>p \<in> set (map order_text ts). CHR '','' \<notin> set p"
    using assms by (auto simp: order_text_def order_column_def column_text_def split: SortOrder.splits)
  then have sp: "split_on (CHR '','') (join_with '','' (map order_text ts)) = map order_text ts"
    using False by (intro split_on_join) auto
  have "join_with '','' (map order_text ts) \<noteq> []"
    using False by (cases ts; cases "tl ts") (auto simp: order_text_def split: SortOrder.splits)
  moreover have "mapE parse_order_term (map order_text ts) = Inr ts"
    using assms by (induction ts) (auto simp: parse_order_text)
  ultimately show ?thesis by (simp add: ParseOrderBy_def sp)
qed (simp add: ParseOrderBy_def)

lemma parse_order_term_Inl: "parse_order_term s = Inl e \<Longrightarrow> \<exists>m. e = ODataParseException m"
  by (auto simp: parse_order_term_def Let_def split: if_splits option.splits prod.splits)

lemma ParseOrderBy_Inl: "ParseOrderBy s = Inl e \<Longrightarrow> \<exists>m. e = ODataParseException m"
  by (auto simp: ParseOrderBy_def dest!: mapE_Inl_mem parse_order_term_Inl split: if_splits)

section \<open>Which integers are read\<close>

lemma stoll_Inl: "stoll s = Inl e \<Longrightarrow> e = InvalidArgument ''stoll'' \<or> e = OutOfRange ''stoll''"
  by (auto simp: stoll_def split: option.splits if_splits)

lemma ParseNonNegativeInt_Inl:
  "ParseNonNegativeInt name v = Inl e \<Longrightarrow> \<exists>m. e = ODataParseException m"
  by (auto simp: ParseNonNegativeInt_def split: if_splits sum.splits prod.splits dest!: stoll_Inl)

lemma ParseNonNegativeInt_Inr:
  "ParseNonNegativeInt name v = Inr n \<longleftrightarrow>
     read_int v = Some (n, length v) \<and> 0 \<le> n \<and> n < 2 ^ 63"
proof -
  have "read_int [] = None" by (simp add: read_int_def)
  then show ?thesis
    by (auto simp: ParseNonNegativeInt_def stoll_def int64_ok_def split: option.splits if_splits)
qed

lemma ParseNonNegativeInt_to_string:
  "0 \<le> n \<Longrightarrow> n < 2 ^ 63 \<Longrightarrow> ParseNonNegativeInt name (to_string n) = Inr n"
  by (simp add: ParseNonNegativeInt_Inr read_int_to_string)

section \<open>Key literals\<close>

lemma undouble_double_quotes [simp]: "undouble (double_quotes (CHR 0x27) s) = s"
proof (induction s)
  case (Cons c s)
  show ?case
  proof (cases "c = CHR 0x27")
    case False
    then have "undouble (c # t) = c # undouble t" for t by (cases t) auto
    with False Cons show ?thesis by simp
  qed (simp add: Cons)
qed simp

lemma in_single_quotes_QuoteStringLiteral [simp]: "in_single_quotes (QuoteStringLiteral s)"
  by (simp add: in_single_quotes_def QuoteStringLiteral_def)

lemma butlast_tl_QuoteStringLiteral [simp]:
  "butlast (tl (QuoteStringLiteral s)) = double_quotes (CHR 0x27) s"
  by (simp add: QuoteStringLiteral_def butlast_append)

lemma ParseKeyLiteral_quoted:
  "ParseKeyLiteral (QuoteStringLiteral s) =
     \<lparr>key_kind = KIND_STRING, key_str = s, key_integer = 0\<rparr>"
proof -
  have "Trim (QuoteStringLiteral s) = QuoteStringLiteral s"
    by (rule Trim_trimmed) (simp add: trimmed_def QuoteStringLiteral_def)
  then show ?thesis by (simp add: ParseKeyLiteral_def Let_def)
qed

lemma ParseKeyLiteral_int:
  assumes "int64_ok v"
  shows "ParseKeyLiteral (to_string v) =
           \<lparr>key_kind = KIND_INTEGER, key_str = to_string v, key_integer = v\<rparr>"
proof -
  have ch: "c \<in> set (to_string v) \<Longrightarrow> \<not> isspace c \<and> \<not> isalpha c \<and> c \<noteq> CHR 0x27" for c
    using set_to_string [of c v] by (auto simp: char_class)
  then have "trimmed (to_string v)" by (auto simp: trimmed_def)
  then have tr: "Trim (to_string v) = to_string v" by (rule Trim_trimmed)
  have "\<not> in_single_quotes (to_string v)"
    using ch [of "hd (to_string v)"] by (auto simp: in_single_quotes_def)
  moreover have "ToLower (to_string v) = to_string v"
    unfolding ToLower_def by (rule map_idI) (auto simp: tolower_id isalpha_def dest!: ch)
  moreover have "to_string v \<noteq> ''true''" "to_string v \<noteq> ''false''"
    using ch by force+
  ultimately show ?thesis
    using assms by (simp add: ParseKeyLiteral_def Let_def tr stoll_to_string)
qed

end
