(* ===== verification/Std_Map.thy ===== *)
theory Std_Map
  imports Cpp_Std
begin

text \<open>
  \<open>std::map<std::string, V>\<close> as the code uses it: an association list in key order, so that the
  iteration order of \<open>ToWire\<close> is that of the container. The two locales state what the clients
  of such containers rely on: \<open>lookup_table\<close> for a map, \<open>keyed\<close> for a list of records found by a
  key they carry, as the entity bindings are.
\<close>

section \<open>Interfaces\<close>

locale keyed =
  fixes key :: "'v \<Rightarrow> 'k"
    and lookup :: "'t \<Rightarrow> 'k \<Rightarrow> 'v option"
    and upsert :: "'v \<Rightarrow> 't \<Rightarrow> 't"
  assumes lookup_upsert: "lookup (upsert v t) k = (if k = key v then Some v else lookup t k)"
begin

lemma lookup_same: "lookup (upsert v t) (key v) = Some v"
  by (simp add: lookup_upsert)

lemma lookup_other: "k \<noteq> key v \<Longrightarrow> lookup (upsert v t) k = lookup t k"
  by (simp add: lookup_upsert)

text \<open>The last record of a key wins.\<close>

lemma lookup_fold:
  "lookup (fold upsert vs t) k =
     (case find (\<lambda>v. key v = k) (rev vs) of Some v \<Rightarrow> Some v | None \<Rightarrow> lookup t k)"
proof (induction vs arbitrary: t)
  case (Cons v vs)
  have "find P (xs @ [v]) = (case find P xs of Some x \<Rightarrow> Some x | None \<Rightarrow> if P v then Some v else None)"
    for P and xs :: "'v list"
    by (induction xs) auto
  with Cons show ?case by (auto simp: lookup_upsert split: option.split)
qed simp

lemma lookup_upsert_twice: "key v = key w \<Longrightarrow> lookup (upsert v (upsert w t)) = lookup (upsert v t)"
  by (rule ext) (simp add: lookup_upsert)

lemma lookup_upsert_commute:
  "key v \<noteq> key w \<Longrightarrow> lookup (upsert v (upsert w t)) = lookup (upsert w (upsert v t))"
  by (rule ext) (simp add: lookup_upsert)

end

locale lookup_table =
  fixes get :: "'t \<Rightarrow> 'k \<Rightarrow> 'v option"
    and put :: "'k \<Rightarrow> 'v \<Rightarrow> 't \<Rightarrow> 't"
  assumes get_put: "get (put k v t) k' = (if k' = k then Some v else get t k')"
begin

definition entry :: "'t \<Rightarrow> 'k \<Rightarrow> ('k \<times> 'v) option" where
  "entry t k = map_option (Pair k) (get t k)"

lemma get_entry: "get t k = map_option snd (entry t k)"
  by (simp add: entry_def option.map_comp comp_def option.map_ident)

end

sublocale lookup_table \<subseteq> entries: keyed fst entry "\<lambda>(k, v). put k v"
  by unfold_locales (auto simp: entry_def get_put)

context lookup_table
begin

lemma get_fold_put:
  "get (fold (\<lambda>(k, v). put k v) kvs t) k =
     (case find (\<lambda>kv. fst kv = k) (rev kvs) of Some kv \<Rightarrow> Some (snd kv) | None \<Rightarrow> get t k)"
  by (simp add: get_entry entries.lookup_fold split: option.split)

end

section \<open>The container\<close>

type_synonym 'v std_map = "(string \<times> 'v) list"

fun str_less :: "string \<Rightarrow> string \<Rightarrow> bool" where
  "str_less _ [] \<longleftrightarrow> False"
| "str_less [] (_ # _) \<longleftrightarrow> True"
| "str_less (x # xs) (y # ys) \<longleftrightarrow> code x < code y \<or> (x = y \<and> str_less xs ys)"

fun map_put :: "string \<Rightarrow> 'v \<Rightarrow> 'v std_map \<Rightarrow> 'v std_map" where
  "map_put k v [] = [(k, v)]"
| "map_put k v ((k', v') # m) =
     (if k = k' then (k, v) # m
      else if str_less k k' then (k, v) # (k', v') # m
      else (k', v') # map_put k v m)"

definition map_get :: "'v std_map \<Rightarrow> string \<Rightarrow> 'v option" where
  "map_get m k = map_of m k"

lemma map_get_put: "map_get (map_put k v m) k' = (if k' = k then Some v else map_get m k')"
  by (induction k v m rule: map_put.induct) (auto simp: map_get_def)

interpretation std_map: lookup_table map_get map_put
  by unfold_locales (rule map_get_put)

lemma map_get_Nil [simp]: "map_get [] k = None"
  by (simp add: map_get_def)

lemma set_keys_map_put [simp]: "fst ` set (map_put k v m) = insert k (fst ` set m)"
  by (induction k v m rule: map_put.induct) auto

lemma keys_map_get: "map_get m k \<noteq> None \<longleftrightarrow> k \<in> fst ` set m"
  by (auto simp: map_get_def map_of_eq_None_iff simp del: not_None_eq)

text \<open>The keys stay in strictly ascending order.\<close>

lemma str_less_trans: "str_less a b \<Longrightarrow> str_less b c \<Longrightarrow> str_less a c"
proof (induction a b arbitrary: c rule: str_less.induct)
  case (3 x xs y ys)
  then show ?case by (cases c) auto
next
  case (2 y ys)
  then show ?case by (cases c) auto
qed simp

lemma str_less_irrefl [simp]: "\<not> str_less a a"
  by (induction a) auto

lemma str_less_total: "a \<noteq> b \<Longrightarrow> \<not> str_less a b \<Longrightarrow> str_less b a"
proof (induction a b rule: str_less.induct)
  case (1 a)
  then show ?case by (cases a) auto
next
  case (3 x xs y ys)
  then show ?case by (auto simp: code_inj [symmetric] not_less le_less)
qed simp

definition ordered :: "'v std_map \<Rightarrow> bool" where
  "ordered m \<longleftrightarrow> sorted_wrt str_less (map fst m)"

lemma ordered_Nil [simp]: "ordered []"
  by (simp add: ordered_def)

lemma ordered_map_put: "ordered m \<Longrightarrow> ordered (map_put k v m)"
proof (induction k v m rule: map_put.induct)
  case (2 k v k' v' m)
  have keys: "x \<in> set (map fst (map_put k v m)) \<longleftrightarrow> x = k \<or> x \<in> fst ` set m" for x
    using set_keys_map_put [of k v m] by (metis insert_iff list.set_map)
  show ?case
  proof (cases "k = k' \<or> str_less k k'")
    case True
    with "2.prems" show ?thesis by (auto simp: ordered_def intro: str_less_trans)
  next
    case False
    then have "str_less k' k" using str_less_total by blast
    with False 2 keys show ?thesis by (auto simp: ordered_def)
  qed
qed (simp add: ordered_def)

lemma ordered_distinct: "ordered m \<Longrightarrow> distinct (map fst m)"
  unfolding ordered_def by (induction m) auto

end
