(* ===== verification/Http_Request.thy ===== *)
theory Http_Request
  imports Std_Map String_Util
begin

text \<open>
  The parser of an HTTP request head, \<open>src/src/server/http_request.cpp\<close>. Its first line is split
  into words as \<open>istringstream >>\<close> does; \<open>None\<close> is the \<open>false\<close> of a malformed head. The main
  lemma reads back every request head written in the canonical form.
\<close>

record HttpRequest =
  rq_method :: string
  rq_path :: string
  rq_raw_query :: string
  rq_body :: string
  rq_query :: "(string \<times> string) list"
  rq_headers :: "string std_map"

definition HasHeader :: "HttpRequest \<Rightarrow> string \<Rightarrow> bool" where
  "HasHeader rq name \<longleftrightarrow> map_get (rq_headers rq) (ToLower name) \<noteq> None"

definition GetHeader :: "HttpRequest \<Rightarrow> string \<Rightarrow> string" where
  "GetHeader rq name = (case map_get (rq_headers rq) (ToLower name) of None \<Rightarrow> [] | Some v \<Rightarrow> v)"

definition crlf :: string where "crlf = [CHR 0x0D, CHR 0x0A]"

function split_words :: "string \<Rightarrow> string list" where
  "split_words s =
     (let r = dropWhile isspace s
      in if r = [] then []
         else takeWhile (\<lambda>c. \<not> isspace c) r # split_words (dropWhile (\<lambda>c. \<not> isspace c) r))"
  by pat_completeness auto
termination
proof (relation "measure length", simp, goal_cases)
  case (1 s r)
  then have "\<not> isspace (hd r)" using hd_dropWhile [of isspace s] by simp
  with 1 have "length (dropWhile (\<lambda>c. \<not> isspace c) r) < length r"
    by (intro length_dropWhile_less) auto
  with 1 show ?case using length_dropWhile_le [of isspace s] by simp
qed

declare split_words.simps [simp del]

text \<open>A line and what follows its CRLF.\<close>

definition next_line :: "string \<Rightarrow> (string \<times> string) option" where
  "next_line s = map_option (\<lambda>i. (take i s, drop (i + 2) s)) (find_sub crlf s)"

lemma next_line_length: "next_line s = Some (ln, rest) \<Longrightarrow> length rest < length s"
  by (auto simp: next_line_def crlf_def dest!: find_sub_SomeD)

definition is_blank :: "char \<Rightarrow> bool" where
  "is_blank c \<longleftrightarrow> c = CHR '' '' \<or> c = CHR 0x09"

definition trim_blanks :: "string \<Rightarrow> string" where
  "trim_blanks v = rev (dropWhile is_blank (rev (dropWhile is_blank v)))"

text \<open>The loop over the header lines, on what is left of the head.\<close>

function parse_headers :: "string \<Rightarrow> string std_map \<Rightarrow> string std_map option" where
  "parse_headers rest hs =
     (case next_line rest of
        None \<Rightarrow> Some hs
      | Some (ln, rest') \<Rightarrow>
          if ln = [] then Some hs
          else (case split_first (CHR '':'') ln of
                  None \<Rightarrow> None
                | Some (name, v) \<Rightarrow>
                    if name = [] \<or> list_ex is_blank name then None
                    else if ToLower name = ''content-length'' \<and> map_get hs (ToLower name) \<noteq> None then None
                    else parse_headers rest' (map_put (ToLower name) (trim_blanks v) hs)))"
  by pat_completeness auto
termination
  by (relation "measure (\<lambda>(rest, hs). length rest)") (auto dest!: next_line_length)

declare parse_headers.simps [simp del]

definition ParseHttpRequest :: "string \<Rightarrow> HttpRequest option" where
  "ParseHttpRequest head =
     (case next_line head of
        None \<Rightarrow> None
      | Some (request_line, rest) \<Rightarrow>
          (case split_words request_line of
             [meth, target, version] \<Rightarrow>
               if version \<noteq> ''HTTP/1.1'' \<and> version \<noteq> ''HTTP/1.0'' then None
               else
                 (let (p, q) = (case split_first (CHR ''?'') target of
                                  None \<Rightarrow> (target, []) | Some pq \<Rightarrow> pq)
                  in map_option
                       (\<lambda>hs. \<lparr>rq_method = meth, rq_path = UrlDecode p, rq_raw_query = q, rq_body = [],
                             rq_query = ParseQueryString q, rq_headers = hs\<rparr>)
                       (parse_headers rest []))
           | _ \<Rightarrow> None))"

section \<open>Searching for the end of a line\<close>

definition no_crlf :: "string \<Rightarrow> bool" where
  "no_crlf s \<longleftrightarrow> CHR 0x0D \<notin> set s"

lemma length_crlf [simp]: "length crlf = 2"
  by (simp add: crlf_def)

lemma find_sub_crlf:
  assumes "no_crlf a"
  shows "find_sub crlf (a @ crlf @ rest) = Some (length a)"
proof (rule find_sub_eq_SomeI)
  fix j
  assume j: "j < length a"
  then have "(a @ crlf @ rest) ! j = a ! j" "j < length (a @ crlf @ rest)"
    by (simp_all add: nth_append)
  then have "drop j (a @ crlf @ rest) = a ! j # drop (Suc j) (a @ crlf @ rest)"
    by (metis Cons_nth_drop_Suc)
  moreover have "a ! j \<noteq> CHR 0x0D" using assms nth_mem [OF j] by (metis no_crlf_def)
  ultimately show "\<not> has_prefix crlf (drop j (a @ crlf @ rest))"
    by (simp add: has_prefix_def crlf_def)
qed simp_all

lemma next_line_crlf: "no_crlf a \<Longrightarrow> next_line (a @ crlf @ rest) = Some (a, rest)"
  by (simp add: next_line_def find_sub_crlf)

section \<open>Canonical request heads\<close>

definition header_line :: "string \<times> string \<Rightarrow> string" where
  "header_line h = fst h @ '': '' @ snd h @ crlf"

definition request_head :: "string \<Rightarrow> string \<Rightarrow> (string \<times> string) list \<Rightarrow> string" where
  "request_head meth target hs =
     meth @ '' '' @ target @ '' HTTP/1.1'' @ crlf @ concat (map header_line hs) @ crlf"

definition word :: "string \<Rightarrow> bool" where
  "word s \<longleftrightarrow> s \<noteq> [] \<and> list_all (\<lambda>c. \<not> isspace c) s"

definition good_header :: "string \<times> string \<Rightarrow> bool" where
  "good_header h \<longleftrightarrow>
     word (fst h) \<and> CHR '':'' \<notin> set (fst h) \<and> no_crlf (snd h) \<and>
     (snd h = [] \<or> \<not> is_blank (hd (snd h)) \<and> \<not> is_blank (last (snd h)))"

lemma split_words_word: "word w \<Longrightarrow> split_words (w @ CHR '' '' # s) = w # split_words s"
proof -
  assume w: "word w"
  then have nd: "\<forall>c \<in> set w. \<not> isspace c" "w \<noteq> []" by (auto simp: word_def list_all_iff)
  then have "dropWhile isspace (w @ CHR '' '' # s) = w @ CHR '' '' # s" by (cases w) auto
  moreover have "takeWhile (\<lambda>c. \<not> isspace c) (w @ CHR '' '' # s) = w"
    "dropWhile (\<lambda>c. \<not> isspace c) (w @ CHR '' '' # s) = CHR '' '' # s"
    using nd by (simp_all add: isspace_def)
  moreover have "split_words (CHR '' '' # s) = split_words s"
    by (subst (1 2) split_words.simps) (simp add: isspace_def)
  ultimately show ?thesis using nd(2) by (subst split_words.simps) simp
qed

lemma split_words_single: "word w \<Longrightarrow> split_words w = [w]"
proof -
  assume w: "word w"
  then have nd: "\<forall>c \<in> set w. \<not> isspace c" "w \<noteq> []" by (auto simp: word_def list_all_iff)
  then have "dropWhile isspace w = w" by (cases w) auto
  moreover have "split_words [] = []" by (subst split_words.simps) simp
  ultimately show ?thesis using nd by (subst split_words.simps) simp
qed

lemma trim_blanks_id:
  assumes "v = [] \<or> \<not> is_blank (hd v) \<and> \<not> is_blank (last v)"
  shows "trim_blanks (CHR '' '' # v) = v"
proof (cases v rule: rev_cases)
  case Nil
  then show ?thesis by (simp add: trim_blanks_def is_blank_def)
next
  case (snoc u x)
  with assms have "\<not> is_blank (hd v)" "\<not> is_blank x" "v \<noteq> []" by auto
  then have "dropWhile is_blank v = v" by (cases v) auto
  moreover have "is_blank (CHR '' '')" by (simp add: is_blank_def)
  ultimately show ?thesis using snoc \<open>\<not> is_blank x\<close> by (simp add: trim_blanks_def)
qed

lemma parse_headers_end: "parse_headers (crlf @ rest) hs = Some hs"
proof -
  have "next_line (crlf @ rest) = Some ([], rest)" using next_line_crlf [of "[]" rest] by (simp add: no_crlf_def)
  then show ?thesis by (subst parse_headers.simps) simp
qed

lemma next_line_header:
  assumes "good_header h"
  shows "\<exists>ln. next_line (header_line h @ rest) = Some (ln, rest) \<and> ln \<noteq> []
    \<and> split_first (CHR '':'') ln = Some (fst h, CHR '' '' # snd h)
    \<and> fst h \<noteq> [] \<and> \<not> list_ex is_blank (fst h) \<and> trim_blanks (CHR '' '' # snd h) = snd h"
proof -
  obtain n v where h: "h = (n, v)" by (cases h)
  define ln where "ln = n @ CHR '':'' # CHR '' '' # v"
  have n: "word n" "CHR '':'' \<notin> set n" "no_crlf v" using assms(1) by (auto simp: h good_header_def)
  have nsp: "\<forall>c \<in> set n. \<not> isspace c" "n \<noteq> []" using n(1) by (auto simp: word_def list_all_iff)
  then have "CHR 0x0D \<notin> set n" by (auto simp: isspace_def)
  with n(3) have "no_crlf ln" by (simp add: no_crlf_def ln_def)
  then have "next_line (ln @ crlf @ rest) = Some (ln, rest)" by (rule next_line_crlf)
  moreover have "header_line h @ rest = ln @ crlf @ rest" by (simp add: header_line_def h ln_def)
  moreover have "\<not> list_ex is_blank n" using nsp(1) by (auto simp: list_ex_iff is_blank_def isspace_def)
  moreover have "trim_blanks (CHR '' '' # v) = v" using assms(1) by (intro trim_blanks_id) (simp add: h good_header_def)
  ultimately show ?thesis
    using n(2) nsp(2) by (intro exI [of _ ln]) (simp add: h ln_def)
qed

lemma parse_headers_line:
  assumes "good_header h" "ToLower (fst h) = ''content-length'' \<Longrightarrow> map_get hs ''content-length'' = None"
  shows "parse_headers (header_line h @ rest) hs = parse_headers rest (map_put (ToLower (fst h)) (snd h) hs)"
  using next_line_header [OF assms(1), of rest] assms(2)
  by (subst parse_headers.simps) auto

text \<open>A second \<open>Content-Length\<close> makes the head malformed.\<close>

lemma parse_headers_duplicate:
  assumes "good_header h" "ToLower (fst h) = ''content-length''" "map_get m ''content-length'' \<noteq> None"
  shows "parse_headers (header_line h @ rest) m = None"
  using next_line_header [OF assms(1), of rest] assms(2,3)
  by (subst parse_headers.simps) auto

text \<open>At most one \<open>Content-Length\<close>, in any letter case.\<close>

definition single_length :: "(string \<times> string) list \<Rightarrow> bool" where
  "single_length hs \<longleftrightarrow> length (filter (\<lambda>h. ToLower (fst h) = ''content-length'') hs) \<le> 1"

definition header_map :: "(string \<times> string) list \<Rightarrow> string std_map" where
  "header_map hs = fold (\<lambda>(n, v). map_put n v) (map (\<lambda>h. (ToLower (fst h), snd h)) hs) []"

lemma parse_headers_lines:
  assumes "\<forall>h \<in> set hs. good_header h"
    and "length (filter (\<lambda>h. ToLower (fst h) = ''content-length'') hs)
           + (if map_get m ''content-length'' = None then 0 else 1) \<le> (1::nat)"
  shows "parse_headers (concat (map header_line hs) @ crlf) m
    = Some (fold (\<lambda>(n, v). map_put n v) (map (\<lambda>h. (ToLower (fst h), snd h)) hs) m)"
  using assms
proof (induction hs arbitrary: m)
  case Nil
  then show ?case using parse_headers_end [of "[]"] by simp
next
  case (Cons h hs)
  have "parse_headers (concat (map header_line (h # hs)) @ crlf) m
      = parse_headers (concat (map header_line hs) @ crlf) (map_put (ToLower (fst h)) (snd h) m)"
    using Cons.prems parse_headers_line [of h m "concat (map header_line hs) @ crlf"]
    by (auto split: if_splits)
  then show ?case using Cons.prems by (simp add: Cons.IH map_get_put split: if_splits)
qed

definition split_target :: "string \<Rightarrow> string \<times> string" where
  "split_target target = (case split_first (CHR ''?'') target of None \<Rightarrow> (target, []) | Some pq \<Rightarrow> pq)"

lemma ParseHttpRequest_head:
  assumes "word meth" "word target" "\<forall>h \<in> set hs. good_header h" "single_length hs"
  shows "ParseHttpRequest (request_head meth target hs) =
    Some \<lparr>rq_method = meth, rq_path = UrlDecode (fst (split_target target)),
          rq_raw_query = snd (split_target target), rq_body = [],
          rq_query = ParseQueryString (snd (split_target target)), rq_headers = header_map hs\<rparr>"
proof -
  define ln where "ln = meth @ CHR '' '' # target @ CHR '' '' # ''HTTP/1.1''"
  have no: "no_crlf w" if "word w" for w
    using that by (auto simp: word_def no_crlf_def list_all_iff isspace_def)
  then have "no_crlf ln" using assms(1,2) by (auto simp: no_crlf_def ln_def)
  then have "next_line (ln @ crlf @ concat (map header_line hs) @ crlf)
      = Some (ln, concat (map header_line hs) @ crlf)"
    by (rule next_line_crlf)
  moreover have "request_head meth target hs = ln @ crlf @ concat (map header_line hs) @ crlf"
    by (simp add: request_head_def ln_def)
  moreover have "split_words ln = [meth, target, ''HTTP/1.1'']"
  proof -
    have "word ''HTTP/1.1''" by (simp add: word_def isspace_def)
    with assms(1,2) show ?thesis unfolding ln_def by (simp only: split_words_word split_words_single)
  qed
  moreover have "parse_headers (concat (map header_line hs) @ crlf) [] = Some (header_map hs)"
    using assms(3,4) parse_headers_lines [of hs "[]"] by (simp add: header_map_def single_length_def)
  ultimately show ?thesis
    by (simp add: ParseHttpRequest_def split_target_def [symmetric] case_prod_beta)
qed

text \<open>The last value of a header is the one the handlers see.\<close>

lemma GetHeader_header_map:
  "GetHeader rq name =
     (case find (\<lambda>kv. fst kv = ToLower name) (rev (map (\<lambda>h. (ToLower (fst h), snd h)) hs)) of
        Some kv \<Rightarrow> snd kv | None \<Rightarrow> [])"
  if "rq_headers rq = header_map hs"
  using that by (simp add: GetHeader_def header_map_def std_map.get_fold_put split: option.split)

end
