(* ===== verification/Http_Response.thy ===== *)
theory Http_Response
  imports Http_Request
begin

text \<open>
  The response and its wire form, \<open>src/src/server/http_response.cpp\<close>. A reader of status line,
  header lines and body is the specification of the framing.
\<close>

record HttpResponse =
  rs_status :: int
  rs_headers :: "string std_map"
  rs_body :: string

definition default_response :: HttpResponse where
  "default_response = \<lparr>rs_status = 200, rs_headers = [], rs_body = []\<rparr>"

definition HttpStatusPhrase :: "int \<Rightarrow> string" where
  "HttpStatusPhrase status =
     (if status = 200 then ''OK''
      else if status = 201 then ''Created''
      else if status = 204 then ''No Content''
      else if status = 304 then ''Not Modified''
      else if status = 400 then ''Bad Request''
      else if status = 401 then ''Unauthorized''
      else if status = 403 then ''Forbidden''
      else if status = 404 then ''Not Found''
      else if status = 405 then ''Method Not Allowed''
      else if status = 406 then ''Not Acceptable''
      else if status = 409 then ''Conflict''
      else if status = 412 then ''Precondition Failed''
      else if status = 413 then ''Payload Too Large''
      else if status = 415 then ''Unsupported Media Type''
      else if status = 500 then ''Internal Server Error''
      else if status = 503 then ''Service Unavailable''
      else if status = 501 then ''Not Implemented''
      else ''Unknown'')"

definition length_header :: "HttpResponse \<Rightarrow> (string \<times> string) list" where
  "length_header r =
     (if rs_status r \<noteq> 204 \<and> map_get (rs_headers r) ''Content-Length'' = None
         \<and> map_get (rs_headers r) ''Transfer-Encoding'' = None
      then [(''Content-Length'', to_string (int (length (rs_body r))))] else [])"

definition wire_headers :: "HttpResponse \<Rightarrow> (string \<times> string) list" where
  "wire_headers r = rs_headers r @ length_header r @ [(''Connection'', ''close'')]"

definition status_line :: "string \<Rightarrow> HttpResponse \<Rightarrow> string" where
  "status_line version r =
     version @ '' '' @ to_string (rs_status r) @ '' '' @ HttpStatusPhrase (rs_status r)"

definition ToWire :: "string \<Rightarrow> HttpResponse \<Rightarrow> string" where
  "ToWire version r =
     status_line version r @ crlf @ concat (map header_line (wire_headers r)) @ crlf @ rs_body r"

section \<open>Reading a response\<close>

text \<open>The lines up to the empty one, and the rest.\<close>

function read_lines :: "string \<Rightarrow> (string list \<times> string) option" where
  "read_lines s =
     (case next_line s of
        None \<Rightarrow> None
      | Some (ln, rest) \<Rightarrow>
          if ln = [] then Some ([], rest)
          else map_option (\<lambda>(lns, b). (ln # lns, b)) (read_lines rest))"
  by pat_completeness auto
termination
  by (relation "measure length") (auto dest!: next_line_length)

declare read_lines.simps [simp del]

lemma read_lines_Nil: "read_lines (crlf @ b) = Some ([], b)"
  using next_line_crlf [of "[]" b] by (subst read_lines.simps) (simp add: no_crlf_def)

lemma read_lines_Cons:
  "no_crlf ln \<Longrightarrow> ln \<noteq> [] \<Longrightarrow>
     read_lines (ln @ crlf @ s) = map_option (\<lambda>(lns, b). (ln # lns, b)) (read_lines s)"
  by (subst read_lines.simps) (simp add: next_line_crlf)

definition header_text :: "string \<times> string \<Rightarrow> string" where
  "header_text h = fst h @ '': '' @ snd h"

definition clean_headers :: "HttpResponse \<Rightarrow> bool" where
  "clean_headers r \<longleftrightarrow> (\<forall>(n, v) \<in> set (rs_headers r). no_crlf n \<and> no_crlf v)"

lemma no_crlf_simps [simp]:
  "no_crlf []" "no_crlf (c # s) \<longleftrightarrow> c \<noteq> CHR 0x0D \<and> no_crlf s"
  "no_crlf (a @ b) \<longleftrightarrow> no_crlf a \<and> no_crlf b"
  by (auto simp: no_crlf_def)

lemma no_crlf_to_string [simp]: "no_crlf (to_string v)"
  by (auto simp: no_crlf_def char_class dest!: set_to_string)

lemma no_crlf_phrase [simp]: "no_crlf (HttpStatusPhrase s)"
  by (simp add: HttpStatusPhrase_def)

lemma read_lines_headers:
  assumes "\<forall>(n, v) \<in> set hs. no_crlf n \<and> no_crlf v"
  shows "read_lines (concat (map header_line hs) @ crlf @ b) = Some (map header_text hs, b)"
  using assms
proof (induction hs)
  case (Cons h hs)
  have "header_line h @ s = header_text h @ crlf @ s" for s
    by (simp add: header_line_def header_text_def)
  moreover have "header_text h \<noteq> []" "no_crlf (header_text h)"
    using Cons.prems by (auto simp: header_text_def)
  ultimately show ?case using Cons by (simp add: read_lines_Cons)
qed (simp add: read_lines_Nil)

lemma read_ToWire:
  assumes "clean_headers r" "no_crlf version"
  shows "read_lines (ToWire version r) =
    Some (status_line version r # map header_text (wire_headers r), rs_body r)"
proof -
  have "status_line version r \<noteq> []" "no_crlf (status_line version r)"
    using assms(2) by (simp_all add: status_line_def)
  moreover have "\<forall>(n, v) \<in> set (wire_headers r). no_crlf n \<and> no_crlf v"
    using assms(1) by (auto simp: clean_headers_def wire_headers_def length_header_def)
  ultimately show ?thesis
    unfolding ToWire_def by (simp add: read_lines_Cons read_lines_headers)
qed

end
