(* ===== verification/Http_Server.thy ===== *)
theory Http_Server
  imports Http_Response
begin

text \<open>
  The socket server, \<open>src/src/server/http_server.cpp\<close>. What a connection receives is the list of
  the chunks that successive \<open>read\<close> calls can return; an empty chunk or the end of the list is the
  \<open>n <= 0\<close> of the end of file, an error or the ten second timeout. A request handler is a
  parameter that may raise and that changes a state of its own.
\<close>

section \<open>Reading a request\<close>

type_synonym socket = "string list"

definition sock_read :: "nat \<Rightarrow> socket \<Rightarrow> string \<times> socket" where
  "sock_read n s =
     (case s of
        [] \<Rightarrow> ([], [])
      | c # cs \<Rightarrow> (take n c, if length c \<le> n then cs else drop n c # cs))"

definition header_end :: string where
  "header_end = crlf @ crlf"

definition max_head :: nat where "max_head = 65536"

function read_head :: "string \<Rightarrow> socket \<Rightarrow> (string \<times> string) option \<times> socket" where
  "read_head buffer s =
     (case sock_read 4096 s of
        (chunk, s') \<Rightarrow>
          if chunk = [] then (None, s')
          else (case find_sub header_end (buffer @ chunk) of
                  Some pos \<Rightarrow>
                    if max_head < pos then (None, s')
                    else (Some (take (pos + 4) (buffer @ chunk), drop (pos + 4) (buffer @ chunk)), s')
                | None \<Rightarrow>
                    if max_head < length (buffer @ chunk) then (None, s')
                    else read_head (buffer @ chunk) s'))"
  by pat_completeness auto
termination
  by (relation "measure (\<lambda>(b, s). length (concat s))")
     (auto simp: sock_read_def split: list.splits if_splits)

declare read_head.simps [simp del]

definition ReadRequestHead :: "socket \<Rightarrow> (string \<times> string) option \<times> socket" where
  "ReadRequestHead s = read_head [] s"

definition max_body :: nat where "max_body = 1048576"

text \<open>The loop over the text of \<open>Content-Length\<close>: whether it is valid, and the number.\<close>

fun scan_length :: "string \<Rightarrow> nat \<Rightarrow> bool \<times> nat" where
  "scan_length [] n = (True, n)"
| "scan_length (c # cs) n =
     (if \<not> isdigit c \<or> max_body < n then (False, n) else scan_length cs (n * 10 + digit_val c))"

function read_body :: "nat \<Rightarrow> string \<Rightarrow> socket \<Rightarrow> string option \<times> socket" where
  "read_body len body s =
     (if len \<le> length body then (Some body, s)
      else (case sock_read (min 4096 (len - length body)) s of
              (chunk, s') \<Rightarrow>
                if chunk = [] then (None, s') else read_body len (body @ chunk) s'))"
  by pat_completeness auto
termination
  by (relation "measure (\<lambda>(len, body, s). len - length body)") (auto simp: neq_Nil_conv)

declare read_body.simps [simp del]

section \<open>One connection\<close>

type_synonym 's handler = "HttpRequest \<Rightarrow> 's \<Rightarrow> HttpResponse res \<times> 's"

definition invalid_header_response :: HttpResponse where
  "invalid_header_response = default_response\<lparr>rs_status := 400,
     rs_body := ''{\"error\":{\"code\":\"InvalidRequest\",\"message\":\"invalid request header\"}}''\<rparr>"

definition too_large_response :: HttpResponse where
  "too_large_response = default_response\<lparr>rs_status := 413,
     rs_body := ''{\"error\":{\"code\":\"PayloadTooLarge\",\"message\":\"request body exceeds 1 MiB\"}}''\<rparr>"

definition framing_response :: HttpResponse where
  "framing_response = default_response\<lparr>rs_status := 400,
     rs_body := ''{\"error\":{\"code\":\"InvalidRequest\",\"message\":\"invalid or unsupported body framing\"}}''\<rparr>"

definition exception_response :: "exn \<Rightarrow> HttpResponse" where
  "exception_response e = \<lparr>rs_status = 500,
     rs_headers = map_put ''Content-Type'' ''application/json'' [],
     rs_body = ''{\"error\":{\"code\":\"500\",\"message\":\"'' @ JsonEscape (what e) @ ''\"}}''\<rparr>"

definition content_length :: "HttpRequest \<Rightarrow> bool \<times> nat" where
  "content_length rq =
     (let raw = GetHeader rq ''Content-Length'';
          valid = (\<not> HasHeader rq ''Transfer-Encoding'' \<and> \<not> (HasHeader rq ''Content-Length'' \<and> raw = []));
          (digits, n) = scan_length raw 0
      in (valid \<and> digits, n))"

definition connection_response :: "'s handler \<Rightarrow> socket \<Rightarrow> 's \<Rightarrow> HttpResponse \<times> 's" where
  "connection_response handler s st =
     (case ReadRequestHead s of
        (None, _) \<Rightarrow> (invalid_header_response, st)
      | (Some (head, body), s') \<Rightarrow>
          (case ParseHttpRequest head of
             None \<Rightarrow> (invalid_header_response, st)
           | Some rq \<Rightarrow>
               (case content_length rq of
                  (valid, len) \<Rightarrow>
                    if max_body < len then (too_large_response, st)
                    else if \<not> valid then (framing_response, st)
                    else (case read_body len body s' of
                            (None, _) \<Rightarrow> (framing_response, st)
                          | (Some b, _) \<Rightarrow>
                              (case handler (rq\<lparr>rq_body := take len b\<rparr>) st of
                                 (Inr r, st') \<Rightarrow> (r, st')
                               | (Inl e, st') \<Rightarrow> (exception_response e, st'))))))"

definition with_content_type :: "HttpResponse \<Rightarrow> HttpResponse" where
  "with_content_type r =
     (if map_get (rs_headers r) ''Content-Type'' = None
      then r\<lparr>rs_headers := map_put ''Content-Type''
               (if 400 \<le> rs_status r then ''application/json'' else ''text/plain'') (rs_headers r)\<rparr>
      else r)"

definition HandleConnection :: "'s handler \<Rightarrow> socket \<Rightarrow> 's \<Rightarrow> string \<times> 's" where
  "HandleConnection handler s st =
     (case connection_response handler s st of
        (r, st') \<Rightarrow> (ToWire ''HTTP/1.1'' (with_content_type r), st'))"

section \<open>What the reading functions do to the stream\<close>

lemma sock_read_concat: "sock_read n s = (c, s') \<Longrightarrow> concat s = c @ concat s'"
  by (auto simp: sock_read_def split: list.splits if_splits)

lemma sock_read_nonempty:
  "sock_read n s = (c, s') \<Longrightarrow> [] \<notin> set s \<Longrightarrow> 0 < n \<Longrightarrow> s \<noteq> [] \<Longrightarrow> c \<noteq> [] \<and> [] \<notin> set s'"
  by (auto simp: sock_read_def split: list.splits if_splits)

lemma sock_read_length: "sock_read n s = (c, s') \<Longrightarrow> length c \<le> n"
  by (auto simp: sock_read_def split: list.splits)

lemma header_end_length [simp]: "length header_end = 4"
  by (simp add: header_end_def)

text \<open>A head that is accepted ends at the first blank line of the stream, within the bound.\<close>

lemma read_head_SomeD:
  assumes "read_head buffer s = (Some (head, body), s')" "find_sub header_end buffer = None"
  shows "\<exists>p. find_sub header_end (buffer @ concat s) = Some p \<and> p \<le> max_head
    \<and> head = take (p + 4) (buffer @ concat s) \<and> buffer @ concat s = head @ body @ concat s'"
  using assms
proof (induction buffer s rule: read_head.induct)
  case (1 buffer s)
  obtain c t where rd: "sock_read 4096 s = (c, t)" by fastforce
  note all = sock_read_concat [OF rd]
  show ?case
  proof (cases "find_sub header_end (buffer @ c)")
    case None
    have "read_head (buffer @ c) t = (Some (head, body), s')" "c \<noteq> []" "\<not> max_head < length (buffer @ c)"
      using "1.prems"(1) rd None by (auto simp: read_head.simps [of buffer s] split: if_splits)
    from "1.IH" [OF rd [symmetric] this(2) None this(3) this(1) None] show ?thesis
      by (simp add: all)
  next
    case (Some p)
    define w where "w = buffer @ c"
    have w: "buffer @ concat s = w @ concat t" by (simp add: w_def all)
    from Some have "p + 4 \<le> length w" "find_sub header_end (w @ concat t) = Some p"
      using find_sub_SomeD [OF Some] find_sub_append_left [OF Some] by (simp_all add: w_def)
    moreover have "\<not> max_head < p" "head = take (p + 4) w" "body = drop (p + 4) w" "s' = t"
      using "1.prems"(1) rd Some by (auto simp: read_head.simps [of buffer s] w_def split: if_splits)
    ultimately show ?thesis unfolding w by (intro exI [of _ p]) simp
  qed
qed

text \<open>
  A head that ends within the bound is accepted however the stream is cut into chunks.
\<close>

lemma read_head_accepts:
  assumes "find_sub header_end (buffer @ concat s) = Some p" "p + 4 \<le> max_head"
    "[] \<notin> set s" "find_sub header_end buffer = None"
  shows "\<exists>body s'. read_head buffer s = (Some (take (p + 4) (buffer @ concat s), body), s')
    \<and> buffer @ concat s = take (p + 4) (buffer @ concat s) @ body @ concat s' \<and> [] \<notin> set s'"
  using assms
proof (induction buffer s rule: read_head.induct)
  case (1 buffer s)
  obtain c t where rd: "sock_read 4096 s = (c, t)" by fastforce
  note all = sock_read_concat [OF rd]
  have "s \<noteq> []"
    using "1.prems"(1,4) by auto
  with rd "1.prems"(3) have c: "c \<noteq> []" "[] \<notin> set t"
    using sock_read_nonempty [OF rd] by auto
  have split: "find_sub header_end (buffer @ c) = (if p + 4 \<le> length (buffer @ c) then Some p else None)"
    using find_sub_append_SomeD [of header_end "buffer @ c" "concat t" p] "1.prems"(1) by (simp add: all)
  show ?case
  proof (cases "p + 4 \<le> length (buffer @ c)")
    case True
    define w where "w = buffer @ c"
    have w: "buffer @ concat s = w @ concat t" by (simp add: w_def all)
    have "read_head buffer s = (Some (take (p + 4) w, drop (p + 4) w), t)"
      using True split c "1.prems"(2) rd by (subst read_head.simps) (simp add: w_def)
    moreover have "p + 4 \<le> length w" using True by (simp add: w_def)
    ultimately show ?thesis
      using c(2) by (intro exI [of _ "drop (p + 4) w"] exI [of _ t]) (simp add: w)
  next
    case False
    with split have None: "find_sub header_end (buffer @ c) = None" by simp
    have len: "\<not> max_head < length (buffer @ c)" using False "1.prems"(2) by simp
    have "read_head buffer s = read_head (buffer @ c) t"
      using rd c None len by (subst read_head.simps) simp
    moreover have "\<exists>body s'. read_head (buffer @ c) t
        = (Some (take (p + 4) ((buffer @ c) @ concat t), body), s')
      \<and> (buffer @ c) @ concat t = take (p + 4) ((buffer @ c) @ concat t) @ body @ concat s' \<and> [] \<notin> set s'"
      using "1.prems" c None len by (intro "1.IH" [OF rd [symmetric]]) (simp_all add: all)
    ultimately show ?thesis by (simp add: all)
  qed
qed

lemma ReadRequestHead_accepts:
  assumes "find_sub header_end (concat s) = Some p" "p + 4 \<le> max_head" "[] \<notin> set s"
  shows "\<exists>body s'. ReadRequestHead s = (Some (take (p + 4) (concat s), body), s')
    \<and> concat s = take (p + 4) (concat s) @ body @ concat s' \<and> [] \<notin> set s'"
  using read_head_accepts [of "[]" s p] assms
  by (simp add: ReadRequestHead_def header_end_def crlf_def)

lemma ReadRequestHead_SomeD:
  assumes "ReadRequestHead s = (Some (head, body), s')"
  shows "\<exists>p. find_sub header_end (concat s) = Some p \<and> p \<le> max_head
    \<and> head = take (p + 4) (concat s) \<and> concat s = head @ body @ concat s'"
  using read_head_SomeD [of "[]" s head body s'] assms
  by (simp add: ReadRequestHead_def header_end_def crlf_def)

section \<open>Bodies\<close>

lemma scan_length_bound: "scan_length cs n = (v, m) \<Longrightarrow> n \<le> 10 * max_body + 9 \<Longrightarrow> m \<le> 10 * max_body + 9"
proof (induction cs n rule: scan_length.induct)
  case (2 c cs n)
  have "digit_val c \<le> 9" if "isdigit c" using that unfolding digit_val_def isdigit_def by linarith
  with 2 show ?case by (auto split: if_splits)
qed simp

lemma scan_length_digits:
  assumes "\<forall>c \<in> set ds. isdigit c" "foldl (\<lambda>n c. n * 10 + digit_val c) n ds \<le> max_body"
  shows "scan_length ds n = (True, foldl (\<lambda>n c. n * 10 + digit_val c) n ds)"
  using assms
proof (induction ds arbitrary: n)
  case (Cons c ds)
  have mono: "k \<le> foldl (\<lambda>n c. n * 10 + digit_val c) k ds" for k ds
  proof (induction ds arbitrary: k)
    case (Cons c ds)
    have "k \<le> k * 10 + digit_val c" by simp
    also note Cons.IH [of "k * 10 + digit_val c"]
    finally show ?case by simp
  qed simp
  have "n \<le> max_body" using mono [of n "c # ds"] Cons.prems(2) by simp
  with Cons show ?case by simp
qed simp

lemma scan_length_to_string:
  "n \<le> max_body \<Longrightarrow> scan_length (to_string (int n)) 0 = (True, n)"
  using scan_length_digits [of "nat_to_string n" 0] nat_to_string_digits
  by (simp add: to_string_def digits_val_def [symmetric])

lemma read_body_SomeD:
  "read_body len body s = (Some b, s') \<Longrightarrow> \<exists>more. b = body @ more \<and> len \<le> length b \<and> concat s = more @ concat s'"
proof (induction len body s rule: read_body.induct)
  case (1 len body s)
  show ?case
  proof (cases "len \<le> length body")
    case True
    with 1 show ?thesis by (simp add: read_body.simps [of len body s])
  next
    case False
    obtain c t where rd: "sock_read (min 4096 (len - length body)) s = (c, t)" by fastforce
    from "1.prems" False rd have "c \<noteq> []" "read_body len (body @ c) t = (Some b, s')"
      by (auto simp: read_body.simps [of len body s] split: if_splits)
    with "1.IH" [OF False rd [symmetric]] sock_read_concat [OF rd] show ?thesis by auto
  qed
qed

lemma read_body_complete:
  assumes "len \<le> length (body @ concat s)" "[] \<notin> set s"
  shows "\<exists>b s'. read_body len body s = (Some b, s') \<and> take len b = take len (body @ concat s)"
  using assms
proof (induction len body s rule: read_body.induct)
  case (1 len body s)
  show ?case
  proof (cases "len \<le> length body")
    case True
    then show ?thesis by (simp add: read_body.simps [of len body s])
  next
    case False
    obtain c t where rd: "sock_read (min 4096 (len - length body)) s = (c, t)" by fastforce
    have "s \<noteq> []" using False "1.prems"(1) by auto
    with rd "1.prems"(2) False have c: "c \<noteq> []" "[] \<notin> set t"
      using sock_read_nonempty [OF rd] by auto
    have "read_body len body s = read_body len (body @ c) t"
      using False rd c by (subst read_body.simps) simp
    with "1.IH" [OF False rd [symmetric] c(1)] "1.prems"(1) c(2) sock_read_concat [OF rd]
    show ?thesis by simp
  qed
qed

section \<open>One request, one call of the handler\<close>

text \<open>
  The handler runs at most once, on a complete body of at most 1 MiB; when it does not run the
  answer is 400 or 413 and its state is untouched.
\<close>

lemma connection_response_cases:
  obtains (rejected) r where "connection_response handler s st = (r, st)" "rs_status r \<in> {400, 413}"
  | (handled) rq r st' where "handler rq st = (Inr r, st')" "connection_response handler s st = (r, st')"
      "length (rq_body rq) \<le> max_body"
  | (raised) rq e st' where "handler rq st = (Inl e, st')"
      "connection_response handler s st = (exception_response e, st')" "length (rq_body rq) \<le> max_body"
proof -
  have st: "rs_status invalid_header_response = 400" "rs_status framing_response = 400"
    "rs_status too_large_response = 413"
    by (simp_all add: invalid_header_response_def framing_response_def too_large_response_def)
  obtain hd s' where rd: "ReadRequestHead s = (hd, s')" by fastforce
  show thesis
  proof (cases hd)
    case None
    with rd show thesis using rejected st(1) by (simp add: connection_response_def)
  next
    case (Some hb)
    obtain head body where hb: "hb = (head, body)" by fastforce
    show thesis
    proof (cases "ParseHttpRequest head")
      case None
      with rd Some hb show thesis using rejected st(1) by (simp add: connection_response_def)
    next
      case (Some rq)
      obtain valid len where cl: "content_length rq = (valid, len)" by fastforce
      note eqs = rd \<open>hd = Some hb\<close> hb Some cl
      show thesis
      proof (cases "max_body < len \<or> \<not> valid \<or> fst (read_body len body s') = None")
        case True
        with eqs show thesis
          using rejected [of "if max_body < len then too_large_response else framing_response"] st
          by (cases "read_body len body s'") (auto simp: connection_response_def split: if_splits)
      next
        case False
        then obtain b s'' where b: "read_body len body s' = (Some b, s'')" by (cases "read_body len body s'") auto
        let ?rq = "rq\<lparr>rq_body := take len b\<rparr>"
        obtain res st' where h: "handler ?rq st = (res, st')" by fastforce
        from False have "length (rq_body ?rq) \<le> max_body" by (simp add: min.coboundedI2)
        with eqs False b h show thesis
          by (cases res) (auto simp: connection_response_def intro: handled raised)
      qed
    qed
  qed
qed

text \<open>
  A canonical request with its body reaches the handler unchanged, however the stream is cut.
\<close>

definition body_headers :: "(string \<times> string) list \<Rightarrow> string \<Rightarrow> bool" where
  "body_headers hs body \<longleftrightarrow>
     (case map_get (header_map hs) ''content-length'' of
        None \<Rightarrow> body = []
      | Some v \<Rightarrow> v = to_string (int (length body)))
     \<and> map_get (header_map hs) ''transfer-encoding'' = None"

lemma find_header_end_skip:
  "no_crlf a \<Longrightarrow> find_sub header_end (a @ s) = map_option ((+) (length a)) (find_sub header_end s)"
proof (induction a)
  case (Cons c a)
  then show ?case
    by (simp add: header_end_def crlf_def has_prefix_def option.map_comp comp_def)
qed (cases "find_sub header_end s"; simp)

lemma find_header_end_now: "no_crlf a \<Longrightarrow> find_sub header_end (a @ crlf @ crlf @ s) = Some (length a)"
  by (simp add: find_header_end_skip) (simp add: header_end_def crlf_def has_prefix_def)

lemma find_header_end_line:
  assumes "no_crlf a" "s \<noteq> []" "hd s \<noteq> CHR 0x0D"
  shows "find_sub header_end (a @ crlf @ s) = map_option ((+) (length a + 2)) (find_sub header_end s)"
proof -
  obtain c t where "s = c # t" "c \<noteq> CHR 0x0D" using assms(2,3) by (cases s) auto
  then have "find_sub header_end (crlf @ s) = map_option ((+) 2) (find_sub header_end s)"
    by (simp add: header_end_def crlf_def has_prefix_def option.map_comp comp_def)
  with assms(1) show ?thesis by (cases "find_sub header_end s") (simp_all add: find_header_end_skip)
qed

lemma find_header_end_headers:
  assumes "no_crlf a" "\<forall>h \<in> set hs. good_header h"
  shows "find_sub header_end (a @ crlf @ concat (map header_line hs) @ crlf @ body)
           = Some (length a + length (concat (map header_line hs)))"
  using assms
proof (induction hs arbitrary: a)
  case Nil
  then show ?case by (simp add: find_header_end_now)
next
  case (Cons h hs)
  let ?rest = "concat (map header_line hs) @ crlf @ body"
  have h: "header_line h @ t = header_text h @ crlf @ t" for t
    by (simp add: header_line_def header_text_def)
  have "good_header h" using Cons.prems(2) by simp
  then have n: "fst h \<noteq> []" "no_crlf (fst h)" "no_crlf (snd h)"
    by (auto simp: good_header_def word_def list_all_iff no_crlf_def isspace_def)
  then have t: "no_crlf (header_text h)" "header_text h \<noteq> []" "hd (header_text h) \<noteq> CHR 0x0D"
    by (auto simp: header_text_def no_crlf_def hd_append dest: hd_in_set)
  have "find_sub header_end (a @ crlf @ header_text h @ crlf @ ?rest)
      = map_option ((+) (length a + 2)) (find_sub header_end (header_text h @ crlf @ ?rest))"
    using Cons.prems(1) t by (intro find_header_end_line) auto
  also have "find_sub header_end (header_text h @ crlf @ ?rest)
      = Some (length (header_text h) + length (concat (map header_line hs)))"
    using Cons.prems(2) t(1) by (intro Cons.IH) auto
  finally have "find_sub header_end (a @ crlf @ header_line h @ ?rest)
      = Some (length a + 2 + (length (header_text h) + length (concat (map header_line hs))))"
    by (simp add: h)
  moreover have "length (header_line h) = length (header_text h) + 2"
    by (simp add: header_line_def header_text_def)
  ultimately show ?case by simp
qed

lemma request_head_ends:
  assumes "word meth" "word target" "\<forall>h \<in> set hs. good_header h"
  shows "find_sub header_end (request_head meth target hs @ body)
           = Some (length (request_head meth target hs) - 4)"
proof -
  have no: "no_crlf w" if "word w" for w
    using that by (auto simp: word_def no_crlf_def list_all_iff isspace_def)
  let ?a = "meth @ '' '' @ target @ '' HTTP/1.1''"
  have "no_crlf ?a" using assms(1,2) no by simp
  from find_header_end_headers [OF this assms(3), of body] show ?thesis
    by (simp add: request_head_def)
qed

lemma content_length_of_headers:
  assumes "rq_headers rq = header_map hs" "body_headers hs body" "length body \<le> max_body"
  shows "content_length rq = (True, length body)"
proof -
  have low: "ToLower ''Content-Length'' = ''content-length''" "ToLower ''Transfer-Encoding'' = ''transfer-encoding''"
    by simp_all
  have te: "\<not> HasHeader rq ''Transfer-Encoding''"
    using assms(1,2) by (simp add: HasHeader_def low body_headers_def del: ToLower_simps)
  show ?thesis
  proof (cases "map_get (header_map hs) ''content-length''")
    case None
    then have "GetHeader rq ''Content-Length'' = []" "\<not> HasHeader rq ''Content-Length''" "body = []"
      using assms(1,2) by (simp_all add: GetHeader_def HasHeader_def low body_headers_def del: ToLower_simps)
    with te show ?thesis by (simp add: content_length_def)
  next
    case (Some v)
    then have "GetHeader rq ''Content-Length'' = to_string (int (length body))" "HasHeader rq ''Content-Length''"
      using assms(1,2) by (simp_all add: GetHeader_def HasHeader_def low body_headers_def del: ToLower_simps)
    with te show ?thesis
      using scan_length_to_string [OF assms(3)] by (simp add: content_length_def)
  qed
qed

lemma connection_delivers:
  assumes "word meth" "word target" "\<forall>h \<in> set hs. good_header h" "single_length hs"
    and "body_headers hs body" "length body \<le> max_body"
    and "length (request_head meth target hs) \<le> max_head"
    and "concat s = request_head meth target hs @ body @ extra" "[] \<notin> set s"
  shows "connection_response handler s st =
    (case handler \<lparr>rq_method = meth, rq_path = UrlDecode (fst (split_target target)),
           rq_raw_query = snd (split_target target), rq_body = body,
           rq_query = ParseQueryString (snd (split_target target)), rq_headers = header_map hs\<rparr> st of
       (Inr r, st') \<Rightarrow> (r, st') | (Inl e, st') \<Rightarrow> (exception_response e, st'))"
proof -
  let ?head = "request_head meth target hs"
  have len: "4 \<le> length ?head" by (simp add: request_head_def)
  have "find_sub header_end (concat s) = Some (length ?head - 4)"
    unfolding assms(8) by (rule request_head_ends [OF assms(1-3)])
  from ReadRequestHead_accepts [OF this _ assms(9)] len assms(7)
  obtain b s' where rd: "ReadRequestHead s = (Some (take (length ?head) (concat s), b), s')"
    and all: "concat s = take (length ?head) (concat s) @ b @ concat s'" "[] \<notin> set s'"
    by auto
  have take: "take (length ?head) (concat s) = ?head" by (simp add: assms(8))
  then have stream: "b @ concat s' = body @ extra" using all(1) assms(8) by simp
  let ?rq = "\<lparr>rq_method = meth, rq_path = UrlDecode (fst (split_target target)),
           rq_raw_query = snd (split_target target), rq_body = [],
           rq_query = ParseQueryString (snd (split_target target)), rq_headers = header_map hs\<rparr>"
  have parse: "ParseHttpRequest ?head = Some ?rq" by (rule ParseHttpRequest_head [OF assms(1-4)])
  have cl: "content_length ?rq = (True, length body)"
    by (rule content_length_of_headers [OF _ assms(5,6)]) simp
  have "length body \<le> length (b @ concat s')" by (simp add: stream)
  from read_body_complete [OF this all(2)] obtain b' s''
    where "read_body (length body) b s' = (Some b', s'')" "take (length body) b' = body"
    unfolding stream by auto
  then show ?thesis
    using rd parse cl assms(6) by (simp add: connection_response_def take)
qed

end
