(* ===== verification/Query_Language.thy ===== *)
theory Query_Language
  imports Filter_Text Query_Options Http_Server
begin

text \<open>
  Properties of the tokenizer, the filter parser and the parsers of the other query options: which
  texts they read, what they make of them, and how they fail.
\<close>

section \<open>Filters\<close>

text \<open>
  C11. A filter expression that is written as text, with the fewest parentheses, strings in quotes
  that are doubled inside and names as they are, is tokenized and parsed back to the same expression.
\<close>

theorem filter_text_round_trip:
  assumes "has_text e"
  shows "ParseFilter (filter_text e) = Inr e"
  using assms by (rule ParseFilter_text)

definition sample_filter :: Expr where
  "sample_filter =
     BinaryExpr BinaryOp.AND
       (UnaryExpr UnaryOp.NOT (BinaryExpr BinaryOp.OR
          (BinaryExpr BinaryOp.EQ (PropertyExpr ''name'') (Literal (StringLit (''it'' @ CHR 0x27 # ''s''))))
          (BinaryExpr BinaryOp.LT (PropertyExpr ''id'') (Literal (IntegerLit (- 7))))))
       (FunctionCallExpr ''contains'' [PropertyExpr ''name'', Literal NullLit])"

theorem filter_text_round_trip_witness:
  "has_text sample_filter \<and> ParseFilter (filter_text sample_filter) = Inr sample_filter"
proof -
  have "has_text sample_filter" by code_simp
  with filter_text_round_trip show ?thesis by blast
qed

text \<open>
  C27. The parser ends on every text: a filter that is not accepted fails with an ODataParseException
  or with the out_of_range of std::stoll or std::stod, never with another exception, never by reading
  past the tokens, and the recursion bound of the model is never reached.
\<close>

theorem filter_errors: "case ParseFilter s of Inl e \<Rightarrow> lexer_exn e | Inr ex \<Rightarrow> True"
proof (cases "Tokenize s")
  case (Inl e)
  then show ?thesis using tokenize_from_exn [of 1 s e] by (simp add: ParseFilter_def Tokenize_def)
next
  case (Inr ts)
  with tokenize_from_closed [of 1 s ts] Parse_ok [of ts] show ?thesis
    by (auto simp: ParseFilter_def Tokenize_def lexer_exn_def split: sum.splits)
qed

text \<open>
  An integer literal outside 64 bits raises std::out_of_range, which is no ODataParseException: a
  request with it is answered with status 500 and not with 400.
\<close>

lemma overflowing_literal:
  assumes "ident_name n" "\<not> int64_ok v"
  shows "ParseFilter (n @ '' eq '' @ to_string v) = Inl (OutOfRange ''stoll'')
    \<and> rs_status (exception_response (OutOfRange ''stoll'')) = 500"
proof -
  have ident: "n \<noteq> []" "IsIdentStart (hd n)" "list_all IsIdentChar n"
    using assms(1) by (simp_all add: ident_name_def)
  have eq: "tokenize_from 1 (''eq'' @ CHR '' '' # rest) = bindE (tokenize_from 1 rest) (\<lambda>ts. Inr (word_token ''eq'' 1 # ts))" for rest
    by (rule tokenize_word) (simp_all add: IsIdentStart_def IsIdentChar_def char_class)
  have "tokenize_from 1 (to_string v) = Inl (OutOfRange ''stoll'')"
    by (rule tokenize_number_error [OF number_at_end])
       (simp add: number_token_def stoll_def read_int_to_string assms(2))
  then have "Tokenize (n @ '' eq '' @ to_string v) = Inl (OutOfRange ''stoll'')"
    using tokenize_word [OF ident, of 1 "''eq '' @ to_string v"] eq [of "to_string v"]
    by (simp add: Tokenize_def)
  then show ?thesis
    by (simp add: ParseFilter_def exception_response_def)
qed

section \<open>The other options\<close>

text \<open>
  C35. $top and $skip accept exactly the texts that are, to their last character, an integer between 0
  and the largest 64-bit integer, with leading blanks and a sign as std::stoll reads them; every
  other text is an ODataParseException.
\<close>

theorem non_negative_int:
  "case ParseNonNegativeInt name v of
     Inr n \<Rightarrow> read_int v = Some (n, length v) \<and> 0 \<le> n \<and> n < 2 ^ 63
   | Inl e \<Rightarrow> (\<exists>m. e = ODataParseException m)
       \<and> \<not> (\<exists>n. read_int v = Some (n, length v) \<and> 0 \<le> n \<and> n < 2 ^ 63)"
proof (cases "ParseNonNegativeInt name v")
  case (Inl e)
  with ParseNonNegativeInt_Inl [OF Inl] ParseNonNegativeInt_Inr [of name v] show ?thesis by auto
next
  case (Inr n)
  with ParseNonNegativeInt_Inr [of name v n] show ?thesis by simp
qed

end
