(* ===== verification/Edm_Model.thy ===== *)
theory Edm_Model
  imports String_Util
begin

text \<open>
  The entity data model, \<open>src/src/metadata/edm_model.cpp\<close>: the mapping of DuckDB type names to
  EDM types and the EDMX document of \<open>$metadata\<close>. The reference parameter \<open>serializable\<close> of
  \<open>DuckDBTypeToEdm\<close> is the second component of its result. A small reader of XML tags is the
  specification against which the document is shown well nested for every model.
\<close>

datatype EdmType =
    BOOLEAN | SBYTE | INT16 | INT32 | INT64 | SINGLE | DOUBLE | DECIMAL | STRING | DATE
  | TIME_OF_DAY | DATETIME_OFFSET | GUID | BINARY | UNSUPPORTED

record EdmProperty =
  p_name :: string
  p_edm_type :: EdmType
  p_nullable :: bool
  p_is_key :: bool
  p_duckdb_type :: string
  p_serializable :: bool

record EdmEntity =
  e_name :: string
  e_catalog :: string
  e_schema :: string
  e_table :: string
  e_properties :: "EdmProperty list"
  e_has_key :: bool

type_synonym EdmModel = "EdmEntity list"

section \<open>DuckDB types\<close>

definition base_type :: "string \<Rightarrow> string" where
  "base_type t = Trim (case split_first (CHR ''('') (ToLower t) of
                         None \<Rightarrow> ToLower t | Some (b, _) \<Rightarrow> b)"

definition DuckDBTypeToEdm :: "string \<Rightarrow> EdmType \<times> bool" where
  "DuckDBTypeToEdm duckdb_type =
     (let t = base_type duckdb_type
      in if t \<in> {''boolean'', ''bool''} then (BOOLEAN, True)
         else if t \<in> {''tinyint'', ''int1''} then (SBYTE, True)
         else if t \<in> {''smallint'', ''int2''} then (INT16, True)
         else if t \<in> {''integer'', ''int4'', ''int'', ''signed''} then (INT32, True)
         else if t \<in> {''bigint'', ''int8'', ''long''} then (INT64, True)
         else if t = ''hugeint'' then (DECIMAL, True)
         else if t \<in> {''utinyint'', ''usmallint'', ''uinteger'', ''ubigint'', ''uhugeint''}
           then (DECIMAL, True)
         else if t \<in> {''float'', ''real''} then (SINGLE, True)
         else if t = ''double'' then (DOUBLE, True)
         else if t \<in> {''decimal'', ''numeric'', ''money''} then (DECIMAL, True)
         else if t \<in> {''varchar'', ''char'', ''bpchar'', ''text'', ''string''} then (STRING, True)
         else if t = ''date'' then (DATE, True)
         else if t \<in> {''time'', ''timetz''} then (TIME_OF_DAY, True)
         else if t \<in> {''timestamp'', ''timestamp with time zone'', ''timestamptz'', ''datetime'',
                      ''datetime2''} then (DATETIME_OFFSET, True)
         else if t = ''uuid'' then (GUID, True)
         else if t \<in> {''blob'', ''bytea'', ''binary'', ''varbinary'', ''bit'', ''bitstring''}
           then (BINARY, True)
         else (UNSUPPORTED, False))"

fun EdmTypeName :: "EdmType \<Rightarrow> string" where
  "EdmTypeName BOOLEAN = ''Edm.Boolean''"
| "EdmTypeName SBYTE = ''Edm.SByte''"
| "EdmTypeName INT16 = ''Edm.Int16''"
| "EdmTypeName INT32 = ''Edm.Int32''"
| "EdmTypeName INT64 = ''Edm.Int64''"
| "EdmTypeName SINGLE = ''Edm.Single''"
| "EdmTypeName DOUBLE = ''Edm.Double''"
| "EdmTypeName DECIMAL = ''Edm.Decimal''"
| "EdmTypeName STRING = ''Edm.String''"
| "EdmTypeName DATE = ''Edm.Date''"
| "EdmTypeName TIME_OF_DAY = ''Edm.TimeOfDay''"
| "EdmTypeName DATETIME_OFFSET = ''Edm.DateTimeOffset''"
| "EdmTypeName GUID = ''Edm.Guid''"
| "EdmTypeName BINARY = ''Edm.Binary''"
| "EdmTypeName UNSUPPORTED = ''Edm.String''"

definition IsSupportedEdmType :: "EdmType \<Rightarrow> bool" where
  "IsSupportedEdmType t \<longleftrightarrow> t \<noteq> UNSUPPORTED"

lemma serializable_iff_supported:
  "snd (DuckDBTypeToEdm t) \<longleftrightarrow> IsSupportedEdmType (fst (DuckDBTypeToEdm t))"
  by (simp add: DuckDBTypeToEdm_def IsSupportedEdmType_def Let_def)

text \<open>The mapping looks at the base type only: letter case and parameters do not count.\<close>

lemma base_type_parameters:
  assumes "CHR ''('' \<notin> set t"
  shows "base_type (t @ CHR ''('' # ps) = base_type t"
proof -
  have "CHR ''('' \<notin> set (ToLower t)"
    using assms by (auto simp: ToLower_def tolower_eq_nonalpha char_class
        dest: iffD1 [OF eq_commute])
  moreover have "tolower (CHR ''('') = CHR ''(''" by simp
  ultimately show ?thesis by (simp add: base_type_def)
qed

lemma base_type_ToLower [simp]: "base_type (ToLower t) = base_type t"
  by (simp add: base_type_def split: option.split)

section \<open>EDMX\<close>

definition xml_escape_char :: "char \<Rightarrow> string" where
  "xml_escape_char c =
     (if c = CHR ''&'' then ''&amp;''
      else if c = CHR ''<'' then ''&lt;''
      else if c = CHR ''>'' then ''&gt;''
      else if c = CHR 0x22 then ''&quot;''
      else if c = CHR 0x27 then ''&apos;''
      else [c])"

definition XmlEscape :: "string \<Rightarrow> string" where
  "XmlEscape s = concat (map xml_escape_char s)"

definition nl :: string where "nl = [CHR 0x0A]"

definition property_ref_xml :: "EdmProperty \<Rightarrow> string" where
  "property_ref_xml p =
     ''          <PropertyRef Name=\"'' @ XmlEscape (p_name p) @ ''\"/>'' @ nl"

definition property_xml :: "EdmProperty \<Rightarrow> string" where
  "property_xml p =
     ''        <Property Name=\"'' @ XmlEscape (p_name p) @ ''\" Type=\"'' @
     EdmTypeName (p_edm_type p) @ ''\"'' @
     (if \<not> p_nullable p then '' Nullable=\"false\"'' else []) @ ''/>'' @ nl"

definition key_xml :: "EdmEntity \<Rightarrow> string" where
  "key_xml e =
     (if e_has_key e then
        ''        <Key>'' @ nl @
        concat (map property_ref_xml (filter p_is_key (e_properties e))) @
        ''        </Key>'' @ nl
      else [])"

definition entity_type_xml :: "EdmEntity \<Rightarrow> string" where
  "entity_type_xml e =
     ''      <EntityType Name=\"'' @ XmlEscape (e_name e) @ ''\">'' @ nl @
     key_xml e @
     concat (map property_xml (filter p_serializable (e_properties e))) @
     ''      </EntityType>'' @ nl"

definition entity_set_xml :: "EdmEntity \<Rightarrow> string" where
  "entity_set_xml e =
     ''        <EntitySet Name=\"'' @ XmlEscape (e_name e) @ ''\" EntityType=\"DuckDB.'' @
     XmlEscape (e_name e) @ ''\"/>'' @ nl"

definition GenerateEdmx :: "EdmModel \<Rightarrow> string" where
  "GenerateEdmx model =
     ''<?xml version=\"1.0\" encoding=\"utf-8\"?>'' @ nl @
     ''<edmx:Edmx Version=\"4.0\" xmlns:edmx=\"http://docs.oasis-open.org/odata/ns/edmx\">'' @ nl @
     ''  <edmx:DataServices>'' @ nl @
     ''    <Schema Namespace=\"DuckDB\" xmlns=\"http://docs.oasis-open.org/odata/ns/edm\">'' @ nl @
     concat (map entity_type_xml model) @
     ''      <EntityContainer Name=\"DuckDBContext\">'' @ nl @
     concat (map entity_set_xml model) @
     ''      </EntityContainer>'' @ nl @
     ''    </Schema>'' @ nl @
     ''  </edmx:DataServices>'' @ nl @
     ''</edmx:Edmx>'' @ nl"

section \<open>Escaped text is read back\<close>

definition xml_entities :: "(string \<times> char) list" where
  "xml_entities =
     [(''amp'', CHR ''&''), (''lt'', CHR ''<''), (''gt'', CHR ''>''), (''quot'', CHR 0x22),
      (''apos'', CHR 0x27)]"

text \<open>The value of an XML attribute, its five predefined entities replaced.\<close>

function xml_unescape :: "string \<Rightarrow> string option" where
  "xml_unescape s =
     (case s of
        [] \<Rightarrow> Some []
      | c # cs \<Rightarrow>
          if c = CHR ''<'' \<or> c = CHR ''>'' \<or> c = CHR 0x22 \<or> c = CHR 0x27 then None
          else if c \<noteq> CHR ''&'' then map_option ((#) c) (xml_unescape cs)
          else (case split_first (CHR '';'') cs of
                  None \<Rightarrow> None
                | Some (name, r) \<Rightarrow>
                    (case map_of xml_entities name of
                       None \<Rightarrow> None
                     | Some b \<Rightarrow> map_option ((#) b) (xml_unescape r))))"
  by pat_completeness auto
termination
  by (relation "measure length") (auto dest!: split_first_length)

declare xml_unescape.simps [simp del]

lemma xml_unescape_entity:
  assumes "map_of xml_entities name = Some b" "CHR '';'' \<notin> set name"
  shows "xml_unescape (CHR ''&'' # name @ CHR '';'' # t) = map_option ((#) b) (xml_unescape t)"
  using assms by (subst xml_unescape.simps) simp

lemma xml_unescape_plain:
  "c \<notin> {CHR ''<'', CHR ''>'', CHR 0x22, CHR 0x27, CHR ''&''} \<Longrightarrow>
     xml_unescape (c # t) = map_option ((#) c) (xml_unescape t)"
  by (subst xml_unescape.simps) simp

lemma xml_unescape_escape_char:
  "xml_unescape (xml_escape_char c @ t) = map_option ((#) c) (xml_unescape t)"
  using xml_unescape_entity [of "''amp''" "CHR ''&''" t] xml_unescape_entity [of "''lt''" "CHR ''<''" t]
    xml_unescape_entity [of "''gt''" "CHR ''>''" t] xml_unescape_entity [of "''quot''" "CHR 0x22" t]
    xml_unescape_entity [of "''apos''" "CHR 0x27" t]
  by (auto simp: xml_escape_char_def xml_entities_def xml_unescape_plain)

interpretation xml: char_escape xml_escape_char xml_unescape
  by unfold_locales (simp_all add: xml_unescape_escape_char xml_unescape.simps [of "[]"])

lemma xml_unescape_XmlEscape: "xml_unescape (XmlEscape s) = Some s"
  unfolding XmlEscape_def by (rule xml.dec_concat)

lemma XmlEscape_no_markup [simp]:
  "CHR ''<'' \<notin> set (XmlEscape s)" "CHR ''>'' \<notin> set (XmlEscape s)" "CHR 0x22 \<notin> set (XmlEscape s)"
  "CHR 0x27 \<notin> set (XmlEscape s)"
  by (auto simp: XmlEscape_def xml_escape_char_def split: if_splits)

section \<open>The document is well nested\<close>

text \<open>The tags of a document: what stands between \<open><\<close> and the next \<open>></\<close>.\<close>

function xml_tags :: "string \<Rightarrow> string list" where
  "xml_tags s =
     (case split_first (CHR ''<'') s of
        None \<Rightarrow> []
      | Some (_, r) \<Rightarrow>
          (case split_first (CHR ''>'') r of
             None \<Rightarrow> []
           | Some (t, r') \<Rightarrow> t # xml_tags r'))"
  by pat_completeness auto
termination
  by (relation "measure length") (auto dest!: split_first_length)

declare xml_tags.simps [simp del]

fun nest :: "string list \<Rightarrow> string list \<Rightarrow> string list option" where
  "nest st [] = Some st"
| "nest st (t # ts) =
     (if t = [] then None
      else if hd t = CHR ''?'' then nest st ts
      else if hd t = CHR ''/'' then
        (case st of [] \<Rightarrow> None | x # st' \<Rightarrow> if x = tl t then nest st' ts else None)
      else if last t = CHR ''/'' then nest st ts
      else nest (takeWhile (\<lambda>c. c \<noteq> CHR '' '') t # st) ts)"

definition well_nested :: "string \<Rightarrow> bool" where
  "well_nested doc \<longleftrightarrow> nest [] (xml_tags doc) = Some []"

lemma xml_tags_skip: "CHR ''<'' \<notin> set a \<Longrightarrow> xml_tags (a @ s) = xml_tags s"
proof -
  assume a: "CHR ''<'' \<notin> set a"
  then have "split_first (CHR ''<'') (a @ s)
      = map_option (\<lambda>(x, y). (a @ x, y)) (split_first (CHR ''<'') s)"
    by (induction a) (auto split: option.split prod.split simp: option.map_id)
  then show ?thesis
    by (subst (1 2) xml_tags.simps) (auto split: option.split)
qed

lemma xml_tags_Nil [simp]: "xml_tags [] = []"
  by (subst xml_tags.simps) simp

lemma xml_tags_Cons: "c \<noteq> CHR ''<'' \<Longrightarrow> xml_tags (c # s) = xml_tags s"
  using xml_tags_skip [of "[c]" s] by simp

lemma xml_tags_tag:
  "CHR ''>'' \<notin> set t \<Longrightarrow> xml_tags (CHR ''<'' # t @ CHR ''>'' # s) = t # xml_tags s"
  by (subst xml_tags.simps) simp

text \<open>A line of the document holds one tag.\<close>

definition tag_line :: "string \<Rightarrow> string \<Rightarrow> bool" where
  "tag_line ln t \<longleftrightarrow>
     (\<exists>a. ln = a @ CHR ''<'' # t @ CHR ''>'' # nl \<and> CHR ''<'' \<notin> set a \<and> CHR ''>'' \<notin> set t)"

lemma xml_tags_line: "tag_line ln t \<Longrightarrow> xml_tags (ln @ s) = t # xml_tags s"
  by (auto simp: tag_line_def xml_tags_skip xml_tags_tag nl_def xml_tags_Cons)

lemma tag_lineI:
  "ln = a @ CHR ''<'' # t @ CHR ''>'' # nl \<Longrightarrow> CHR ''<'' \<notin> set a \<Longrightarrow> CHR ''>'' \<notin> set t \<Longrightarrow> tag_line ln t"
  unfolding tag_line_def by blast

lemma set_EdmTypeName: "CHR ''>'' \<notin> set (EdmTypeName t)"
  by (cases t) simp_all

text \<open>A line of an empty element leaves the stack of open elements alone.\<close>

definition neutral :: "string \<Rightarrow> bool" where
  "neutral x \<longleftrightarrow> (\<forall>st s. nest st (xml_tags (x @ s)) = nest st (xml_tags s))"

lemma neutral_Nil [simp]: "neutral []"
  by (simp add: neutral_def)

lemma neutral_append: "neutral x \<Longrightarrow> neutral y \<Longrightarrow> neutral (x @ y)"
  by (simp add: neutral_def)

lemma neutral_concat_map: "(\<And>x. x \<in> set xs \<Longrightarrow> neutral (f x)) \<Longrightarrow> neutral (concat (map f xs))"
  by (induction xs) (auto intro: neutral_append)

lemma neutral_empty_element:
  assumes "tag_line ln (t @ ''/'')" "t \<noteq> []" "hd t \<noteq> CHR ''?''" "hd t \<noteq> CHR ''/''"
  shows "neutral ln"
  using assms by (auto simp: neutral_def xml_tags_line)

lemma neutral_element:
  assumes "tag_line ln1 (n @ as)" "tag_line ln2 (CHR ''/'' # n)" "neutral x"
    and "n \<noteq> []" "hd n \<noteq> CHR ''?''" "hd n \<noteq> CHR ''/''" "CHR '' '' \<notin> set n"
    and "as = [] \<or> hd as = CHR '' ''" "last (n @ as) \<noteq> CHR ''/''"
  shows "neutral (ln1 @ x @ ln2)"
proof -
  have "takeWhile (\<lambda>c. c \<noteq> CHR '' '') (n @ as) = n"
    using assms(7,8) by (intro takeWhile_append_stop) auto
  moreover have "hd (n @ as) = hd n" using assms(4) by simp
  ultimately show ?thesis
    using assms by (simp add: neutral_def xml_tags_line)
qed

lemma neutral_property_ref: "neutral (property_ref_xml p)"
  by (rule neutral_empty_element [OF tag_lineI [where a = "''          ''"
        and t = "(''PropertyRef Name=\"'' @ XmlEscape (p_name p) @ ''\"'') @ ''/''"]])
     (simp_all add: property_ref_xml_def)

lemma neutral_property: "neutral (property_xml p)"
  by (rule neutral_empty_element [OF tag_lineI [where a = "''        ''"
        and t = "(''Property Name=\"'' @ XmlEscape (p_name p) @ ''\" Type=\"'' @
                  EdmTypeName (p_edm_type p) @ ''\"'' @
                  (if \<not> p_nullable p then '' Nullable=\"false\"'' else [])) @ ''/''"]])
     (simp_all add: property_xml_def set_EdmTypeName)

lemma neutral_entity_set: "neutral (entity_set_xml e)"
  by (rule neutral_empty_element [OF tag_lineI [where a = "''        ''"
        and t = "(''EntitySet Name=\"'' @ XmlEscape (e_name e) @ ''\" EntityType=\"DuckDB.'' @
                  XmlEscape (e_name e) @ ''\"'') @ ''/''"]])
     (simp_all add: entity_set_xml_def)

lemma neutral_key: "neutral (key_xml e)"
proof (cases "e_has_key e")
  case True
  have "neutral ((''        <Key>'' @ nl) @ concat (map property_ref_xml (filter p_is_key (e_properties e)))
      @ (''        </Key>'' @ nl))"
    by (rule neutral_element [where n = "''Key''" and as = "[]",
          OF tag_lineI [where a = "''        ''"] tag_lineI [where a = "''        ''"]])
       (simp_all add: neutral_concat_map neutral_property_ref)
  with True show ?thesis by (simp add: key_xml_def)
qed (simp add: key_xml_def)

lemma neutral_entity_type: "neutral (entity_type_xml e)"
proof -
  let ?as = "'' Name=\"'' @ XmlEscape (e_name e) @ ''\"''"
  have "neutral ((''      <EntityType Name=\"'' @ XmlEscape (e_name e) @ ''\">'' @ nl) @
      (key_xml e @ concat (map property_xml (filter p_serializable (e_properties e)))) @
      (''      </EntityType>'' @ nl))"
    by (rule neutral_element [where n = "''EntityType''" and as = ?as,
          OF tag_lineI [where a = "''      ''"] tag_lineI [where a = "''      ''"]])
       (simp_all add: neutral_concat_map neutral_property neutral_key neutral_append)
  then show ?thesis by (simp add: entity_type_xml_def)
qed

lemma neutral_static_element:
  assumes "neutral x" "n \<in> {''edmx:Edmx'', ''edmx:DataServices'', ''Schema'', ''EntityContainer''}"
    and "ln1 = ind @ CHR ''<'' # n @ as @ CHR ''>'' # nl" "ln2 = ind @ CHR ''<'' # CHR ''/'' # n @ CHR ''>'' # nl"
    and "CHR ''<'' \<notin> set ind" "CHR ''>'' \<notin> set as" "as = [] \<or> hd as = CHR '' ''"
    and "last (n @ as) \<noteq> CHR ''/''"
  shows "neutral (ln1 @ x @ ln2)"
proof (rule neutral_element [where n = n and as = as])
  show "tag_line ln1 (n @ as)" using assms by (intro tag_lineI [where a = ind]) auto
  show "tag_line ln2 (CHR ''/'' # n)" using assms by (intro tag_lineI [where a = ind]) auto
qed (use assms in auto)

lemma neutral_declaration: "tag_line ln t \<Longrightarrow> t \<noteq> [] \<Longrightarrow> hd t = CHR ''?'' \<Longrightarrow> neutral ln"
  by (simp add: neutral_def xml_tags_line)

lemma neutral_well_nested: "neutral doc \<Longrightarrow> well_nested doc"
  unfolding neutral_def well_nested_def by (drule spec [of _ "[]"], drule spec [of _ "[]"]) simp

lemma GenerateEdmx_nested: "well_nested (GenerateEdmx model)"
proof -
  let ?types = "concat (map entity_type_xml model)"
  define container where "container =
    (''      <EntityContainer Name=\"DuckDBContext\">'' @ nl) @ concat (map entity_set_xml model) @
    (''      </EntityContainer>'' @ nl)"
  define schema where "schema =
    (''    <Schema Namespace=\"DuckDB\" xmlns=\"http://docs.oasis-open.org/odata/ns/edm\">'' @ nl) @
    (?types @ container) @ (''    </Schema>'' @ nl)"
  define services where "services =
    (''  <edmx:DataServices>'' @ nl) @ schema @ (''  </edmx:DataServices>'' @ nl)"
  define root where "root =
    (''<edmx:Edmx Version=\"4.0\" xmlns:edmx=\"http://docs.oasis-open.org/odata/ns/edmx\">'' @ nl) @
    services @ (''</edmx:Edmx>'' @ nl)"
  have "neutral container"
    unfolding container_def
    by (rule neutral_static_element [where ind = "''      ''" and n = "''EntityContainer''"
          and as = "'' Name=\"DuckDBContext\"''"])
       (simp_all add: neutral_concat_map neutral_entity_set)
  then have "neutral schema"
    unfolding schema_def
    by (intro neutral_static_element [where ind = "''    ''" and n = "''Schema''"
          and as = "'' Namespace=\"DuckDB\" xmlns=\"http://docs.oasis-open.org/odata/ns/edm\"''"])
       (simp_all add: neutral_concat_map neutral_entity_type neutral_append)
  then have "neutral services"
    unfolding services_def
    by (intro neutral_static_element [where ind = "''  ''" and n = "''edmx:DataServices''" and as = "[]"])
       simp_all
  then have rt: "neutral root"
    unfolding root_def
    by (intro neutral_static_element [where ind = "[]" and n = "''edmx:Edmx''"
          and as = "'' Version=\"4.0\" xmlns:edmx=\"http://docs.oasis-open.org/odata/ns/edmx\"''"])
       simp_all
  have hdr: "neutral (''<?xml version=\"1.0\" encoding=\"utf-8\"?>'' @ nl)"
    by (rule neutral_declaration [OF tag_lineI [where a = "[]"
          and t = "''?xml version=\"1.0\" encoding=\"utf-8\"?''"]]) simp_all
  have "neutral ((''<?xml version=\"1.0\" encoding=\"utf-8\"?>'' @ nl) @ root)"
    using hdr rt by (rule neutral_append)
  moreover have "GenerateEdmx model = (''<?xml version=\"1.0\" encoding=\"utf-8\"?>'' @ nl) @ root"
    by (simp add: GenerateEdmx_def root_def services_def schema_def container_def)
  ultimately show ?thesis by (simp only: neutral_well_nested)
qed

end
