(* ===== verification/Duck_Db.thy ===== *)
theory Duck_Db
  imports Cpp_Double
begin

text \<open>
  DuckDB as the extension uses it. The database is not part of the repository: it is a parameter, a
  record of the calls the code makes on a \<open>Connection\<close> (\<open>Query\<close>, \<open>Query\<close> under a watchdog that
  calls \<open>Interrupt\<close> after some milliseconds, \<open>Prepare\<close>, \<open>Execute\<close>) over an arbitrary state. A value is what the code observes of a \<open>duckdb::Value\<close>; an access that DuckDB
  answers with an exception is a \<open>DuckDBException\<close>. \<open>logging\<close> wraps a database so that the calls
  made on it are recorded.
\<close>

section \<open>Values and results\<close>

datatype LogicalTypeId =
    LT_BOOLEAN | LT_TINYINT | LT_SMALLINT | LT_INTEGER | LT_BIGINT | LT_UTINYINT | LT_USMALLINT
  | LT_UINTEGER | LT_UBIGINT | LT_FLOAT | LT_DOUBLE | LT_HUGEINT | LT_UHUGEINT | LT_DECIMAL
  | LT_VARCHAR | LT_UUID | LT_DATE | LT_TIME | LT_TIMESTAMP | LT_TIMESTAMP_SEC | LT_TIMESTAMP_MS
  | LT_TIMESTAMP_NS | LT_TIMESTAMP_TZ | LT_BLOB | LT_OTHER

record dvalue =
  dv_null :: bool
  dv_type :: LogicalTypeId
  dv_text :: string
  dv_bool :: bool
  dv_real :: double
  dv_blob :: string
  dv_int64 :: "int res"
  dv_children :: "string list res"

datatype ErrorType = CONSTRAINT | TRANSACTION | OTHER_ERROR

text \<open>A result: an error, or the column names and the chunks of rows that \<open>Fetch\<close> gives.\<close>

record qresult =
  qr_error :: "(ErrorType \<times> string) option"
  qr_names :: "string list"
  qr_chunks :: "dvalue list list list"

datatype dparam = ParamNull | ParamText string | ParamBool bool

record 'db duck =
  duck_query :: "string \<Rightarrow> 'db \<Rightarrow> qresult \<times> 'db"
  duck_query_within :: "int \<Rightarrow> string \<Rightarrow> 'db \<Rightarrow> qresult \<times> 'db"
  duck_prepare :: "string \<Rightarrow> 'db \<Rightarrow> string option \<times> 'db"
  duck_execute :: "string \<Rightarrow> dparam list \<Rightarrow> 'db \<Rightarrow> qresult \<times> 'db"

definition result_rows :: "qresult \<Rightarrow> dvalue list list" where
  "result_rows q = concat (qr_chunks q)"

text \<open>\<open>GetValue(column, row)\<close>; outside the result DuckDB raises an internal exception.\<close>

definition cell :: "dvalue list list \<Rightarrow> nat \<Rightarrow> nat \<Rightarrow> dvalue res" where
  "cell rows r c =
     (if r < length rows \<and> c < length (rows ! r) then Inr (rows ! r ! c)
      else Inl (DuckDBException ''invalid cell access''))"

section \<open>Computations on a connection\<close>

type_synonym ('db, 'a) dbm = "'db \<Rightarrow> 'a res \<times> 'db"

definition returnD :: "'a \<Rightarrow> ('db, 'a) dbm" where
  "returnD x = (\<lambda>db. (Inr x, db))"

definition throwD :: "exn \<Rightarrow> ('db, 'a) dbm" where
  "throwD e = (\<lambda>db. (Inl e, db))"

definition liftD :: "'a res \<Rightarrow> ('db, 'a) dbm" where
  "liftD r = (\<lambda>db. (r, db))"

definition bindD :: "('db, 'a) dbm \<Rightarrow> ('a \<Rightarrow> ('db, 'b) dbm) \<Rightarrow> ('db, 'b) dbm" where
  "bindD m f = (\<lambda>db. case m db of (Inl e, db') \<Rightarrow> (Inl e, db') | (Inr x, db') \<Rightarrow> f x db')"

text \<open>\<open>LocalDuckDBExecutor::Execute\<close> of \<open>src/src/execution/query_executor.cpp\<close>.\<close>

definition ExecuteQuery :: "'db duck \<Rightarrow> string \<Rightarrow> int \<Rightarrow> ('db, qresult) dbm" where
  "ExecuteQuery D sql timeout_ms =
     (\<lambda>db. case (if timeout_ms \<le> 0 then duck_query D sql db
                  else duck_query_within D timeout_ms sql db) of (q, db') \<Rightarrow> (Inr q, db'))"

definition queryD :: "'db duck \<Rightarrow> string \<Rightarrow> ('db, qresult) dbm" where
  "queryD D sql = (\<lambda>db. case duck_query D sql db of (q, db') \<Rightarrow> (Inr q, db'))"

lemma dbm_simps [simp]:
  "bindD (returnD x) f = f x" "bindD (throwD e) f = throwD e"
  "bindD (liftD (Inr x)) f = f x" "bindD (liftD (Inl e)) f = throwD e"
  "returnD x db = (Inr x, db)" "throwD e db = (Inl e, db)" "liftD r db = (r, db)"
  by (simp_all add: bindD_def returnD_def throwD_def liftD_def)

lemma bindD_Inr: "m db = (Inr x, db') \<Longrightarrow> bindD m f db = f x db'"
  by (simp add: bindD_def)

lemma bindD_Inl: "m db = (Inl e, db') \<Longrightarrow> bindD m f db = (Inl e, db')"
  by (simp add: bindD_def)

lemma bindD_queryD: "bindD (queryD D sql) f db = (case duck_query D sql db of (q, db') \<Rightarrow> f q db')"
  by (simp add: bindD_def queryD_def split: prod.split)

lemma bindD_eq_Inr:
  "bindD m f db = (Inr y, db'') \<longleftrightarrow> (\<exists>x db'. m db = (Inr x, db') \<and> f x db' = (Inr y, db''))"
  by (auto simp: bindD_def split: prod.splits sum.splits)

lemma bindD_eq_Inl:
  "bindD m f db = (Inl e, db'') \<longleftrightarrow>
     m db = (Inl e, db'') \<or> (\<exists>x db'. m db = (Inr x, db') \<and> f x db' = (Inl e, db''))"
  by (auto simp: bindD_def split: prod.splits sum.splits)

lemma bindD_assoc: "bindD (bindD m f) g = bindD m (\<lambda>x. bindD (f x) g)"
  by (rule ext) (auto simp: bindD_def split: prod.split sum.split)

fun mapD :: "('a \<Rightarrow> ('db, 'b) dbm) \<Rightarrow> 'a list \<Rightarrow> ('db, 'b list) dbm" where
  "mapD f [] = returnD []"
| "mapD f (x # xs) = bindD (f x) (\<lambda>y. bindD (mapD f xs) (\<lambda>ys. returnD (y # ys)))"

section \<open>Recording the calls\<close>

datatype db_event = Query_Call string bool | Timed_Call int string bool | Prepare_Call string bool | Execute_Call string "dparam list" bool

text \<open>Each event carries whether the call succeeded.\<close>

definition logging :: "'db duck \<Rightarrow> ('db \<times> db_event list) duck" where
  "logging D =
     \<lparr>duck_query = (\<lambda>sql (db, evs). case duck_query D sql db of
        (q, db') \<Rightarrow> (q, db', evs @ [Query_Call sql (qr_error q = None)])),
      duck_query_within = (\<lambda>ms sql (db, evs). case duck_query_within D ms sql db of
        (q, db') \<Rightarrow> (q, db', evs @ [Timed_Call ms sql (qr_error q = None)])),
      duck_prepare = (\<lambda>sql (db, evs). case duck_prepare D sql db of
        (e, db') \<Rightarrow> (e, db', evs @ [Prepare_Call sql (e = None)])),
      duck_execute = (\<lambda>sql ps (db, evs). case duck_execute D sql ps db of
        (q, db') \<Rightarrow> (q, db', evs @ [Execute_Call sql ps (qr_error q = None)]))\<rparr>"

lemma logging_simps [simp]:
  "duck_query (logging D) sql (db, evs) = (case duck_query D sql db of
     (q, db') \<Rightarrow> (q, db', evs @ [Query_Call sql (qr_error q = None)]))"
  "duck_query_within (logging D) ms sql (db, evs) = (case duck_query_within D ms sql db of
     (q, db') \<Rightarrow> (q, db', evs @ [Timed_Call ms sql (qr_error q = None)]))"
  "duck_prepare (logging D) sql (db, evs) = (case duck_prepare D sql db of
     (e, db') \<Rightarrow> (e, db', evs @ [Prepare_Call sql (e = None)]))"
  "duck_execute (logging D) sql ps (db, evs) = (case duck_execute D sql ps db of
     (q, db') \<Rightarrow> (q, db', evs @ [Execute_Call sql ps (qr_error q = None)]))"
  by (simp_all add: logging_def)

end
