(* ===== verification/Sql_Lex.thy ===== *)
theory Sql_Lex
  imports String_Util
begin

text \<open>
  The lexical structure of SQL text, the specification the two compilers are checked against. The
  reader accepts one statement only: a semicolon, a comment, a dollar quote, an unclosed quote or
  a prefixed string (\<open>E'..'\<close>) makes it fail. What it reads are the delimited identifiers and the
  string literals with their decoded text; every other character stands for itself.
\<close>

datatype sql_token = Id string | Str string | Ch char

definition starts_quote :: "string \<Rightarrow> bool" where
  "starts_quote s \<longleftrightarrow> s \<noteq> [] \<and> (hd s = CHR 0x22 \<or> hd s = CHR 0x27)"

definition word_char :: "char \<Rightarrow> bool" where
  "word_char c \<longleftrightarrow> isalnum c \<or> c = CHR ''_'' \<or> c = CHR ''&''"

function sql_lex :: "string \<Rightarrow> sql_token list option" where
  "sql_lex s =
     (case s of
        [] \<Rightarrow> Some []
      | c # cs \<Rightarrow>
          if c = CHR 0x22 then
            (case scan_quoted c cs of None \<Rightarrow> None
             | Some (v, r) \<Rightarrow> map_option ((#) (Id v)) (sql_lex r))
          else if c = CHR 0x27 then
            (case scan_quoted c cs of None \<Rightarrow> None
             | Some (v, r) \<Rightarrow> map_option ((#) (Str v)) (sql_lex r))
          else if c = CHR '';'' \<or> c = CHR ''$'' then None
          else if c = CHR ''-'' \<and> cs \<noteq> [] \<and> hd cs = CHR ''-'' then None
          else if c = CHR ''/'' \<and> cs \<noteq> [] \<and> hd cs = CHR ''*'' then None
          else if word_char c \<and> starts_quote cs then None
          else map_option ((#) (Ch c)) (sql_lex cs))"
  by pat_completeness auto
termination
  by (relation "measure length") (auto dest!: scan_quoted_length)

declare sql_lex.simps [simp del]

definition idents_of :: "sql_token list \<Rightarrow> string list" where
  "idents_of ts = concat (map (\<lambda>t. case t of Id v \<Rightarrow> [v] | _ \<Rightarrow> []) ts)"

definition strings_of :: "sql_token list \<Rightarrow> string list" where
  "strings_of ts = concat (map (\<lambda>t. case t of Str v \<Rightarrow> [v] | _ \<Rightarrow> []) ts)"

lemma idents_of_simps [simp]:
  "idents_of [] = []" "idents_of (t # ts) = (case t of Id v \<Rightarrow> [v] | _ \<Rightarrow> []) @ idents_of ts"
  "idents_of (us @ ts) = idents_of us @ idents_of ts" "idents_of (map Ch a) = []"
proof -
  show "idents_of (map Ch a) = []" by (induction a) (auto simp: idents_of_def)
qed (simp_all add: idents_of_def)

lemma strings_of_simps [simp]:
  "strings_of [] = []" "strings_of (t # ts) = (case t of Str v \<Rightarrow> [v] | _ \<Rightarrow> []) @ strings_of ts"
  "strings_of (us @ ts) = strings_of us @ strings_of ts" "strings_of (map Ch a) = []"
proof -
  show "strings_of (map Ch a) = []" by (induction a) (auto simp: strings_of_def)
qed (simp_all add: strings_of_def)

section \<open>Reading text piece by piece\<close>

text \<open>\<open>prepend ts\<close> puts the tokens \<open>ts\<close> before a successful reading.\<close>

definition prepend :: "sql_token list \<Rightarrow> sql_token list option \<Rightarrow> sql_token list option" where
  "prepend ts r = map_option ((@) ts) r"

lemma prepend_simps [simp]:
  "prepend [] r = r" "prepend us (prepend ts r) = prepend (us @ ts) r"
  "prepend ts (Some us) = Some (ts @ us)" "prepend ts None = None"
  by (cases r; simp add: prepend_def)+

lemma map_option_Cons: "map_option ((#) t) r = prepend [t] r"
  by (cases r) (simp_all add: prepend_def)


definition plain_char :: "char \<Rightarrow> bool" where
  "plain_char c \<longleftrightarrow> isalnum c \<or> c \<in> set '' ()[].,=<>*_:?''"

definition plain_text :: "string \<Rightarrow> bool" where
  "plain_text a \<longleftrightarrow> list_all plain_char a"

lemma plain_text_simps [simp]:
  "plain_text []" "plain_text (c # a) \<longleftrightarrow> plain_char c \<and> plain_text a"
  "plain_text (a @ b) \<longleftrightarrow> plain_text a \<and> plain_text b"
  by (simp_all add: plain_text_def)

text \<open>What may stand right after a piece: nothing, or a character that ends every token.\<close>

definition boundary_char :: "char \<Rightarrow> bool" where
  "boundary_char c \<longleftrightarrow> c \<in> set '' ),.''"

definition boundary :: "string \<Rightarrow> bool" where
  "boundary s \<longleftrightarrow> s = [] \<or> boundary_char (hd s)"

lemma boundary_not_quote: "boundary s \<Longrightarrow> \<not> starts_quote s"
  by (auto simp: boundary_def boundary_char_def starts_quote_def)

lemma boundary_quote_free: "boundary s \<Longrightarrow> q = CHR 0x22 \<or> q = CHR 0x27 \<Longrightarrow> quote_free q s"
  by (auto simp: boundary_def boundary_char_def quote_free_def)

lemma sql_lex_plain:
  assumes "plain_char c" "word_char c \<Longrightarrow> \<not> starts_quote cs"
  shows "sql_lex (c # cs) = prepend [Ch c] (sql_lex cs)"
proof -
  have "c \<noteq> CHR 0x22" "c \<noteq> CHR 0x27" "c \<noteq> CHR '';''" "c \<noteq> CHR ''$''" "c \<noteq> CHR ''-''" "c \<noteq> CHR ''/''"
    using assms(1) by (auto simp: plain_char_def)
  with assms(2) show ?thesis by (subst sql_lex.simps) (auto simp: map_option_Cons)
qed

lemma plain_char_not_quote: "plain_char c \<Longrightarrow> \<not> starts_quote (c # cs)"
  by (auto simp: plain_char_def starts_quote_def)

lemma sql_lex_plain_text:
  assumes "plain_text a" "starts_quote rest \<Longrightarrow> a = [] \<or> \<not> word_char (last a)"
  shows "sql_lex (a @ rest) = prepend (map Ch a) (sql_lex rest)"
  using assms
proof (induction a)
  case (Cons c a)
  have "word_char c \<Longrightarrow> \<not> starts_quote (a @ rest)"
    using Cons.prems by (cases a) (auto simp: plain_char_not_quote)
  moreover have "sql_lex (a @ rest) = prepend (map Ch a) (sql_lex rest)"
    using Cons by (cases "a = []") auto
  ultimately show ?case
    using Cons.prems by (simp add: sql_lex_plain prepend_simps)
qed (simp add: prepend_simps)

text \<open>
  \<open>lexes sql toks\<close>: wherever \<open>sql\<close> stands in front of a boundary it is read on its own, as the
  tokens \<open>toks\<close>.
\<close>

definition lexes :: "string \<Rightarrow> sql_token list \<Rightarrow> bool" where
  "lexes sql toks \<longleftrightarrow>
     (\<forall>rest. boundary rest \<longrightarrow> sql_lex (sql @ rest) = prepend toks (sql_lex rest))"

lemma sql_lex_Nil [simp]: "sql_lex [] = Some []"
  by (subst sql_lex.simps) simp

lemma lexes_sql_lex: "lexes sql toks \<Longrightarrow> sql_lex sql = Some toks"
  unfolding lexes_def by (auto simp: boundary_def dest!: spec [of _ "[]"])

text \<open>Glue before, between and after pieces.\<close>

definition glue :: "string \<Rightarrow> bool" where
  "glue g \<longleftrightarrow> plain_text g \<and> (g = [] \<or> \<not> word_char (last g))"

definition glue_after :: "string \<Rightarrow> bool" where
  "glue_after g \<longleftrightarrow> plain_text g \<and> g \<noteq> [] \<and> boundary_char (hd g)"

lemma lexes_glue: "glue g \<Longrightarrow> lexes b toks \<Longrightarrow> lexes (g @ b) (map Ch g @ toks)"
  unfolding lexes_def glue_def by (simp add: sql_lex_plain_text)

lemma glue_after_boundary: "glue_after g \<Longrightarrow> boundary (g @ s)"
  by (cases g) (auto simp: glue_after_def boundary_def)

lemma lexes_glue_after: "lexes a toks \<Longrightarrow> glue_after g \<Longrightarrow> lexes (a @ g) (toks @ map Ch g)"
  unfolding lexes_def
proof (intro allI impI)
  fix rest
  assume a: "\<forall>rest. boundary rest \<longrightarrow> sql_lex (a @ rest) = prepend toks (sql_lex rest)"
    and g: "glue_after g" and r: "boundary rest"
  have "sql_lex (g @ rest) = prepend (map Ch g) (sql_lex rest)"
    using g boundary_not_quote [OF r] by (intro sql_lex_plain_text) (auto simp: glue_after_def)
  with a glue_after_boundary [OF g] show "sql_lex ((a @ g) @ rest) = prepend (toks @ map Ch g) (sql_lex rest)"
    by simp
qed

lemma lexes_append:
  "lexes a ta \<Longrightarrow> glue_after g \<Longrightarrow> glue g \<Longrightarrow> lexes b tb \<Longrightarrow> lexes (a @ g @ b) (ta @ map Ch g @ tb)"
  using lexes_glue [of g b tb] unfolding lexes_def by (simp add: glue_after_boundary)

section \<open>The pieces\<close>

lemma lexes_plain: "plain_text a \<Longrightarrow> lexes a (map Ch a)"
  unfolding lexes_def by (intro allI impI sql_lex_plain_text) (auto dest: boundary_not_quote)

lemma lexes_ident: "lexes (QuoteIdentifier n) [Id n]"
  unfolding lexes_def
proof (intro allI impI)
  fix rest
  assume "boundary rest"
  then show "sql_lex (QuoteIdentifier n @ rest) = prepend [Id n] (sql_lex rest)"
    using ident.quote_scan [of rest n] boundary_quote_free [of rest "CHR 0x22"]
    by (subst sql_lex.simps) (simp add: QuoteIdentifier_def map_option_Cons)
qed

lemma lexes_string: "lexes (QuoteStringLiteral v) [Str v]"
  unfolding lexes_def
proof (intro allI impI)
  fix rest
  assume "boundary rest"
  then show "sql_lex (QuoteStringLiteral v @ rest) = prepend [Str v] (sql_lex rest)"
    using strlit.quote_scan [of rest v] boundary_quote_free [of rest "CHR 0x27"]
    by (subst sql_lex.simps) (simp add: QuoteStringLiteral_def map_option_Cons)
qed

text \<open>A number: a minus sign is not the start of a comment.\<close>

lemma lexes_negative:
  assumes "plain_text a" "a \<noteq> []"
  shows "lexes (CHR ''-'' # a) (map Ch (CHR ''-'' # a))"
  unfolding lexes_def
proof (intro allI impI)
  fix rest
  assume "boundary rest"
  then have rest: "sql_lex (a @ rest) = prepend (map Ch a) (sql_lex rest)"
    using assms boundary_not_quote by (intro sql_lex_plain_text) auto
  have "hd (a @ rest) \<noteq> CHR ''-''" using assms by (cases a) (auto simp: plain_char_def)
  then have "sql_lex (CHR ''-'' # a @ rest) = prepend [Ch (CHR ''-'')] (sql_lex (a @ rest))"
    by (subst sql_lex.simps) (simp add: word_char_def map_option_Cons)
  with rest show "sql_lex ((CHR ''-'' # a) @ rest) = prepend (map Ch (CHR ''-'' # a)) (sql_lex rest)"
    by simp
qed

lemma plain_text_digits: "(\<And>c. c \<in> set a \<Longrightarrow> isdigit c) \<Longrightarrow> plain_text a"
  by (auto simp: plain_text_def list_all_iff plain_char_def isalnum_def)

lemma lexes_to_string: "lexes (to_string v) (map Ch (to_string v))"
proof -
  have "plain_text (nat_to_string n)" for n
    by (rule plain_text_digits) (rule nat_to_string_digits)
  then show ?thesis
    using lexes_negative [of "nat_to_string (nat (- v))"] by (simp add: to_string_def lexes_plain)
qed

section \<open>The strings and the identifiers of a piece\<close>

definition safe_sql :: "string \<Rightarrow> string list \<Rightarrow> string list \<Rightarrow> bool" where
  "safe_sql sql ss ids \<longleftrightarrow> (\<exists>toks. lexes sql toks \<and> strings_of toks = ss \<and> idents_of toks = ids)"

lemma safe_sqlI: "lexes sql toks \<Longrightarrow> strings_of toks = ss \<Longrightarrow> idents_of toks = ids \<Longrightarrow> safe_sql sql ss ids"
  unfolding safe_sql_def by blast

lemma safe_sql_lex:
  "safe_sql sql ss ids \<Longrightarrow> \<exists>toks. sql_lex sql = Some toks \<and> strings_of toks = ss \<and> idents_of toks = ids"
  unfolding safe_sql_def by (blast dest: lexes_sql_lex)

lemma safe_glue: "glue g \<Longrightarrow> safe_sql b ss ids \<Longrightarrow> safe_sql (g @ b) ss ids"
proof -
  assume g: "glue g" and "safe_sql b ss ids"
  then obtain toks where "lexes b toks" "strings_of toks = ss" "idents_of toks = ids"
    unfolding safe_sql_def by blast
  with lexes_glue [OF g] show ?thesis by (intro safe_sqlI [of _ "map Ch g @ toks"]) auto
qed

lemma safe_glue_after: "safe_sql a ss ids \<Longrightarrow> glue_after g \<Longrightarrow> safe_sql (a @ g) ss ids"
proof -
  assume "safe_sql a ss ids" and g: "glue_after g"
  then obtain toks where "lexes a toks" "strings_of toks = ss" "idents_of toks = ids"
    unfolding safe_sql_def by blast
  with lexes_glue_after [OF _ g] show ?thesis by (intro safe_sqlI [of _ "toks @ map Ch g"]) auto
qed

lemma safe_append:
  assumes "safe_sql a ss ids" "glue_after g" "glue g" "safe_sql b ss' ids'"
  shows "safe_sql (a @ g @ b) (ss @ ss') (ids @ ids')"
proof -
  from assms obtain ta tb where "lexes a ta" "lexes b tb" "strings_of ta = ss" "strings_of tb = ss'"
    "idents_of ta = ids" "idents_of tb = ids'"
    unfolding safe_sql_def by blast
  with lexes_append [OF _ assms(2,3)] show ?thesis
    by (intro safe_sqlI [of _ "ta @ map Ch g @ tb"]) auto
qed

lemma safe_plain: "plain_text a \<Longrightarrow> safe_sql a [] []"
  by (rule safe_sqlI [OF lexes_plain]) simp_all

lemma safe_ident: "safe_sql (QuoteIdentifier n) [] [n]"
  by (rule safe_sqlI [OF lexes_ident]) simp_all

lemma safe_string: "safe_sql (QuoteStringLiteral v) [v] []"
  by (rule safe_sqlI [OF lexes_string]) simp_all

lemma safe_negative: "plain_text a \<Longrightarrow> a \<noteq> [] \<Longrightarrow> safe_sql (CHR ''-'' # a) [] []"
  by (rule safe_sqlI [OF lexes_negative]) simp_all

lemma safe_to_string: "safe_sql (to_string v) [] []"
  by (rule safe_sqlI [OF lexes_to_string]) simp_all

text \<open>Pieces separated by commas.\<close>

lemma safe_join:
  assumes "list_all2 (\<lambda>x (ss, ids). safe_sql x ss ids) xs sis" "glue_after sep" "glue sep"
  shows "safe_sql (join_with sep xs) (concat (map fst sis)) (concat (map snd sis))"
  using assms(1)
proof (induction xs sis rule: list_all2_induct)
  case (Cons x xs si sis)
  show ?case
  proof (cases "xs = []")
    case True
    with Cons show ?thesis by (cases si) auto
  next
    case False
    with Cons assms(2,3) show ?thesis
      by (cases si) (auto intro: safe_append)
  qed
qed (simp add: safe_plain)

end
