(* ===== verification/Metadata_Generator.thy ===== *)
theory Metadata_Generator
  imports Edm_Model Duck_Db Sql_Lex
begin

text \<open>
  Entity bindings and the entity model built from the DuckDB catalog,
  \<open>src/src/metadata/metadata_generator.cpp\<close>. The catalog is read through the database parameter; the
  SQL text of every query is the one of the code, and is shown to be read as one statement whose
  strings are the names of the binding.
\<close>

record EntityBinding =
  b_name :: string
  b_table :: string
  b_schema :: string
  b_catalog :: string
  b_keys :: "string list"
  b_columns :: "string list"

definition SqlLiteral :: "string \<Rightarrow> string" where
  "SqlLiteral v = [CHR 0x27] @ concat (map (\<lambda>c. if c = CHR 0x27 then [CHR 0x27, CHR 0x27] else [c]) v) @ [CHR 0x27]"

definition in_quotes :: "string \<Rightarrow> string" where
  "in_quotes s = [CHR 0x27] @ s @ [CHR 0x27]"

definition RunSql :: "'db duck \<Rightarrow> string \<Rightarrow> ('db, qresult) dbm" where
  "RunSql D sql =
     bindD (queryD D sql) (\<lambda>q.
       case qr_error q of
         Some (_, m) \<Rightarrow> throwD (ODataParseException (''catalog introspection failed: '' @ m))
       | None \<Rightarrow> returnD q)"

definition GetString :: "dvalue list list \<Rightarrow> nat \<Rightarrow> nat \<Rightarrow> string res" where
  "GetString rows r c = bindE (cell rows r c) (\<lambda>v. Inr (if dv_null v then [] else dv_text v))"

section \<open>Qualified names\<close>

definition empty_binding :: EntityBinding where
  "empty_binding = \<lparr>b_name = [], b_table = [], b_schema = [], b_catalog = [], b_keys = [], b_columns = []\<rparr>"

definition ParseQualifiedBinding :: "string \<Rightarrow> EntityBinding res" where
  "ParseQualifiedBinding qualified_name =
     (let input = Trim qualified_name
      in if input = [] then Inl (ODataParseException ''empty entity identifier'')
         else
           (let parts = split_on (CHR ''.'') input
            in if list_ex (\<lambda>p. p = []) parts
               then Inl (ODataParseException (''invalid qualified identifier '' @ in_quotes qualified_name))
               else case parts of
                 [t] \<Rightarrow> Inr (empty_binding\<lparr>b_table := t, b_name := t\<rparr>)
               | [s, t] \<Rightarrow> Inr (empty_binding\<lparr>b_schema := s, b_table := t, b_name := s @ ''_'' @ t\<rparr>)
               | [c, s, t] \<Rightarrow>
                   Inr (empty_binding\<lparr>b_catalog := c, b_schema := s, b_table := t,
                                      b_name := c @ ''_'' @ s @ ''_'' @ t\<rparr>)
               | _ \<Rightarrow> Inl (ODataParseException
                   (''too many qualifiers (catalog.schema.table only): '' @ in_quotes qualified_name))))"

text \<open>The result of \<open>ParseQualifiedSchema\<close> is the pair of its reference parameters.\<close>

definition ParseQualifiedSchema :: "string \<Rightarrow> (string \<times> string) res" where
  "ParseQualifiedSchema qualified_name =
     (let input = Trim qualified_name
      in if input = [] then Inl (ODataParseException ''empty schema identifier'')
         else case split_first (CHR ''.'') input of
           None \<Rightarrow> Inr ([], input)
         | Some (catalog, schema) \<Rightarrow>
             if CHR ''.'' \<in> set schema
             then Inl (ODataParseException (''schema reference must be '' @ in_quotes ''schema'' @ '' or '' @
                        in_quotes ''catalog.schema'' @ '': '' @ in_quotes qualified_name))
             else if catalog = [] \<or> schema = []
             then Inl (ODataParseException (''invalid schema identifier '' @ in_quotes qualified_name))
             else Inr (catalog, schema))"

section \<open>Resolving a binding\<close>

definition resolve_sql :: "EntityBinding \<Rightarrow> string" where
  "resolve_sql b =
     ''SELECT database_name, schema_name FROM duckdb_columns() WHERE table_name = '' @ SqlLiteral (b_table b) @
     '' AND NOT internal'' @
     (if b_schema b \<noteq> [] then '' AND schema_name = '' @ SqlLiteral (b_schema b) else []) @
     (if b_catalog b \<noteq> [] then '' AND database_name = '' @ SqlLiteral (b_catalog b) else []) @
     '' GROUP BY database_name, schema_name''"

definition adopt :: "dvalue list list \<Rightarrow> EntityBinding \<Rightarrow> EntityBinding res" where
  "adopt rows b =
     bindE (GetString rows 0 0) (\<lambda>c. bindE (GetString rows 0 1) (\<lambda>s.
       Inr (b\<lparr>b_catalog := c, b_schema := s\<rparr>)))"

definition schema_text :: "EntityBinding \<Rightarrow> string" where
  "schema_text b = in_quotes (if b_schema b = [] then ''<current>'' else b_schema b)"

definition resolve_rows :: "dvalue list list \<Rightarrow> EntityBinding \<Rightarrow> EntityBinding res" where
  "resolve_rows rows b =
     (if b_schema b = [] \<and> b_catalog b = [] then
        (if length rows = 0 then
           Inl (ODataParseException (''table '' @ in_quotes (b_table b) @ '' does not exist''))
         else if 1 < length rows then
           Inl (ODataParseException (''table '' @ in_quotes (b_table b) @
             '' exists in multiple schemas; qualify it, e.g. odata_expose('' @ in_quotes ''schema.table'' @ '')''))
         else adopt rows b)
      else if length rows = 0 then
        Inl (ODataParseException (''table '' @ in_quotes (b_table b) @ '' does not exist in schema '' @
          schema_text b))
      else if b_catalog b = [] \<and> 1 < length rows then
        Inl (ODataParseException (''table '' @ in_quotes (b_table b) @
          '' exists in multiple catalogs under schema '' @ in_quotes (b_schema b) @
          ''; qualify it, e.g. odata_expose('' @ in_quotes ''catalog.schema.table'' @ '')''))
      else adopt rows b)"

definition ResolveBindingTable :: "'db duck \<Rightarrow> EntityBinding \<Rightarrow> ('db, EntityBinding) dbm" where
  "ResolveBindingTable D b =
     bindD (RunSql D (resolve_sql b)) (\<lambda>q. liftD (resolve_rows (result_rows q) b))"

section \<open>Building an entity\<close>

definition scope :: "string \<Rightarrow> string \<Rightarrow> string" where
  "scope current name = (if name = [] then current else SqlLiteral name)"

definition columns_sql :: "EntityBinding \<Rightarrow> string" where
  "columns_sql b =
     ''SELECT column_name, data_type, is_nullable, database_name, schema_name FROM duckdb_columns() WHERE '' @
     ''database_name = '' @ scope ''current_catalog()'' (b_catalog b) @
     '' AND schema_name = '' @ scope ''current_schema()'' (b_schema b) @
     '' AND table_name = '' @ SqlLiteral (b_table b) @
     '' AND NOT internal ORDER BY column_index''"

definition constraints_sql :: "EntityBinding \<Rightarrow> string" where
  "constraints_sql b =
     ''SELECT constraint_column_names FROM duckdb_constraints() WHERE constraint_type = '' @
     in_quotes ''PRIMARY KEY'' @ '' AND table_name = '' @ SqlLiteral (b_table b) @
     '' AND database_name = '' @ scope ''current_catalog()'' (b_catalog b) @
     '' AND schema_name = '' @ scope ''current_schema()'' (b_schema b)"

definition row_property :: "dvalue list list \<Rightarrow> nat \<Rightarrow> EdmProperty res" where
  "row_property rows r =
     bindE (GetString rows r 0) (\<lambda>name.
     bindE (GetString rows r 1) (\<lambda>ty.
     bindE (cell rows r 2) (\<lambda>null_val.
       Inr \<lparr>p_name = name, p_edm_type = fst (DuckDBTypeToEdm ty),
            p_nullable = (dv_null null_val \<or> dv_bool null_val), p_is_key = False,
            p_duckdb_type = ty, p_serializable = snd (DuckDBTypeToEdm ty)\<rparr>)))"

definition find_column :: "EdmProperty list \<Rightarrow> string \<Rightarrow> EdmProperty option" where
  "find_column props k = find (\<lambda>p. ToLower (p_name p) = ToLower k) props"

definition configured_key :: "EntityBinding \<Rightarrow> EdmProperty list \<Rightarrow> string \<Rightarrow> string res" where
  "configured_key b props k =
     (case find_column props k of
        Some p \<Rightarrow> Inr (p_name p)
      | None \<Rightarrow> Inl (ODataParseException (''key column '' @ in_quotes k @ '' does not exist on table '' @
                 in_quotes (b_table b))))"

text \<open>The loop over the primary key constraints: the first one of a single known column.\<close>

fun primary_key :: "EdmProperty list \<Rightarrow> dvalue list list \<Rightarrow> string list res" where
  "primary_key props [] = Inr []"
| "primary_key props (row # rows) =
     bindE (cell [row] 0 0) (\<lambda>v.
     bindE (dv_children v) (\<lambda>cols.
       if length cols = 1 then
         (case find_column props (hd cols) of
            Some p \<Rightarrow> Inr [p_name p]
          | None \<Rightarrow> primary_key props rows)
       else primary_key props rows))"

definition resolve_keys :: "'db duck \<Rightarrow> EntityBinding \<Rightarrow> EdmProperty list \<Rightarrow> ('db, string list) dbm" where
  "resolve_keys D b props =
     (if b_keys b \<noteq> [] then liftD (mapE (configured_key b props) (b_keys b))
      else
        bindD (RunSql D (constraints_sql b)) (\<lambda>cons.
        bindD (liftD (primary_key props (result_rows cons))) (\<lambda>keys.
          returnD (if keys = [] then [p_name (hd props)] else keys))))"

definition mark_keys :: "string list \<Rightarrow> EdmProperty list \<Rightarrow> EdmProperty list" where
  "mark_keys keys props =
     map (\<lambda>p. if list_ex (\<lambda>k. ToLower (p_name p) = ToLower k) keys then p\<lparr>p_is_key := True\<rparr> else p) props"

definition msg_not_readable :: "EntityBinding \<Rightarrow> string" where
  "msg_not_readable b =
     ''table '' @ in_quotes (b_table b) @ '' does not exist or is not readable in schema '' @ schema_text b @
     (if b_schema b = [] then
        ''; table may live in another schema - qualify it, e.g. odata_expose('' @ in_quotes ''schema.table'' @ '')''
      else [])"

definition BuildEntity :: "'db duck \<Rightarrow> EntityBinding \<Rightarrow> ('db, EdmEntity) dbm" where
  "BuildEntity D b =
     bindD (RunSql D (columns_sql b)) (\<lambda>q.
       let rows = result_rows q
       in if rows = [] then throwD (ODataParseException (msg_not_readable b))
          else
            bindD (liftD (GetString rows 0 3)) (\<lambda>catalog.
            bindD (liftD (GetString rows 0 4)) (\<lambda>schema.
            bindD (liftD (mapE (row_property rows) [0..<length rows])) (\<lambda>props.
            bindD (resolve_keys D b props) (\<lambda>keys.
              returnD \<lparr>e_name = b_name b, e_catalog = catalog, e_schema = schema, e_table = b_table b,
                       e_properties = mark_keys keys props, e_has_key = (keys \<noteq> [])\<rparr>)))))"

definition BuildModel :: "'db duck \<Rightarrow> EntityBinding list \<Rightarrow> ('db, EdmModel) dbm" where
  "BuildModel D bs = mapD (BuildEntity D) bs"

section \<open>The quoting of names\<close>

lemma SqlLiteral_eq: "SqlLiteral v = QuoteStringLiteral v"
  by (simp add: SqlLiteral_def QuoteStringLiteral_def double_quotes_def)

interpretation sqllit: sql_quoting "CHR 0x27" SqlLiteral
  by unfold_locales (simp_all add: SqlLiteral_eq QuoteStringLiteral_def scan_double_quotes)

lemma safe_SqlLiteral: "safe_sql (SqlLiteral v) [v] []"
  by (simp add: SqlLiteral_eq safe_string)

definition scope_strings :: "string \<Rightarrow> string list" where
  "scope_strings name = (if name = [] then [] else [name])"

lemma safe_scope:
  "plain_text current \<Longrightarrow> safe_sql (scope current name) (scope_strings name) []"
  by (simp add: scope_def scope_strings_def safe_SqlLiteral safe_plain)

lemma safe_columns_sql:
  "safe_sql (columns_sql b) (scope_strings (b_catalog b) @ scope_strings (b_schema b) @ [b_table b]) []"
proof -
  let ?g = "''SELECT column_name, data_type, is_nullable, database_name, schema_name FROM duckdb_columns() WHERE '' @
     ''database_name = ''"
  have g: "glue ?g" "glue_after '' AND schema_name = ''" "glue '' AND schema_name = ''"
    "glue_after '' AND table_name = ''" "glue '' AND table_name = ''"
    "glue_after '' AND NOT internal ORDER BY column_index''" "plain_text ''current_catalog()''"
    "plain_text ''current_schema()''"
    by (simp_all add: glue_def glue_after_def plain_char_def boundary_char_def word_char_def)
  have "safe_sql (?g @ (scope ''current_catalog()'' (b_catalog b) @ '' AND schema_name = '' @
      (scope ''current_schema()'' (b_schema b) @ '' AND table_name = '' @
       (SqlLiteral (b_table b) @ '' AND NOT internal ORDER BY column_index''))))
    (scope_strings (b_catalog b) @ (scope_strings (b_schema b) @ [b_table b])) ([] @ ([] @ []))"
    using g by (intro safe_glue safe_append safe_glue_after safe_scope safe_SqlLiteral)
  then show ?thesis by (simp add: columns_sql_def)
qed

section \<open>Keys of a built entity\<close>

lemma find_column_SomeD:
  "find_column props k = Some p \<Longrightarrow> p \<in> set props \<and> ToLower (p_name p) = ToLower k"
  unfolding find_column_def by (drule find_SomeD) simp

lemma primary_key_mem: "primary_key props rows = Inr keys \<Longrightarrow> set keys \<subseteq> p_name ` set props"
proof (induction rows)
  case (Cons row rows)
  from Cons.prems obtain cols where
    "(if length cols = 1 then
        (case find_column props (hd cols) of Some p \<Rightarrow> Inr [p_name p] | None \<Rightarrow> primary_key props rows)
      else primary_key props rows) = Inr keys"
    by (auto simp: bindE_Inr_iff)
  then show ?case
    using Cons.IH by (auto split: if_splits option.splits dest!: find_column_SomeD)
qed simp

lemma configured_keys_mem:
  "mapE (configured_key b props) ks = Inr keys \<Longrightarrow>
     set keys \<subseteq> p_name ` set props \<and> length keys = length ks"
  by (induction ks arbitrary: keys)
     (auto simp: bindE_Inr_iff configured_key_def dest!: find_column_SomeD split: option.splits)

lemma resolve_keys_mem:
  assumes "resolve_keys D b props db = (Inr keys, db')" "props \<noteq> []"
  shows "keys \<noteq> [] \<and> set keys \<subseteq> p_name ` set props"
proof (cases "b_keys b = []")
  case True
  with assms show ?thesis
    by (auto simp: resolve_keys_def bindD_eq_Inr liftD_def returnD_def dest!: primary_key_mem split: if_splits)
next
  case False
  with assms configured_keys_mem [of b props "b_keys b" keys] show ?thesis
    by (auto simp: resolve_keys_def liftD_def)
qed

lemma mark_keys_names [simp]: "map p_name (mark_keys keys props) = map p_name props"
  by (simp add: mark_keys_def)

lemma row_properties_length:
  "mapE (row_property rows) [0..<n] = Inr props \<Longrightarrow> length props = n"
  using mapE_Inr_length by force

text \<open>Every entity that is built has a key column, and its columns are those of the catalog rows.\<close>

lemma BuildEntity_shape:
  assumes "BuildEntity D b db = (Inr ent, db')"
  shows "e_name ent = b_name b \<and> e_table ent = b_table b \<and> e_has_key ent
    \<and> (\<exists>p \<in> set (e_properties ent). p_is_key p)"
proof -
  from assms obtain q db1 catalog schema props keys db2 where
    rows: "result_rows q \<noteq> []" and
    props: "mapE (row_property (result_rows q)) [0..<length (result_rows q)] = Inr props" and
    keys: "resolve_keys D b props db1 = (Inr keys, db2)" and
    ent: "ent = \<lparr>e_name = b_name b, e_catalog = catalog, e_schema = schema, e_table = b_table b,
                 e_properties = mark_keys keys props, e_has_key = (keys \<noteq> [])\<rparr>"
    by (auto simp: BuildEntity_def Let_def bindD_eq_Inr liftD_def returnD_def throwD_def split: if_splits)
  from rows row_properties_length [OF props] have "props \<noteq> []" by auto
  with resolve_keys_mem [OF keys] have k: "keys \<noteq> []" "set keys \<subseteq> p_name ` set props" by auto
  then obtain p where p: "p \<in> set props" "p_name p \<in> set keys"
    by (metis hd_in_set image_iff subsetD)
  then have "list_ex (\<lambda>k. ToLower (p_name p) = ToLower k) keys" by (auto simp: list_ex_iff)
  with p(1) have "p\<lparr>p_is_key := True\<rparr> \<in> set (mark_keys keys props)"
    unfolding mark_keys_def by (force simp: image_iff)
  then show ?thesis using k(1) by (auto simp: ent intro!: bexI [of _ "p\<lparr>p_is_key := True\<rparr>"])
qed

section \<open>Qualified names are read back\<close>

definition name_part :: "string \<Rightarrow> bool" where
  "name_part p \<longleftrightarrow> p \<noteq> [] \<and> CHR ''.'' \<notin> set p \<and> trimmed p"

lemma ParseQualifiedBinding_parts:
  assumes "ps \<noteq> []" "\<forall>p \<in> set ps. name_part p" "length ps \<le> 3"
  shows "ParseQualifiedBinding (join_with ''.'' ps) =
    Inr (empty_binding\<lparr>b_catalog := (if length ps = 3 then ps ! 0 else []),
                       b_schema := (if length ps = 1 then [] else ps ! (length ps - 2)),
                       b_table := last ps, b_name := join_with ''_'' ps\<rparr>)"
proof -
  have sp: "split_on (CHR ''.'') (join_with ''.'' ps) = ps"
    using assms(1,2) by (intro split_on_join) (auto simp: name_part_def)
  have ne: "\<not> list_ex (\<lambda>p. p = []) ps" using assms(2) by (auto simp: list_ex_iff name_part_def)
  have key: "ParseQualifiedBinding (join_with ''.'' ps) =
      (case ps of
         [t] \<Rightarrow> Inr (empty_binding\<lparr>b_table := t, b_name := t\<rparr>)
       | [s, t] \<Rightarrow> Inr (empty_binding\<lparr>b_schema := s, b_table := t, b_name := s @ ''_'' @ t\<rparr>)
       | [c, s, t] \<Rightarrow> Inr (empty_binding\<lparr>b_catalog := c, b_schema := s, b_table := t,
                                      b_name := c @ ''_'' @ s @ ''_'' @ t\<rparr>)
       | _ \<Rightarrow> Inl (ODataParseException (''too many qualifiers (catalog.schema.table only): '' @
            in_quotes (join_with ''.'' ps))))"
    if "trimmed (join_with ''.'' ps)" "join_with ''.'' ps \<noteq> []"
    using that Trim_trimmed [OF that(1)] unfolding ParseQualifiedBinding_def Let_def
    by (simp only: sp ne if_False)
  consider a where "ps = [a]" | a b where "ps = [a, b]" | a b c where "ps = [a, b, c]"
    using assms(1,3) by (cases ps; cases "tl ps"; cases "tl (tl ps)") auto
  then show ?thesis
  proof cases
    case 1
    with assms(2) key show ?thesis by (simp add: name_part_def empty_binding_def)
  next
    case 2
    with assms(2) key show ?thesis by (auto simp: name_part_def trimmed_def empty_binding_def)
  next
    case 3
    with assms(2) key show ?thesis by (auto simp: name_part_def trimmed_def empty_binding_def)
  qed
qed

lemma ParseQualifiedBinding_Inl:
  "ParseQualifiedBinding s = Inl e \<Longrightarrow> \<exists>m. e = ODataParseException m"
  by (auto simp: ParseQualifiedBinding_def Let_def split: if_splits list.splits)

end
