(* ===== verification/Routing.thy ===== *)
theory Routing
  imports Http_Response Metadata_Generator Filter_Parser Query_Options
begin

text \<open>
  The pure helpers of the request handler, the anonymous namespace of
  \<open>src/src/server/odata_server.cpp\<close>: responses, addresses, routes, the depth check of \<open>$filter\<close>,
  the column policy and the link to the next page.
\<close>

section \<open>Responses\<close>

definition MakeError :: "int \<Rightarrow> string \<Rightarrow> string \<Rightarrow> HttpResponse" where
  "MakeError status err_code message =
     \<lparr>rs_status = status, rs_headers = map_put ''Content-Type'' ''application/json'' [],
      rs_body = ''{\"error\":{\"code\":\"'' @ err_code @ ''\",\"message\":\"'' @ JsonEscape message @ ''\"}}''\<rparr>"

definition MakeJson :: "int \<Rightarrow> string \<Rightarrow> HttpResponse" where
  "MakeJson status body =
     \<lparr>rs_status = status,
      rs_headers = map_put ''OData-Version'' ''4.0''
        (map_put ''Content-Type'' ''application/json;odata.metadata=minimal;charset=utf-8'' []),
      rs_body = body\<rparr>"

definition EntityContextUri :: "string \<Rightarrow> string \<Rightarrow> bool \<Rightarrow> string" where
  "EntityContextUri base_path entity_name single_entity =
     base_path @ ''/$metadata#'' @ entity_name @ (if single_entity then ''/$entity'' else [])"

section \<open>Addresses\<close>

text \<open>\<open>None\<close> is the \<open>false\<close> of an invalid address; otherwise host, port and path.\<close>

definition ParseAddress :: "string \<Rightarrow> (string \<times> int \<times> string) option" where
  "ParseAddress address =
     (if address = [] then Some (''localhost'', 0, ''/odata'')
      else
        (let a = (case find_sub ''://'' address of None \<Rightarrow> address | Some i \<Rightarrow> drop (i + 3) address);
             (hostport, rest) = (case split_first (CHR ''/'') a of None \<Rightarrow> (a, []) | Some hr \<Rightarrow> hr);
             path = (if rest \<noteq> [] then CHR ''/'' # rest else ''/odata'')
         in case split_last (CHR '':'') hostport of
              None \<Rightarrow> Some (if hostport \<noteq> [] then hostport else ''0.0.0.0'', 8080, path)
            | Some (h, port_str) \<Rightarrow>
                if CHR '']'' \<in> set hostport then Some (hostport, 8080, path)
                else (case stoi port_str of
                        Inl _ \<Rightarrow> None
                      | Inr port \<Rightarrow> Some (if h \<noteq> [] then h else ''0.0.0.0'', port, path))))"

section \<open>Routes\<close>

record Route =
  r_service_doc :: bool
  r_metadata :: bool
  r_health :: bool
  r_invalid_key :: bool
  r_entity :: string
  r_keys :: "string list"
  r_rest :: string

definition empty_route :: Route where
  "empty_route =
     \<lparr>r_service_doc = False, r_metadata = False, r_health = False, r_invalid_key = False,
      r_entity = [], r_keys = [], r_rest = []\<rparr>"

text \<open>The search for the closing parenthesis: the key text and what follows it.\<close>

fun scan_key :: "bool \<Rightarrow> string \<Rightarrow> string \<Rightarrow> (string \<times> string) option" where
  "scan_key quoted acc [] = None"
| "scan_key quoted acc [c] =
     (if c = CHR 0x27 then None
      else if \<not> quoted \<and> c = CHR '')'' then Some (acc, [])
      else None)"
| "scan_key quoted acc (c # d # cs) =
     (if c = CHR 0x27 then
        (if quoted \<and> d = CHR 0x27 then scan_key quoted (acc @ [c, d]) cs
         else scan_key (\<not> quoted) (acc @ [c]) (d # cs))
      else if \<not> quoted \<and> c = CHR '')'' then Some (acc, d # cs)
      else scan_key quoted (acc @ [c]) (d # cs))"

definition entity_route :: "string \<Rightarrow> Route" where
  "entity_route remaining =
     (let stop = (\<lambda>c. c = CHR ''('' \<or> c = CHR ''/'');
          name = takeWhile (\<lambda>c. \<not> stop c) remaining;
          r = empty_route\<lparr>r_entity := name\<rparr>
      in case dropWhile (\<lambda>c. \<not> stop c) remaining of
           [] \<Rightarrow> r
         | c # more_path \<Rightarrow>
             if c = CHR ''('' then
               (case scan_key False [] more_path of
                  None \<Rightarrow> r\<lparr>r_invalid_key := True\<rparr>
                | Some (key_part, rest) \<Rightarrow>
                    r\<lparr>r_keys := (if key_part \<noteq> [] then [Trim key_part] else []), r_rest := rest,
                      r_invalid_key := (key_part = [] \<or> rest \<noteq> [])\<rparr>)
             else r\<lparr>r_rest := more_path, r_keys := (if more_path \<noteq> [] then [more_path] else [])\<rparr>)"

definition path_route :: "string \<Rightarrow> Route" where
  "path_route path =
     (if path = ''/'' then empty_route\<lparr>r_service_doc := True\<rparr>
      else if path = ''/$metadata'' then empty_route\<lparr>r_metadata := True\<rparr>
      else case path of
             c # remaining \<Rightarrow> if c = CHR ''/'' then entity_route remaining else empty_route
           | [] \<Rightarrow> empty_route)"

definition ParseRoute :: "string \<Rightarrow> string \<Rightarrow> Route" where
  "ParseRoute base_path full_path =
     (if full_path = ''/health'' then empty_route\<lparr>r_health := True\<rparr>
      else if full_path = ''/'' then empty_route\<lparr>r_service_doc := True\<rparr>
      else
        (let base = (if base_path = [] then ''/'' else base_path)
         in if base = ''/'' then path_route full_path
            else if \<not> has_prefix (ToLower base) (ToLower full_path) then empty_route
            else
              (let path = drop (length base) full_path
               in if path = [] then path_route ''/''
                  else if hd path \<noteq> CHR ''/'' then empty_route
                  else path_route path)))"

section \<open>Query options\<close>

definition IsSystemOption :: "string \<Rightarrow> bool" where
  "IsSystemOption name \<longleftrightarrow>
     name \<in> {''$select'', ''$filter'', ''$orderby'', ''$top'', ''$skip'', ''$count'', ''$format'',
             ''$skiptoken''}"

fun depth_scan :: "int \<Rightarrow> int \<Rightarrow> bool \<Rightarrow> string \<Rightarrow> bool" where
  "depth_scan max_depth depth quote [] = True"
| "depth_scan max_depth depth quote (c # cs) =
     (if c = CHR 0x27 \<and> (cs = [] \<or> hd cs \<noteq> CHR 0x27) then depth_scan max_depth depth (\<not> quote) cs
      else if \<not> quote \<and> c = CHR ''('' then
        (if max_depth < depth + 1 then False else depth_scan max_depth (depth + 1) quote cs)
      else if \<not> quote \<and> c = CHR '')'' \<and> 0 < depth then depth_scan max_depth (depth - 1) quote cs
      else depth_scan max_depth depth quote cs)"

definition FilterWithinDepth :: "string \<Rightarrow> int \<Rightarrow> bool" where
  "FilterWithinDepth flt max_depth = (if max_depth < 0 then True else depth_scan max_depth 0 False flt)"

section \<open>Column policy and paging\<close>

definition ApplyColumnPolicy :: "EdmEntity \<Rightarrow> EntityBinding \<Rightarrow> EdmEntity" where
  "ApplyColumnPolicy ent b =
     (if b_columns b = [] then ent
      else
        (let allowed = filter (\<lambda>p. list_ex (\<lambda>c. ToLower (p_name p) = ToLower c) (b_columns b)) (e_properties ent)
         in ent\<lparr>e_properties := allowed, e_has_key := list_ex p_is_key allowed\<rparr>))"

definition NextLink :: "HttpRequest \<Rightarrow> int \<Rightarrow> string" where
  "NextLink rq next_skip =
     rq_path rq @ ''?'' @ (if rq_raw_query rq \<noteq> [] then rq_raw_query rq @ ''&'' else []) @
     ''$skip='' @ to_string next_skip"

section \<open>The column policy\<close>

definition public_column :: "EntityBinding \<Rightarrow> string \<Rightarrow> bool" where
  "public_column b n \<longleftrightarrow> b_columns b = [] \<or> (\<exists>c \<in> set (b_columns b). ToLower n = ToLower c)"

lemma ApplyColumnPolicy_public:
  "p \<in> set (e_properties (ApplyColumnPolicy ent b)) \<longleftrightarrow>
     p \<in> set (e_properties ent) \<and> public_column b (p_name p)"
  by (auto simp: ApplyColumnPolicy_def public_column_def list_ex_iff Let_def)

lemma ApplyColumnPolicy_fields [simp]:
  "e_name (ApplyColumnPolicy ent b) = e_name ent" "e_table (ApplyColumnPolicy ent b) = e_table ent"
  "e_schema (ApplyColumnPolicy ent b) = e_schema ent" "e_catalog (ApplyColumnPolicy ent b) = e_catalog ent"
  by (simp_all add: ApplyColumnPolicy_def Let_def)

section \<open>The link to the next page\<close>

lemma parse_pair_skip: "0 \<le> n \<Longrightarrow> parse_pair (''$skip='' @ to_string n) = (''$skip'', to_string n)"
proof -
  assume n: "0 \<le> n"
  have "CHR ''%'' \<notin> set (to_string n)" "CHR ''+'' \<notin> set (to_string n)"
    using to_string_nonneg [OF n] by (auto simp: isdigit_def dest!: to_string_nonneg [OF n])
  then have "UrlDecode (to_string n) = to_string n" by (rule UrlDecode_plain_id)
  moreover have "''$skip='' @ to_string n = ''$skip'' @ CHR ''='' # to_string n" by simp
  moreover have "split_first (CHR ''='') (''$skip'' @ CHR ''='' # to_string n) = Some (''$skip'', to_string n)"
    by (rule split_first_append) simp
  ultimately show ?thesis by (simp add: parse_pair_def)
qed

lemma ParseQueryString_skip:
  "0 \<le> n \<Longrightarrow> ParseQueryString (''$skip='' @ to_string n) = [(''$skip'', to_string n)]"
proof -
  assume n: "0 \<le> n"
  have "CHR ''&'' \<notin> set (''$skip='' @ to_string n)"
    using to_string_nonneg [OF n] by (auto simp: isdigit_def dest!: to_string_nonneg [OF n])
  then have "ParseQueryString (''$skip='' @ to_string n) = [parse_pair (''$skip='' @ to_string n)]"
    by (rule ParseQueryString_single [rotated]) simp
  with parse_pair_skip [OF n] show ?thesis by simp
qed

lemma NextLink_query:
  assumes "0 \<le> n" "CHR ''?'' \<notin> set (rq_path rq)"
  shows "\<exists>q. split_first (CHR ''?'') (NextLink rq n) = Some (rq_path rq, q)
    \<and> ParseQueryString q = ParseQueryString (rq_raw_query rq) @ [(''$skip'', to_string n)]"
proof -
  define q where "q = (if rq_raw_query rq \<noteq> [] then rq_raw_query rq @ ''&'' else []) @ ''$skip='' @ to_string n"
  have "NextLink rq n = rq_path rq @ CHR ''?'' # q" by (simp add: NextLink_def q_def)
  moreover have "ParseQueryString q = ParseQueryString (rq_raw_query rq) @ [(''$skip'', to_string n)]"
    using ParseQueryString_skip [OF assms(1)]
      ParseQueryString_append [of "rq_raw_query rq" "''$skip='' @ to_string n"]
    by (simp add: q_def)
  ultimately show ?thesis using assms(2) by simp
qed

section \<open>What the depth check misses\<close>

text \<open>
  An empty string literal flips the quote state of \<open>depth_scan\<close>, so what follows it up to the next
  quote is not counted.
\<close>

definition nested_filter :: "nat \<Rightarrow> string" where
  "nested_filter n =
     QuoteStringLiteral [] @ '' eq '' @ replicate n (CHR ''('') @ QuoteStringLiteral [] @ replicate n (CHR '')'')"

lemma depth_scan_quoted:
  "list_all (\<lambda>c. c \<noteq> CHR 0x27) s \<Longrightarrow> depth_scan m d True (s @ t) = depth_scan m d True t"
  by (induction s) auto

lemma depth_scan_closed: "depth_scan m d False (replicate n (CHR '')''))"
  by (induction n arbitrary: d) auto

lemma FilterWithinDepth_nested: "FilterWithinDepth (nested_filter (Suc n)) m"
proof -
  let ?o = "replicate (Suc n) (CHR ''('')" and ?c = "replicate (Suc n) (CHR '')'')"
  have "depth_scan m 0 False (nested_filter (Suc n))
      = depth_scan m 0 True (('' eq '' @ ?o) @ CHR 0x27 # CHR 0x27 # ?c)"
    by (simp add: nested_filter_def QuoteStringLiteral_def)
  also have "\<dots> = depth_scan m 0 True (CHR 0x27 # CHR 0x27 # ?c)"
    by (rule depth_scan_quoted) (simp add: list_all_iff)
  also have "\<dots> = depth_scan m 0 False ?c" by simp
  finally show ?thesis
    using depth_scan_closed [of m 0 "Suc n"] by (simp only: FilterWithinDepth_def) simp
qed

section \<open>Counting parentheses\<close>

text \<open>The deepest nesting of parentheses, an unmatched closing one not counted.\<close>

fun nesting :: "nat \<Rightarrow> string \<Rightarrow> nat" where
  "nesting d [] = d"
| "nesting d (c # cs) =
     (if c = CHR ''('' then nesting (d + 1) cs
      else if c = CHR '')'' then max d (nesting (d - 1) cs)
      else nesting d cs)"

lemma nesting_ge: "d \<le> nesting d s"
proof (induction s arbitrary: d)
  case (Cons c s)
  have "d + 1 \<le> nesting (d + 1) s" "d \<le> nesting d s" using Cons by blast+
  then show ?case by simp
qed simp

lemma depth_scan_unquoted:
  "CHR 0x27 \<notin> set s \<Longrightarrow> int d \<le> m \<Longrightarrow> depth_scan m (int d) False s \<longleftrightarrow> int (nesting d s) \<le> m"
proof (induction s arbitrary: d)
  case (Cons c s)
  then have c: "c \<noteq> CHR 0x27" "CHR 0x27 \<notin> set s" by auto
  show ?case
  proof (cases "c = CHR ''(''")
    case True
    with Cons.IH [of "d + 1"] c show ?thesis
      using nesting_ge [of "d + 1" s] by (auto simp: add.commute)
  next
    case False
    show ?thesis
    proof (cases "c = CHR '')''")
      case True
      with False Cons.IH [of "d - 1"] Cons.IH [of d] c Cons.prems(2) show ?thesis
        by (cases d) auto
    qed (use False c Cons in auto)
  qed
qed simp

lemma FilterWithinDepth_unquoted:
  assumes "CHR 0x27 \<notin> set flt" "0 \<le> m"
  shows "FilterWithinDepth flt m \<longleftrightarrow> int (nesting 0 flt) \<le> m"
  using depth_scan_unquoted [of flt 0 m] assms by (simp add: FilterWithinDepth_def)

section \<open>Routes of entities\<close>

lemma scan_key_plain:
  "c \<noteq> CHR 0x27 \<Longrightarrow> scan_key qd acc (c # s) =
     (if \<not> qd \<and> c = CHR '')'' then Some (acc, s) else scan_key qd (acc @ [c]) s)"
  by (cases s) auto

lemma scan_key_open: "scan_key False acc (CHR 0x27 # s) = scan_key True (acc @ [CHR 0x27]) s"
  by (cases s) auto

lemma scan_key_close:
  "quote_free (CHR 0x27) s \<Longrightarrow> scan_key True acc (CHR 0x27 # s) = scan_key False (acc @ [CHR 0x27]) s"
  by (cases s) auto

lemma scan_key_quoted:
  "scan_key True acc (double_quotes (CHR 0x27) v @ s) = scan_key True (acc @ double_quotes (CHR 0x27) v) s"
proof (induction v arbitrary: acc)
  case (Cons c v)
  show ?case
  proof (cases "c = CHR 0x27")
    case False
    then have "scan_key True acc (c # t) = scan_key True (acc @ [c]) t" for t by (simp add: scan_key_plain)
    with False Cons show ?thesis by simp
  qed (simp add: Cons)
qed simp

lemma scan_key_literal:
  "scan_key False [] (QuoteStringLiteral v @ CHR '')'' # s) = Some (QuoteStringLiteral v, s)"
  by (simp add: QuoteStringLiteral_def scan_key_open scan_key_quoted scan_key_close scan_key_plain)

lemma scan_key_unquoted:
  "CHR 0x27 \<notin> set v \<Longrightarrow> CHR '')'' \<notin> set v \<Longrightarrow> scan_key False acc (v @ CHR '')'' # s) = Some (acc @ v, s)"
  by (induction v arbitrary: acc) (auto simp: scan_key_plain)

definition entity_segment :: "string \<Rightarrow> bool" where
  "entity_segment name \<longleftrightarrow> CHR ''('' \<notin> set name \<and> CHR ''/'' \<notin> set name"

lemma entity_route_key:
  assumes "entity_segment name" "scan_key False [] (lit @ '')'') = Some (lit, [])" "lit \<noteq> []"
  shows "entity_route (name @ CHR ''('' # lit @ '')'')
    = empty_route\<lparr>r_entity := name, r_keys := [Trim lit]\<rparr>"
proof -
  let ?P = "\<lambda>c. \<not> (c = CHR ''('' \<or> c = CHR ''/'')"
  have "takeWhile ?P (name @ CHR ''('' # lit @ '')'') = name"
    "dropWhile ?P (name @ CHR ''('' # lit @ '')'') = CHR ''('' # lit @ '')''"
    using assms(1) by (auto simp: entity_segment_def intro!: takeWhile_append_stop dropWhile_append_stop)
  with assms(2,3) show ?thesis by (simp add: entity_route_def Let_def empty_route_def)
qed

lemma ParseRoute_below:
  assumes "base \<noteq> []" "base \<noteq> ''/''" "path \<noteq> []" "hd path = CHR ''/''"
    and "base @ path \<noteq> ''/health''"
  shows "ParseRoute base (base @ path) = path_route path"
proof -
  have "base @ path \<noteq> ''/''" using assms(1,3) by (cases base; cases path) auto
  with assms show ?thesis by (simp add: ParseRoute_def Let_def)
qed

lemma ParseRoute_key:
  assumes "base \<noteq> []" "base \<noteq> ''/''" "entity_segment name"
    "scan_key False [] (lit @ '')'') = Some (lit, [])" "lit \<noteq> []"
  shows "ParseRoute base (base @ CHR ''/'' # name @ CHR ''('' # lit @ '')'')
    = empty_route\<lparr>r_entity := name, r_keys := [Trim lit]\<rparr>"
proof -
  let ?path = "CHR ''/'' # name @ CHR ''('' # lit @ '')''"
  have par: "CHR ''('' \<in> set (base @ ?path)" by simp
  have "base @ ?path \<noteq> ''/health''"
  proof
    assume "base @ ?path = ''/health''"
    with par have "CHR ''('' \<in> set ''/health''" by (simp only:)
    then show False by simp
  qed
  moreover have "?path \<noteq> ''/''" "?path \<noteq> ''/$metadata''"
  proof -
    have ne: "?path \<noteq> s" if "CHR ''('' \<notin> set s" for s
    proof
      assume "?path = s"
      then have "set ?path = set s" by (simp only:)
      with that show False by auto
    qed
    show "?path \<noteq> ''/''" by (rule ne) simp
    show "?path \<noteq> ''/$metadata''" by (rule ne) simp
  qed
  ultimately show ?thesis
    using assms ParseRoute_below [of base ?path] by (simp add: path_route_def entity_route_key)
qed

text \<open>A base path with a slash at its end hides everything below it.\<close>

lemma ParseRoute_trailing_slash:
  assumes "base \<noteq> []" "base \<noteq> ''/''" "name \<noteq> []" "hd name \<noteq> CHR ''/''" "base @ name \<noteq> ''/health''"
  shows "ParseRoute base (base @ name) = empty_route"
proof -
  have "base @ name \<noteq> ''/''" using assms(1,3) by (cases base; cases name) auto
  with assms show ?thesis by (simp add: ParseRoute_def Let_def)
qed

end
