(* ===== verification/Json_Spec.thy ===== *)
theory Json_Spec
  imports String_Util
begin

text \<open>
  The grammar of JSON texts (RFC 8259), without white space between tokens since the code writes
  none. It is the specification of the bodies that the serializer and the request handler build
  with string concatenation.
\<close>

fun digits_ok :: "string \<Rightarrow> bool" where
  "digits_ok ds \<longleftrightarrow> ds \<noteq> [] \<and> list_all isdigit ds"

definition int_part_ok :: "string \<Rightarrow> bool" where
  "int_part_ok ds \<longleftrightarrow> digits_ok ds \<and> (hd ds = CHR ''0'' \<longrightarrow> ds = ''0'')"

text \<open>A JSON number without an exponent.\<close>

definition json_number :: "string \<Rightarrow> bool" where
  "json_number s \<longleftrightarrow>
     (let r = (if s \<noteq> [] \<and> hd s = CHR ''-'' then tl s else s)
      in case split_first (CHR ''.'') r of
           None \<Rightarrow> int_part_ok r
         | Some (ip, fp) \<Rightarrow> int_part_ok ip \<and> digits_ok fp)"

definition json_string :: "string \<Rightarrow> string" where
  "json_string s = CHR 0x22 # s @ [CHR 0x22]"

definition json_member :: "string \<times> string \<Rightarrow> string" where
  "json_member kv = json_string (fst kv) @ '':'' @ snd kv"

inductive json :: "string \<Rightarrow> bool" where
  json_null: "json ''null''"
| json_true: "json ''true''"
| json_false: "json ''false''"
| json_num: "json_number s \<Longrightarrow> json s"
| json_str: "json_unescape s \<noteq> None \<Longrightarrow> json (json_string s)"
| json_array: "(\<And>x. x \<in> set xs \<Longrightarrow> json x) \<Longrightarrow> json (''['' @ join_with '','' xs @ '']'')"
| json_object: "(\<And>k v. (k, v) \<in> set kvs \<Longrightarrow> json_unescape k \<noteq> None) \<Longrightarrow>
    (\<And>k v. (k, v) \<in> set kvs \<Longrightarrow> json v) \<Longrightarrow>
    json (''{'' @ join_with '','' (map json_member kvs) @ ''}'')"

lemma json_escaped: "json (json_string (JsonEscape s))"
  by (rule json_str) (simp add: json_unescape_JsonEscape)

text \<open>Text without a quote, a backslash or a control character stands for itself in a JSON string.\<close>

definition json_plain :: "string \<Rightarrow> bool" where
  "json_plain s \<longleftrightarrow> list_all (\<lambda>c. 32 \<le> code c \<and> c \<noteq> CHR 0x22 \<and> c \<noteq> CHR 0x5C) s"

lemma JsonEscape_plain: "json_plain s \<Longrightarrow> JsonEscape s = s"
proof (induction s)
  case (Cons c s)
  then have "json_escape_char c = [c]" by (auto simp: json_escape_char_def json_plain_def)
  with Cons show ?case by (simp add: JsonEscape_def json_plain_def)
qed (simp add: JsonEscape_def)

lemma json_unescape_plain_text: "json_plain s \<Longrightarrow> json_unescape s = Some s"
  using json_unescape_JsonEscape [of s] by (simp add: JsonEscape_plain)

lemma JsonEscape_append [simp]: "JsonEscape (a @ b) = JsonEscape a @ JsonEscape b"
  by (simp add: JsonEscape_def)

lemma nat_to_string_int_part: "int_part_ok (nat_to_string n)"
proof (induction n rule: nat_to_string.induct)
  case (1 n)
  show ?case
  proof (cases "n < 10")
    case True
    have "digit_char n = CHR ''0'' \<Longrightarrow> n = 0"
      using True code_digit_char [of n] by simp
    moreover have "digit_char 0 = CHR ''0''" by code_simp
    ultimately show ?thesis using True by (subst nat_to_string.simps) (auto simp: int_part_ok_def)
  next
    case False
    let ?d = "nat_to_string (n div 10)"
    have dig: "list_all isdigit ?d" "?d \<noteq> []"
      using 1 [OF False] by (auto simp: int_part_ok_def)
    have "hd ?d \<noteq> CHR ''0''"
    proof
      assume "hd ?d = CHR ''0''"
      with 1 [OF False] have "?d = ''0''" by (simp add: int_part_ok_def)
      then have "digits_val ?d = 0" by (simp add: digits_val_def digit_val_def)
      with False show False by simp
    qed
    with dig show ?thesis
      using False by (subst nat_to_string.simps) (simp add: int_part_ok_def hd_append)
  qed
qed

lemma json_number_to_string: "json_number (to_string v)"
proof -
  have nd: "CHR ''.'' \<notin> set (nat_to_string n)" "hd (nat_to_string n) \<noteq> CHR ''-''" for n
    using nat_to_string_digits [of "CHR ''.''" n] nat_to_string_digits [of "hd (nat_to_string n)" n]
    by (auto simp: isdigit_def)
  then show ?thesis
    by (simp add: json_number_def to_string_def nat_to_string_int_part)
qed

lemma json_to_string: "json (to_string v)"
  by (rule json_num) (rule json_number_to_string)

end
