(* ===== verification/Result_Serializer.thy ===== *)
theory Result_Serializer
  imports Duck_Db Json_Spec
begin

text \<open>
  The JSON serializer of query results, \<open>src/src/execution/result_serializer.cpp\<close>: doubles,
  base64, values, rows. The lemmas show the shape of every printed double, that base64 is read
  back, and that rows are JSON objects whatever the names and texts of the result contain.
\<close>

section \<open>The functions\<close>

definition FormatDouble :: "double \<Rightarrow> string" where
  "FormatDouble d =
     (if \<not> is_finite d then ''null''
      else
        (let s = to_string_double d
         in case split_first (CHR ''.'') s of
              None \<Rightarrow> s
            | Some (ip, fp) \<Rightarrow>
                (let t = rev (dropWhile (\<lambda>c. c = CHR ''0'') (rev fp))
                 in ip @ ''.'' @ (if t = [] then take 1 fp else t))))"

definition base64_alphabet :: string where
  "base64_alphabet = ''ABCDEFGHIJKLMNOPQRSTUVWXYZabcdefghijklmnopqrstuvwxyz0123456789+/''"

definition b64_char :: "nat \<Rightarrow> char" where
  "b64_char n = base64_alphabet ! (n mod 64)"

fun Base64Encode :: "string \<Rightarrow> string" where
  "Base64Encode [] = []"
| "Base64Encode [a] =
     (let n = code a * 2 ^ 16
      in [b64_char (n div 2 ^ 18), b64_char (n div 2 ^ 12), CHR ''='', CHR ''=''])"
| "Base64Encode [a, b] =
     (let n = code a * 2 ^ 16 + code b * 2 ^ 8
      in [b64_char (n div 2 ^ 18), b64_char (n div 2 ^ 12), b64_char (n div 2 ^ 6), CHR ''=''])"
| "Base64Encode (a # b # c # rest) =
     (let n = code a * 2 ^ 16 + code b * 2 ^ 8 + code c
      in [b64_char (n div 2 ^ 18), b64_char (n div 2 ^ 12), b64_char (n div 2 ^ 6), b64_char n]
         @ Base64Encode rest)"

definition number_types :: "LogicalTypeId list" where
  "number_types = [LT_TINYINT, LT_SMALLINT, LT_INTEGER, LT_BIGINT, LT_UTINYINT, LT_USMALLINT,
     LT_UINTEGER, LT_UBIGINT, LT_HUGEINT, LT_UHUGEINT, LT_DECIMAL]"

definition ValueToJson :: "dvalue \<Rightarrow> string" where
  "ValueToJson v =
     (if dv_null v then ''null''
      else if dv_type v = LT_BOOLEAN then (if dv_bool v then ''true'' else ''false'')
      else if dv_type v \<in> set number_types then dv_text v
      else if dv_type v = LT_FLOAT \<or> dv_type v = LT_DOUBLE then FormatDouble (dv_real v)
      else if dv_type v = LT_BLOB then json_string (Base64Encode (dv_blob v))
      else json_string (JsonEscape (dv_text v)))"

text \<open>The members of a row: the name and the value of each column.\<close>

fun serialize_members :: "bool \<Rightarrow> string list \<Rightarrow> dvalue list \<Rightarrow> string" where
  "serialize_members first (n # ns) (v # vs) =
     (if first then [] else '','') @ json_string (JsonEscape n) @ '':'' @ ValueToJson v
       @ serialize_members False ns vs"
| "serialize_members first _ _ = []"

text \<open>The rows of a chunk, \<open>n\<close> rows having been written before.\<close>

fun serialize_chunk :: "string list \<Rightarrow> dvalue list list \<Rightarrow> string \<Rightarrow> nat \<Rightarrow> string \<times> nat" where
  "serialize_chunk names [] body n = (body, n)"
| "serialize_chunk names (row # rows) body n =
     serialize_chunk names rows
       (body @ (if 0 < n then '','' else []) @ ''{'' @ serialize_members True names row @ ''}'') (n + 1)"

fun serialize_chunks :: "string list \<Rightarrow> dvalue list list list \<Rightarrow> string \<Rightarrow> nat \<Rightarrow> string \<times> nat" where
  "serialize_chunks names [] body n = (body, n)"
| "serialize_chunks names (chunk # chunks) body n =
     (case serialize_chunk names chunk body n of (body', n') \<Rightarrow> serialize_chunks names chunks body' n')"

definition SerializeRows :: "qresult \<Rightarrow> string \<times> nat" where
  "SerializeRows q = serialize_chunks (qr_names q) (qr_chunks q) [] 0"

text \<open>The first row only, of the first chunk; \<open>None\<close> is the \<open>false\<close> of no row.\<close>

definition SerializeFirstRowMembers :: "qresult \<Rightarrow> string option" where
  "SerializeFirstRowMembers q =
     (case qr_chunks q of
        (row # _) # _ \<Rightarrow> Some (serialize_members True (qr_names q) row)
      | _ \<Rightarrow> None)"

section \<open>Rows\<close>

definition row_members :: "string list \<Rightarrow> dvalue list \<Rightarrow> (string \<times> string) list" where
  "row_members names row = map2 (\<lambda>n v. (JsonEscape n, ValueToJson v)) names row"

definition row_json :: "string list \<Rightarrow> dvalue list \<Rightarrow> string" where
  "row_json names row = ''{'' @ join_with '','' (map json_member (row_members names row)) @ ''}''"

lemma row_members_simps [simp]:
  "row_members (n # ns) (v # vs) = (JsonEscape n, ValueToJson v) # row_members ns vs"
  "row_members [] vs = []" "row_members ns [] = []"
  by (simp_all add: row_members_def)

lemma serialize_members_join:
  "serialize_members first names row =
     (if first \<or> row_members names row = [] then [] else '','')
       @ join_with '','' (map json_member (row_members names row))"
proof (induction first names row rule: serialize_members.induct)
  case (1 first n ns v vs)
  then show ?case
    by (cases "row_members ns vs = []") (simp_all add: json_member_def)
qed simp_all

lemma serialize_chunk_join:
  "serialize_chunk names rows body n =
     (body @ (if 0 < n \<and> rows \<noteq> [] then '','' else []) @ join_with '','' (map (row_json names) rows),
      n + length rows)"
proof (induction names rows body n rule: serialize_chunk.induct)
  case (2 names row rows body n)
  then show ?case
    by (cases "rows = []") (simp_all add: row_json_def serialize_members_join)
qed simp

lemma join_with_append:
  "join_with sep (xs @ ys) =
     join_with sep xs @ (if xs \<noteq> [] \<and> ys \<noteq> [] then sep else []) @ join_with sep ys"
proof (induction xs)
  case (Cons x xs)
  then show ?case by (cases "xs = []"; cases "ys = []") auto
qed simp

lemma serialize_chunks_join:
  "serialize_chunks names chunks body n =
     (body @ (if 0 < n \<and> concat chunks \<noteq> [] then '','' else [])
        @ join_with '','' (map (row_json names) (concat chunks)),
      n + length (concat chunks))"
proof (induction chunks arbitrary: body n)
  case (Cons chunk chunks)
  show ?case
    by (simp add: serialize_chunk_join Cons join_with_append)
qed simp

lemma SerializeRows_join:
  "SerializeRows q =
     (join_with '','' (map (row_json (qr_names q)) (result_rows q)), length (result_rows q))"
  by (simp add: SerializeRows_def serialize_chunks_join result_rows_def)

section \<open>Doubles\<close>

lemma FormatDouble_shape:
  assumes "is_finite d"
  shows "\<exists>sg ip fp. FormatDouble d = sg @ ip @ ''.'' @ fp \<and> (sg = [] \<or> sg = ''-'')
    \<and> int_part_ok ip \<and> digits_ok fp \<and> length fp \<le> 6 \<and> (last fp = CHR ''0'' \<longrightarrow> length fp = 1)"
proof (cases d)
  case (Fin neg m e)
  define sg ip fp where "sg = (if neg then ''-'' else [])"
    and "ip = nat_to_string (fixed6 m e div 10 ^ 6)" and "fp = pad6 (fixed6 m e mod 10 ^ 6)"
  have s: "to_string_double d = (sg @ ip) @ CHR ''.'' # fp"
    by (simp add: Fin sg_def ip_def fp_def)
  have "CHR ''.'' \<notin> set (sg @ ip)"
    using nat_to_string_digits [of "CHR ''.''"] by (auto simp: sg_def ip_def isdigit_def)
  then have sp: "split_first (CHR ''.'') (to_string_double d) = Some (sg @ ip, fp)"
    unfolding s by (rule split_first_append)
  have fp: "length fp = 6" "\<forall>c \<in> set fp. isdigit c" by (auto simp: fp_def dest: pad6_digits)
  define t where "t = rev (dropWhile (\<lambda>c. c = CHR ''0'') (rev fp))"
  have tset: "set t \<subseteq> set fp" by (auto simp: t_def dest!: set_dropWhileD)
  have tlen: "length t \<le> 6"
    using length_dropWhile_le [of "\<lambda>c. c = CHR ''0''" "rev fp"] fp(1) by (simp add: t_def)
  have tlast: "t \<noteq> [] \<Longrightarrow> last t \<noteq> CHR ''0''"
    using hd_dropWhile [of "\<lambda>c. c = CHR ''0''" "rev fp"] by (simp add: t_def last_rev)
  define u where "u = (if t = [] then take 1 fp else t)"
  have "FormatDouble d = sg @ ip @ ''.'' @ u"
    using assms sp by (simp add: FormatDouble_def t_def u_def Let_def)
  moreover have "digits_ok u \<and> length u \<le> 6 \<and> (last u = CHR ''0'' \<longrightarrow> length u = 1)"
    using fp tset tlen tlast by (cases fp) (auto simp: u_def list_all_iff)
  moreover have "int_part_ok ip" by (simp add: ip_def nat_to_string_int_part)
  moreover have "sg = [] \<or> sg = ''-''" by (simp add: sg_def)
  ultimately show ?thesis by blast
qed (use assms in auto)

lemma json_FormatDouble: "json (FormatDouble d)"
proof (cases "is_finite d")
  case True
  obtain sg ip fp where s: "FormatDouble d = sg @ ip @ CHR ''.'' # fp" "sg = [] \<or> sg = ''-''"
    "int_part_ok ip" "digits_ok fp"
    using FormatDouble_shape [OF True] by auto
  then have "hd ip \<noteq> CHR ''-''" "ip \<noteq> []" "CHR ''.'' \<notin> set ip"
    by (auto simp: int_part_ok_def list_all_iff isdigit_def dest!: hd_in_set)
  with s have "json_number (FormatDouble d)" by (auto simp: json_number_def)
  then show ?thesis by (rule json_num)
qed (simp add: FormatDouble_def json_null)

section \<open>Rows are JSON\<close>

text \<open>
  What DuckDB prints for a value of a numeric type is a JSON number: digits with a sign and, for
  DECIMAL, a fraction. This is the documented text of these types.
\<close>

definition numeric_text :: "dvalue \<Rightarrow> bool" where
  "numeric_text v \<longleftrightarrow> (dv_type v \<in> set number_types \<and> \<not> dv_null v \<longrightarrow> json_number (dv_text v))"

definition b64_text :: "string \<Rightarrow> bool" where
  "b64_text s \<longleftrightarrow> list_all (\<lambda>c. isalnum c \<or> c \<in> set ''+/='') s"

lemma base64_alphabet_text: "b64_text base64_alphabet"
  by (simp add: b64_text_def base64_alphabet_def)

lemma length_base64_alphabet [simp]: "length base64_alphabet = 64"
  by (simp add: base64_alphabet_def)

lemma b64_char_text: "isalnum (b64_char n) \<or> b64_char n \<in> set ''+/=''"
proof -
  have "base64_alphabet ! (n mod 64) \<in> set base64_alphabet" by (intro nth_mem) simp
  then show ?thesis using base64_alphabet_text unfolding b64_text_def list_all_iff b64_char_def by blast
qed

lemma Base64Encode_text: "b64_text (Base64Encode s)"
  by (induction s rule: Base64Encode.induct)
     (use b64_char_text in \<open>auto simp: b64_text_def Let_def simp del: power_numeral\<close>)

lemma b64_text_plain: "b64_text s \<Longrightarrow> json_plain s"
  by (auto simp: b64_text_def json_plain_def list_all_iff char_class)

lemma json_ValueToJson: "numeric_text v \<Longrightarrow> json (ValueToJson v)"
proof -
  have "json (json_string (Base64Encode s))" for s
    by (rule json_str) (simp add: json_unescape_plain_text b64_text_plain Base64Encode_text)
  moreover assume "numeric_text v"
  ultimately show ?thesis
    by (simp add: ValueToJson_def json_null json_true json_false json_FormatDouble json_escaped
        numeric_text_def json_num)
qed

definition numeric_row :: "dvalue list \<Rightarrow> bool" where
  "numeric_row row \<longleftrightarrow> list_all numeric_text row"

lemma set_row_members:
  "(k, v) \<in> set (row_members names row) \<Longrightarrow> \<exists>n x. k = JsonEscape n \<and> v = ValueToJson x \<and> x \<in> set row"
  by (induction names row rule: list_induct2') auto

lemma json_row: "numeric_row row \<Longrightarrow> json (row_json names row)"
  unfolding row_json_def
  by (rule json_object)
     (auto simp: json_unescape_JsonEscape numeric_row_def list_all_iff json_ValueToJson
       dest!: set_row_members)

lemma json_rows:
  "\<forall>row \<in> set (result_rows q). numeric_row row \<Longrightarrow> json (''['' @ fst (SerializeRows q) @ '']'')"
  unfolding SerializeRows_join fst_conv by (rule json_array) (auto simp: json_row)

lemma SerializeFirstRow_json:
  "SerializeFirstRowMembers q = Some m \<Longrightarrow>
     \<exists>row. row \<in> set (result_rows q) \<and> ''{'' @ m @ ''}'' = row_json (qr_names q) row"
  by (auto simp: SerializeFirstRowMembers_def result_rows_def serialize_members_join row_json_def
      split: list.splits)

section \<open>Base64\<close>

text \<open>The value of a base64 digit and the decoder of RFC 4648.\<close>

fun index_of :: "char \<Rightarrow> string \<Rightarrow> nat option" where
  "index_of c [] = None"
| "index_of c (d # ds) = (if c = d then Some 0 else map_option Suc (index_of c ds))"

definition b64_value :: "char \<Rightarrow> nat option" where
  "b64_value c = index_of c base64_alphabet"

lemma index_of_nth: "distinct ds \<Longrightarrow> i < length ds \<Longrightarrow> index_of (ds ! i) ds = Some i"
proof (induction ds arbitrary: i)
  case (Cons d ds)
  then show ?case by (cases i) auto
qed simp

lemma b64_value_char [simp]: "b64_value (b64_char n) = Some (n mod 64)"
proof -
  have "distinct base64_alphabet" by (simp add: base64_alphabet_def)
  then show ?thesis by (simp add: b64_value_def b64_char_def index_of_nth)
qed

definition b64_pad :: char where "b64_pad = CHR ''=''"

lemma b64_char_not_pad [simp]: "b64_char n \<noteq> CHR ''=''" "CHR ''='' \<noteq> b64_char n"
proof -
  have "b64_value (CHR ''='') = None" by (simp add: b64_value_def base64_alphabet_def)
  then show "b64_char n \<noteq> CHR ''=''" "CHR ''='' \<noteq> b64_char n" by (metis b64_value_char option.distinct(1))+
qed

definition quad :: "char \<Rightarrow> char \<Rightarrow> char \<Rightarrow> char \<Rightarrow> nat option" where
  "quad w x y z =
     (case (b64_value w, b64_value x, b64_value y, b64_value z) of
        (Some a, Some b, Some c, Some d) \<Rightarrow> Some (((a * 64 + b) * 64 + c) * 64 + d)
      | _ \<Rightarrow> None)"

fun Base64Decode :: "string \<Rightarrow> string option" where
  "Base64Decode [] = Some []"
| "Base64Decode (w # x # y # z # rest) =
     (if y = CHR ''='' then
        (if z = CHR ''='' \<and> rest = [] then
           map_option (\<lambda>n. [char_of (n div 2 ^ 16)]) (quad w x (CHR ''A'') (CHR ''A''))
         else None)
      else if z = CHR ''='' then
        (if rest = [] then
           map_option (\<lambda>n. [char_of (n div 2 ^ 16), char_of (n div 2 ^ 8 mod 256)]) (quad w x y (CHR ''A''))
         else None)
      else
        (case (quad w x y z, Base64Decode rest) of
           (Some n, Some r) \<Rightarrow>
             Some ([char_of (n div 2 ^ 16), char_of (n div 2 ^ 8 mod 256), char_of (n mod 256)] @ r)
         | _ \<Rightarrow> None))"
| "Base64Decode _ = None"

lemma b64_value_A: "b64_value (CHR ''A'') = Some 0"
  by (simp add: b64_value_def base64_alphabet_def)

lemma quad_digits:
  assumes "n < 2 ^ 24"
  shows "quad (b64_char (n div 2 ^ 18)) (b64_char (n div 2 ^ 12)) (b64_char (n div 2 ^ 6)) (b64_char n) = Some n"
proof -
  have d: "n div 2 ^ 12 = n div 64 div 64" "n div 2 ^ 18 = n div 64 div 64 div 64" "n div 2 ^ 6 = n div 64"
    by (simp_all add: div_mult2_eq [symmetric])
  have "n div 64 div 64 div 64 < 64" using assms by (simp add: div_mult2_eq [symmetric] less_mult_imp_div_less)
  then have "((n div 64 div 64 div 64 mod 64 * 64 + n div 64 div 64 mod 64) * 64 + n div 64 mod 64) * 64 + n mod 64 = n"
    by (simp add: mult.commute [of _ 64] div_mult_mod_eq)
  then show ?thesis by (simp only: quad_def b64_value_char d prod.case option.case)
qed

lemma b64_char_zero: "n mod 64 = 0 \<Longrightarrow> b64_char n = CHR ''A''"
  by (simp add: b64_char_def base64_alphabet_def)

lemma three_bytes:
  fixes a b c :: nat
  assumes "a < 256" "b < 256" "c < 256"
  defines "n \<equiv> a * 2 ^ 16 + b * 2 ^ 8 + c"
  shows "n < 2 ^ 24" "n div 2 ^ 16 = a" "n div 2 ^ 8 mod 256 = b" "n mod 256 = c"
proof -
  define r where "r = b * 256 + c"
  have r: "r < 65536" using assms(2,3) unfolding r_def by linarith
  have n: "n = a * 65536 + r" by (simp add: n_def r_def)
  then have "n < 16777216" using r assms(1) by linarith
  then show "n < 2 ^ 24" by simp
  show "n div 2 ^ 16 = a" using r by (simp add: n)
  have "n div 256 = a * 256 + b" using assms(3) by (simp add: n_def)
  then show "n div 2 ^ 8 mod 256 = b" using assms(2) by simp
  have "n = (a * 256 + b) * 256 + c" by (simp add: n_def)
  then have "n mod 256 = c mod 256" by (simp only: mod_mult_self3)
  then show "n mod 256 = c" using assms(3) by simp
qed

lemma Base64_round_trip: "Base64Decode (Base64Encode s) = Some s"
proof (induction s rule: Base64Encode.induct)
  case (2 a)
  define n where "n = code a * 2 ^ 16"
  have n: "n < 2 ^ 24" "n div 2 ^ 16 = code a" using code_less [of a] by (simp_all add: n_def)
  have "n = 64 * (code a * 1024)" "n div 2 ^ 6 = 64 * (code a * 16)" by (simp_all add: n_def)
  then have "b64_char n = CHR ''A''" "b64_char (n div 2 ^ 6) = CHR ''A''"
    by (metis b64_char_zero mod_mult_self1_is_0)+
  with quad_digits [OF n(1)] n(2) show ?case
    by (simp only: Base64Encode.simps Let_def n_def [symmetric] Base64Decode.simps) simp
next
  case (3 a b)
  define n where "n = code a * 2 ^ 16 + code b * 2 ^ 8"
  have "n = code a * 65536 + code b * 256" by (simp add: n_def)
  then have "n < 16777216" using code_less [of a] code_less [of b] by linarith
  then have "n < 2 ^ 24" by simp
  moreover have "n div 2 ^ 16 = code a" "n div 2 ^ 8 mod 256 = code b" by (simp_all add: n_def)
  ultimately have n: "n < 2 ^ 24" "n div 2 ^ 16 = code a" "n div 2 ^ 8 mod 256 = code b" .
  have "n = 64 * (code a * 1024 + code b * 4)" by (simp add: n_def)
  then have "b64_char n = CHR ''A''" by (metis b64_char_zero mod_mult_self1_is_0)
  moreover have "char_of (n div 2 ^ 8 mod 256) = b" by (simp only: n(3) char_of_code)
  ultimately show ?case using quad_digits [OF n(1)] n(2)
    by (simp only: Base64Encode.simps Let_def n_def [symmetric] Base64Decode.simps) simp
next
  case (4 a b c rest)
  define n where "n = code a * 2 ^ 16 + code b * 2 ^ 8 + code c"
  have n: "n < 2 ^ 24" "n div 2 ^ 16 = code a" "n div 2 ^ 8 mod 256 = code b" "n mod 256 = code c"
    unfolding n_def by (rule three_bytes; rule code_less)+
  with quad_digits [OF n(1)] 4 show ?case
    by (simp only: Base64Encode.simps Let_def n_def [symmetric] append.simps Base64Decode.simps) simp
qed simp

lemma length_Base64Encode: "length (Base64Encode s) = (length s + 2) div 3 * 4"
proof (induction s rule: Base64Encode.induct)
  case (4 a b c rest)
  then have "length (Base64Encode (a # b # c # rest)) = 4 + (length rest + 2) div 3 * 4"
    by (simp add: Let_def)
  also have "\<dots> = ((length rest + 2) + 1 * 3) div 3 * 4" by (simp only: div_mult_self1) simp
  finally show ?case by (simp add: add.commute)
qed (simp_all add: Let_def)

end
