(* ===== verification/Expression_Compiler.thy ===== *)
theory Expression_Compiler
  imports Edm_Model Ast Sql_Lex
begin

text \<open>
  The compiler from the filter AST to SQL, \<open>src/src/compiler/expression_compiler.cpp\<close>. The
  \<open>property_index\<close> map, filled in property order, gives the last property of a lower-cased name.
  The main lemma is that the text it writes is read by \<open>sql_lex\<close> with the string literals of the
  expression as its only strings and the properties of the entity as its only identifiers.
\<close>

type_synonym function_entry = "string \<times> string \<times> nat \<times> nat"

definition GetFunctionMap :: "function_entry list" where
  "GetFunctionMap =
     [(''contains'', ''contains'', 2, 2), (''startswith'', ''starts_with'', 2, 2),
      (''endswith'', ''ends_with'', 2, 2), (''tolower'', ''lower'', 1, 1),
      (''toupper'', ''upper'', 1, 1), (''length'', ''length'', 1, 1),
      (''substring'', ''substring'', 2, 3), (''concat'', ''concat'', 2, 2),
      (''indexof'', ''strpos'', 2, 2), (''trim'', ''trim'', 1, 1),
      (''year'', ''year'', 1, 1), (''month'', ''month'', 1, 1),
      (''day'', ''day'', 1, 1), (''hour'', ''hour'', 1, 1),
      (''minute'', ''minute'', 1, 1), (''second'', ''second'', 1, 1),
      (''now'', ''now'', 0, 0), (''round'', ''round'', 2, 2),
      (''floor'', ''floor'', 1, 1), (''ceiling'', ''ceil'', 1, 1),
      (''abs'', ''abs'', 1, 1)]"

definition find_function :: "string \<Rightarrow> function_entry option" where
  "find_function lower = find (\<lambda>c. fst c = lower) GetFunctionMap"

definition IsStringBase :: "string \<Rightarrow> bool" where
  "IsStringBase lower \<longleftrightarrow>
     lower \<in> {''varchar'', ''text'', ''string'', ''char'', ''bpchar'', ''uuid'', ''blob'', ''json'',
              ''bit'', ''bitstring''}"

definition BaseTypeOf :: "string \<Rightarrow> string" where
  "BaseTypeOf duckdb_type =
     (let t = ToLower duckdb_type
      in Trim (case split_first (CHR ''('') t of None \<Rightarrow> t | Some (b, _) \<Rightarrow> b))"

definition property_index :: "EdmEntity \<Rightarrow> string \<Rightarrow> EdmProperty option" where
  "property_index ent lower = find (\<lambda>p. ToLower (p_name p) = lower) (rev (e_properties ent))"

definition msg_no_property :: "EdmEntity \<Rightarrow> string \<Rightarrow> string" where
  "msg_no_property ent name =
     ''property '' @ [CHR 0x27] @ name @ [CHR 0x27] @ '' does not exist on entity '' @
     [CHR 0x27] @ e_name ent @ [CHR 0x27]"

definition ResolveProperty :: "EdmEntity \<Rightarrow> string \<Rightarrow> string res" where
  "ResolveProperty ent name =
     (case property_index ent (ToLower name) of
        None \<Rightarrow> Inl (ODataParseException (msg_no_property ent name))
      | Some p \<Rightarrow> Inr (QuoteIdentifier (p_name p)))"

text \<open>The lambdas \<open>IsNullLit\<close> and \<open>ResolveLiteralType\<close> of \<open>CompileBinary\<close>.\<close>

definition IsNullLit :: "Expr \<Rightarrow> bool" where
  "IsNullLit e \<longleftrightarrow> e = Literal NullLit"

fun ResolveLiteralType :: "EdmEntity \<Rightarrow> Expr \<Rightarrow> string" where
  "ResolveLiteralType ent (PropertyExpr name) =
     (case property_index ent (ToLower name) of
        Some p \<Rightarrow> if p_edm_type p \<noteq> UNSUPPORTED then p_duckdb_type p else []
      | None \<Rightarrow> [])"
| "ResolveLiteralType ent (FunctionCallExpr name _) =
     (let lower = ToLower name
      in if lower \<in> {''year'', ''month'', ''day'', ''hour'', ''minute'', ''second'', ''length'',
                    ''indexof''} then ''BIGINT''
         else if lower \<in> {''tolower'', ''toupper'', ''trim'', ''substring'', ''concat''} then ''VARCHAR''
         else ''BOOLEAN'')"
| "ResolveLiteralType ent _ = []"

definition real_literal :: "double \<Rightarrow> string" where
  "real_literal d =
     (let s = to_string_double d
      in if CHR ''.'' \<notin> set s \<and> CHR ''e'' \<notin> set s \<and> CHR ''E'' \<notin> set s then s @ ''.0'' else s)"

fun CompileLiteral :: "LiteralExpr \<Rightarrow> string \<Rightarrow> string" where
  "CompileLiteral NullLit ty = ''NULL''"
| "CompileLiteral (BooleanLit b) ty = (if b then ''TRUE'' else ''FALSE'')"
| "CompileLiteral (IntegerLit i) ty = to_string i"
| "CompileLiteral (FloatLit d) ty = real_literal d"
| "CompileLiteral (StringLit s) ty =
     (let base = BaseTypeOf ty
      in if base = [] \<or> IsStringBase base then QuoteStringLiteral s
         else ''CAST('' @ QuoteStringLiteral s @ '' AS '' @ ty @ '')'')"

definition sql_op :: "BinaryOp \<Rightarrow> string" where
  "sql_op op =
     (case op of
        EQ \<Rightarrow> ''='' | NE \<Rightarrow> ''<>'' | GT \<Rightarrow> ''>'' | GE \<Rightarrow> ''>='' | LT \<Rightarrow> ''<'' | LE \<Rightarrow> ''<=''
      | AND \<Rightarrow> ''AND'' | OR \<Rightarrow> ''OR'')"

definition null_test :: "BinaryOp \<Rightarrow> string option" where
  "null_test op = (case op of EQ \<Rightarrow> Some '' IS NULL'' | NE \<Rightarrow> Some '' IS NOT NULL'' | _ \<Rightarrow> None)"

definition join_operands :: "BinaryOp \<Rightarrow> string \<Rightarrow> string \<Rightarrow> string" where
  "join_operands op lhs rhs =
     (if op = AND \<or> op = OR then ''('' @ lhs @ '' '' @ sql_op op @ '' '' @ rhs @ '')''
      else lhs @ '' '' @ sql_op op @ '' '' @ rhs)"

definition msg_no_function :: "string \<Rightarrow> string" where
  "msg_no_function name =
     ''function '' @ [CHR 0x27] @ name @ [CHR 0x27] @ '' is not supported in $filter''"

definition msg_arity :: "string \<Rightarrow> nat \<Rightarrow> nat \<Rightarrow> string" where
  "msg_arity name lo hi =
     ''function '' @ [CHR 0x27] @ name @ [CHR 0x27] @ '' expects '' @ to_string (int lo) @ ''..'' @
     to_string (int hi) @ '' arguments''"

text \<open>
  \<open>Compile\<close> with \<open>CompileBinary\<close>, \<open>CompileUnary\<close> and \<open>CompileFunction\<close>. An operand that is a
  literal takes the type of the other side; \<open>ResolveLiteralType\<close> of a literal is the empty type.
  The null test is a branch of its own only for \<open>eq\<close> and \<open>ne\<close>; for the other operators the code
  goes on to the general case.
\<close>

fun Compile :: "EdmEntity \<Rightarrow> Expr \<Rightarrow> string res" where
  "Compile ent (PropertyExpr name) = ResolveProperty ent name"
| "Compile ent (Literal lit) = Inr (CompileLiteral lit [])"
| "Compile ent (UnaryExpr op child) =
     bindE (Compile ent child) (\<lambda>s. Inr (''(NOT '' @ s @ '')''))"
| "Compile ent (BinaryExpr op l r) =
     (if IsNullLit l \<and> \<not> is_literal r \<and> null_test op \<noteq> None then
        bindE (Compile ent r) (\<lambda>rhs. Inr (rhs @ the (null_test op)))
      else if IsNullLit r \<and> \<not> is_literal l \<and> null_test op \<noteq> None then
        bindE (Compile ent l) (\<lambda>lhs. Inr (lhs @ the (null_test op)))
      else
        bindE (case l of Literal lit \<Rightarrow> Inr (CompileLiteral lit (ResolveLiteralType ent r))
               | _ \<Rightarrow> Compile ent l) (\<lambda>lhs.
        bindE (case r of Literal lit \<Rightarrow> Inr (CompileLiteral lit (ResolveLiteralType ent l))
               | _ \<Rightarrow> Compile ent r) (\<lambda>rhs.
          Inr (join_operands op lhs rhs))))"
| "Compile ent (FunctionCallExpr name args) =
     (let lower = ToLower name
      in case find_function lower of
           None \<Rightarrow> Inl (ODataParseException (msg_no_function name))
         | Some (odata_name, duckdb_name, lo, hi) \<Rightarrow>
             if length args < lo \<or> hi < length args
             then Inl (ODataParseException (msg_arity name lo hi))
             else if lower = ''now'' then Inr ''now()''
             else bindE (mapE (Compile ent) args)
                    (\<lambda>xs. Inr (duckdb_name @ ''('' @ join_with '', '' xs @ '')'')))"

section \<open>The only errors are ODataParseException\<close>

text \<open>The operand of a binary operator, a literal typed by the other side.\<close>

definition operand :: "EdmEntity \<Rightarrow> Expr \<Rightarrow> Expr \<Rightarrow> string res" where
  "operand ent e other =
     (case e of Literal lit \<Rightarrow> Inr (CompileLiteral lit (ResolveLiteralType ent other))
      | _ \<Rightarrow> Compile ent e)"

lemma Compile_Binary:
  "Compile ent (BinaryExpr op l r) =
     (if IsNullLit l \<and> \<not> is_literal r \<and> null_test op \<noteq> None then
        bindE (Compile ent r) (\<lambda>rhs. Inr (rhs @ the (null_test op)))
      else if IsNullLit r \<and> \<not> is_literal l \<and> null_test op \<noteq> None then
        bindE (Compile ent l) (\<lambda>lhs. Inr (lhs @ the (null_test op)))
      else bindE (operand ent l r) (\<lambda>lhs. bindE (operand ent r l) (\<lambda>rhs. Inr (join_operands op lhs rhs))))"
  unfolding Compile.simps operand_def ..

declare Compile.simps(4) [simp del]

lemma operand_nonliteral: "\<not> is_literal e \<Longrightarrow> operand ent e other = Compile ent e"
  by (cases e) (simp_all add: operand_def)

lemma operand_Inl: "operand ent e other = Inl x \<Longrightarrow> Compile ent e = Inl x"
  by (cases e) (simp_all add: operand_def)

lemma ResolveProperty_Inl: "ResolveProperty ent n = Inl e \<Longrightarrow> \<exists>m. e = ODataParseException m"
  by (auto simp: ResolveProperty_def split: option.splits)

lemma Compile_Inl: "Compile ent ex = Inl e \<Longrightarrow> \<exists>m. e = ODataParseException m"
proof (induction ex arbitrary: e)
  case (PropertyExpr name)
  then show ?case by (simp add: ResolveProperty_Inl)
next
  case (BinaryExpr op l r)
  from BinaryExpr.prems consider "Compile ent l = Inl e" | "Compile ent r = Inl e"
    by (auto simp: Compile_Binary bindE_Inl_iff dest: operand_Inl split: if_splits)
  then show ?case using BinaryExpr.IH by cases
next
  case (FunctionCallExpr name args)
  from FunctionCallExpr.prems show ?case
    by (auto simp: Let_def bindE_Inl_iff split: option.splits prod.splits if_splits
        dest!: mapE_Inl_mem intro: FunctionCallExpr.IH)
qed (auto simp: bindE_Inl_iff)

section \<open>What the compiled text contains\<close>

text \<open>
  \<open>compiled_ok ent sql ss ps\<close>: the text is read on its own with the strings \<open>ss\<close>, and its
  identifiers are properties of the entity, the ones that \<open>ps\<close> names up to letter case.
\<close>

definition compiled_ok :: "EdmEntity \<Rightarrow> string \<Rightarrow> string list \<Rightarrow> string list \<Rightarrow> bool" where
  "compiled_ok ent sql ss ps \<longleftrightarrow>
     (\<exists>ids. safe_sql sql ss ids \<and> set ids \<subseteq> p_name ` set (e_properties ent)
        \<and> map ToLower ids = map ToLower ps)"

lemma compiled_glue: "compiled_ok ent b ss ps \<Longrightarrow> glue g \<Longrightarrow> compiled_ok ent (g @ b) ss ps"
  unfolding compiled_ok_def by (blast intro: safe_glue)

lemma compiled_glue_after: "compiled_ok ent b ss ps \<Longrightarrow> glue_after g \<Longrightarrow> compiled_ok ent (b @ g) ss ps"
  unfolding compiled_ok_def by (blast intro: safe_glue_after)

lemma compiled_append:
  assumes "compiled_ok ent a ss ps" "compiled_ok ent b ss' ps'" "glue_after g" "glue g"
  shows "compiled_ok ent (a @ g @ b) (ss @ ss') (ps @ ps')"
proof -
  from assms obtain ia ib where "safe_sql a ss ia" "safe_sql b ss' ib"
    "set ia \<subseteq> p_name ` set (e_properties ent)" "set ib \<subseteq> p_name ` set (e_properties ent)"
    "map ToLower ia = map ToLower ps" "map ToLower ib = map ToLower ps'"
    unfolding compiled_ok_def by blast
  with assms(3,4) show ?thesis
    unfolding compiled_ok_def by (intro exI [of _ "ia @ ib"]) (simp add: safe_append)
qed

lemma compiled_surround:
  "compiled_ok ent b ss ps \<Longrightarrow> glue g \<Longrightarrow> glue_after h \<Longrightarrow> compiled_ok ent (g @ b @ h) ss ps"
  by (intro compiled_glue compiled_glue_after)

lemma compiled_plain: "safe_sql a ss [] \<Longrightarrow> compiled_ok ent a ss []"
  unfolding compiled_ok_def by (intro exI [of _ "[]"]) simp

lemma compiled_join:
  assumes "list_all2 (\<lambda>x (ss, ps). compiled_ok ent x ss ps) xs sps" "glue_after sep" "glue sep"
  shows "compiled_ok ent (join_with sep xs) (concat (map fst sps)) (concat (map snd sps))"
  using assms(1)
proof (induction xs sps rule: list_all2_induct)
  case (Cons x xs sp sps)
  show ?case
  proof (cases "xs = []")
    case True
    with Cons show ?thesis by (cases sp) auto
  next
    case False
    with Cons assms(2,3) show ?thesis by (cases sp) (auto intro: compiled_append)
  qed
qed (simp add: compiled_plain safe_plain)

text \<open>
  The type names that reach a \<open>CAST\<close> come from the DuckDB catalog; those of a supported EDM type
  are made of letters, digits, blanks, commas, parentheses and brackets (\<open>DECIMAL(18,3)\<close>,
  \<open>TIMESTAMP WITH TIME ZONE\<close>).
\<close>

definition type_text :: "string \<Rightarrow> bool" where
  "type_text t \<longleftrightarrow> plain_text t \<and> CHR ''?'' \<notin> set t"

definition plain_types :: "EdmEntity \<Rightarrow> bool" where
  "plain_types ent \<longleftrightarrow>
     (\<forall>p \<in> set (e_properties ent). p_edm_type p \<noteq> UNSUPPORTED \<longrightarrow> type_text (p_duckdb_type p))"

lemma property_index_Some:
  "property_index ent lower = Some p \<Longrightarrow> p \<in> set (e_properties ent) \<and> ToLower (p_name p) = lower"
  by (auto simp: property_index_def find_Some_iff rev_nth)

lemma plain_ResolveLiteralType: "plain_types ent \<Longrightarrow> plain_text (ResolveLiteralType ent e)"
  by (induction ent e rule: ResolveLiteralType.induct)
     (auto simp: plain_types_def type_text_def Let_def plain_char_def dest!: property_index_Some split: option.split)

lemma compiled_property:
  "ResolveProperty ent name = Inr sql \<Longrightarrow> compiled_ok ent sql [] [name]"
  unfolding compiled_ok_def ResolveProperty_def
  by (auto split: option.splits dest!: property_index_Some
      intro!: exI [of _ "[_]"] safe_ident)

lemma safe_real_literal: "safe_sql (real_literal d) [] []"
proof -
  have dig: "plain_text (nat_to_string n)" "plain_text (pad6 n)" for n
    by (auto intro!: plain_text_digits dest: nat_to_string_digits pad6_digits)
  have num: "safe_sql ((if neg then ''-'' else []) @ a) [] []" if "plain_text a" "a \<noteq> []" for neg a
    using that by (simp add: safe_negative safe_plain)
  have dot: "plain_text (nat_to_string n @ ''.'' @ pad6 k)" for n k
    using dig by (simp add: plain_char_def)
  show ?thesis
  proof (cases d)
    case (NaN neg)
    then show ?thesis using num [of "''nan.0''" neg] by (auto simp: real_literal_def plain_char_def)
  next
    case (Infty neg)
    then show ?thesis using num [of "''inf.0''" neg] by (auto simp: real_literal_def plain_char_def)
  next
    case (Fin neg m e)
    have "to_string_double d = (if neg then ''-'' else []) @
        (nat_to_string (fixed6 m e div 10 ^ 6) @ ''.'' @ pad6 (fixed6 m e mod 10 ^ 6))"
      by (simp only: Fin to_string_double.simps)
    then have "real_literal d = (if neg then ''-'' else []) @
        (nat_to_string (fixed6 m e div 10 ^ 6) @ ''.'' @ pad6 (fixed6 m e mod 10 ^ 6))"
      by (simp add: real_literal_def)
    then show ?thesis by (simp only:) (rule num [OF dot], simp)
  qed
qed

lemma safe_CompileLiteral:
  assumes "plain_text ty"
  shows "safe_sql (CompileLiteral lit ty) (literal_strings lit) []"
proof (cases lit)
  case (StringLit s)
  have "safe_sql (''CAST('' @ (QuoteStringLiteral s @ ('' AS '' @ ty @ '')''))) [s] []"
    by (rule safe_glue [OF _ safe_glue_after [OF safe_string]])
       (use assms in \<open>simp_all add: glue_def glue_after_def plain_char_def boundary_char_def word_char_def\<close>)
  with StringLit show ?thesis by (simp add: Let_def safe_string)
qed (auto simp: safe_to_string safe_real_literal safe_plain plain_char_def)

lemma compiled_literal:
  "plain_text ty \<Longrightarrow> compiled_ok ent (CompileLiteral lit ty) (expr_strings (Literal lit)) (expr_properties (Literal lit))"
  by (simp add: compiled_plain safe_CompileLiteral)

lemma compiled_join_operands:
  assumes "compiled_ok ent a ss ps" "compiled_ok ent b ss' ps'"
  shows "compiled_ok ent (join_operands op a b) (ss @ ss') (ps @ ps')"
proof -
  have g: "glue_after ('' '' @ sql_op op @ '' '')" "glue ('' '' @ sql_op op @ '' '')"
    by (cases op; simp add: sql_op_def glue_def glue_after_def plain_char_def boundary_char_def word_char_def)+
  have base: "compiled_ok ent (a @ ('' '' @ sql_op op @ '' '') @ b) (ss @ ss') (ps @ ps')"
    by (rule compiled_append [OF assms g])
  have "compiled_ok ent (''('' @ (a @ ('' '' @ sql_op op @ '' '') @ b) @ '')'') (ss @ ss') (ps @ ps')"
    by (rule compiled_surround [OF base])
       (simp_all add: glue_def glue_after_def plain_char_def boundary_char_def word_char_def)
  with base show ?thesis by (simp add: join_operands_def)
qed

lemma null_test_glue: "null_test op = Some g \<Longrightarrow> glue_after g"
  by (cases op) (auto simp: null_test_def glue_after_def plain_char_def boundary_char_def)

lemma find_function_plain:
  "find_function lower = Some (a, f, lo, hi) \<Longrightarrow> glue (f @ ''('')"
proof -
  assume "find_function lower = Some (a, f, lo, hi)"
  then have "(a, f, lo, hi) \<in> set GetFunctionMap"
    unfolding find_function_def find_Some_iff by (metis nth_mem)
  then show ?thesis
    by (auto simp: GetFunctionMap_def glue_def plain_char_def word_char_def)
qed

lemma Compile_ok:
  assumes "plain_types ent"
  shows "Compile ent ex = Inr sql \<Longrightarrow> compiled_ok ent sql (expr_strings ex) (expr_properties ex)"
proof (induction ex arbitrary: sql)
  case (PropertyExpr name)
  then show ?case by (simp add: compiled_property)
next
  case (Literal lit)
  then show ?case using compiled_literal [of "[]" ent lit] by simp
next
  case (UnaryExpr op ex)
  then obtain x where "compiled_ok ent x (expr_strings ex) (expr_properties ex)"
    "sql = ''(NOT '' @ x @ '')''"
    by (auto simp: bindE_Inr_iff)
  moreover have "glue ''(NOT ''" "glue_after '')''"
    by (simp_all add: glue_def glue_after_def plain_char_def boundary_char_def word_char_def)
  ultimately show ?case
    using compiled_surround [of ent x _ _ "''(NOT ''" "'')''"] by simp
next
  case (BinaryExpr op l r)
  have opnd: "compiled_ok ent x (expr_strings e) (expr_properties e)"
    if "operand ent e other = Inr x" "\<And>y. Compile ent e = Inr y \<Longrightarrow> compiled_ok ent y (expr_strings e) (expr_properties e)"
    for e other x
  proof (cases e)
    case (Literal lit)
    with that(1) show ?thesis
      using compiled_literal [OF plain_ResolveLiteralType [OF assms], where lit = lit]
      by (auto simp: operand_def)
  qed (use that in \<open>auto simp: operand_def\<close>)
  have null: "expr_strings e = [] \<and> expr_properties e = []" if "IsNullLit e" for e
    using that by (simp add: IsNullLit_def)
  from BinaryExpr.prems show ?case
    unfolding Compile_Binary
    by (auto simp: bindE_Inr_iff null split: if_splits
        intro: compiled_glue_after null_test_glue BinaryExpr.IH
        intro!: compiled_join_operands [OF opnd opnd])
next
  case (FunctionCallExpr name args)
  have mapE: "list_all2 (\<lambda>x (ss, ps). compiled_ok ent x ss ps) xs
      (map (\<lambda>a. (expr_strings a, expr_properties a)) args)"
    if "mapE (Compile ent) args = Inr xs" for xs
    using that FunctionCallExpr.IH
    by (auto simp: mapE_Inr_list_all2 list_all2_conv_all_nth)
  have sep: "glue_after '', ''" "glue '', ''" "glue_after '')''"
    by (simp_all add: glue_def glue_after_def plain_char_def boundary_char_def word_char_def)
  have call: "compiled_ok ent ((f @ ''('') @ join_with '', '' xs @ '')'')
      (concat (map expr_strings args)) (concat (map expr_properties args))"
    if "mapE (Compile ent) args = Inr xs" "glue (f @ ''('')" for f xs
    using compiled_surround [OF compiled_join [OF mapE [OF that(1)] sep(1,2)] that(2) sep(3)]
    by (simp add: comp_def)
  have now: "args = []" if "find_function ''now'' = Some (a, f, lo, hi)" "\<not> hi < length args" for a f lo hi
    using that by (simp add: find_function_def GetFunctionMap_def)
  have nowtext: "compiled_ok ent ''now()'' [] []"
    by (rule compiled_plain, rule safe_plain) (simp add: plain_char_def)
  from FunctionCallExpr.prems show ?case
    using now nowtext call find_function_plain
    by (auto simp: Let_def bindE_Inr_iff split: option.splits prod.splits if_splits)
qed

section \<open>Comparisons of comparisons\<close>

text \<open>
  Only AND and OR are written with parentheses: two comparisons nested to the left and the same two
  nested to the right give the same text.
\<close>

lemma bindE_Inr_bind: "bindE (bindE m (\<lambda>x. Inr (f x))) g = bindE m (\<lambda>x. g (f x))"
  by (cases m) auto

lemma nonliteral_simps [simp]:
  "\<not> is_literal e \<Longrightarrow> \<not> IsNullLit e"
  by (auto simp: IsNullLit_def)

lemma Compile_nested_comparison:
  assumes "\<not> is_literal a" "\<not> is_literal b" "\<not> is_literal c"
    and "op \<notin> {AND, OR}" "op' \<notin> {AND, OR}"
  shows "Compile ent (BinaryExpr op' (BinaryExpr op a b) c) = Compile ent (BinaryExpr op a (BinaryExpr op' b c))"
  using assms
  by (cases "Compile ent a"; cases "Compile ent b"; cases "Compile ent c")
     (simp_all add: Compile_Binary operand_nonliteral join_operands_def)

end
