(* ===== verification/Sql_Compiler.thy ===== *)
theory Sql_Compiler
  imports Expression_Compiler Query_Options
begin

text \<open>
  The compiler from a normalized query to a SELECT statement, \<open>src/src/compiler/sql_compiler.cpp\<close>,
  with the proof that every statement it writes is one statement whose strings are those of the
  filter (or the key values) and whose identifiers name the table and properties of the entity.
\<close>

record CompiledQuery =
  cq_sql :: string
  cq_is_count :: bool

definition QuotedTable :: "EdmEntity \<Rightarrow> string" where
  "QuotedTable ent =
     (if e_catalog ent \<noteq> [] \<and> e_schema ent \<noteq> [] then
        QuoteIdentifier (e_catalog ent) @ ''.'' @ QuoteIdentifier (e_schema ent) @ ''.'' @
        QuoteIdentifier (e_table ent)
      else if e_schema ent \<noteq> [] then
        QuoteIdentifier (e_schema ent) @ ''.'' @ QuoteIdentifier (e_table ent)
      else QuoteIdentifier (e_table ent))"

text \<open>The code has no caller of \<open>IsStringDuckType\<close>; a literal of such a type is compiled without a cast.\<close>

definition IsStringDuckType :: "string \<Rightarrow> bool" where
  "IsStringDuckType ty =
     (let t = ToLower ty; base = Trim (case split_first (CHR ''('') t of None \<Rightarrow> t | Some (b, _) \<Rightarrow> b)
      in base \<in> {''varchar'', ''text'', ''string'', ''char'', ''bpchar'', ''uuid'', ''blob''})"

lemma IsStringDuckType_uncast: "IsStringDuckType ty \<Longrightarrow> CompileLiteral (StringLit s) ty = QuoteStringLiteral s"
  by (auto simp: IsStringDuckType_def IsStringBase_def BaseTypeOf_def Let_def)

definition key_value :: "string \<Rightarrow> string" where
  "key_value raw = (if in_single_quotes raw then undouble (butlast (tl raw)) else raw)"

definition KeyLiteralSql :: "EdmProperty \<Rightarrow> string \<Rightarrow> string" where
  "KeyLiteralSql p raw =
     (if p_edm_type p \<in> {STRING, GUID, BINARY} then QuoteStringLiteral (key_value raw)
      else ''CAST('' @ QuoteStringLiteral (key_value raw) @ '' AS '' @ p_duckdb_type p @ '')'')"

definition same_name :: "string \<Rightarrow> EdmProperty \<Rightarrow> bool" where
  "same_name name p \<longleftrightarrow> ToLower (p_name p) = ToLower name"

definition msg_missing :: "string \<Rightarrow> string \<Rightarrow> EdmEntity \<Rightarrow> string" where
  "msg_missing option_name name ent =
     option_name @ '' property '' @ [CHR 0x27] @ name @ [CHR 0x27] @ '' does not exist on entity '' @
     [CHR 0x27] @ e_name ent @ [CHR 0x27]"

definition select_property :: "EdmEntity \<Rightarrow> string \<Rightarrow> EdmProperty res" where
  "select_property ent name =
     (case find (same_name name) (e_properties ent) of
        Some p \<Rightarrow> Inr p
      | None \<Rightarrow> Inl (ODataParseException (msg_missing ''$select'' name ent)))"

definition select_text :: "EdmProperty list \<Rightarrow> string" where
  "select_text ps =
     (if ps = [] then ''*'' else join_with '', '' (map (\<lambda>p. QuoteIdentifier (p_name p)) ps))"

definition CompileSelectList :: "ODataQuery \<Rightarrow> EdmEntity \<Rightarrow> string res" where
  "CompileSelectList q ent =
     bindE (if q_select q = [] then Inr (e_properties ent)
            else mapE (select_property ent) (q_select q))
       (\<lambda>selected. Inr (select_text selected))"

definition CompileFilterText :: "ODataQuery \<Rightarrow> EdmEntity \<Rightarrow> string res" where
  "CompileFilterText q ent = (case q_filter q of None \<Rightarrow> Inr [] | Some f \<Rightarrow> Compile ent f)"

definition order_term :: "EdmEntity \<Rightarrow> OrderByTerm \<Rightarrow> string res" where
  "order_term ent t =
     (case find (same_name (ob_property t)) (e_properties ent) of
        Some _ \<Rightarrow> Inr (QuoteIdentifier (ob_property t) @
                       (case ob_order t of DESC \<Rightarrow> '' DESC'' | ASC \<Rightarrow> '' ASC''))
      | None \<Rightarrow> Inl (ODataParseException (msg_missing ''$orderby'' (ob_property t) ent)))"

definition where_clause :: "string \<Rightarrow> string" where
  "where_clause w = (if w \<noteq> [] then '' WHERE '' @ w else [])"

definition order_clause :: "string list \<Rightarrow> string" where
  "order_clause terms = (if terms \<noteq> [] then '' ORDER BY '' @ join_with '', '' terms else [])"

text \<open>The \<open>LIMIT\<close> of a query: \<open>-1\<close> when there is none.\<close>

definition effective_top :: "ODataQuery \<Rightarrow> int \<Rightarrow> int" where
  "effective_top q max_top =
     (if 0 \<le> q_top q then if 0 \<le> max_top \<and> max_top < q_top q then max_top else q_top q else - 1)"

definition limit_clause :: "int \<Rightarrow> string" where
  "limit_clause n = (if 0 \<le> n then '' LIMIT '' @ to_string n else [])"

definition offset_clause :: "ODataQuery \<Rightarrow> string" where
  "offset_clause q = (if 0 \<le> q_skip q then '' OFFSET '' @ to_string (q_skip q) else [])"

definition CompileCollection :: "ODataQuery \<Rightarrow> EdmEntity \<Rightarrow> int \<Rightarrow> CompiledQuery res" where
  "CompileCollection q ent max_top =
     bindE (CompileSelectList q ent) (\<lambda>select_list.
     bindE (CompileFilterText q ent) (\<lambda>wh.
     bindE (mapE (order_term ent) (q_order_by q)) (\<lambda>terms.
       Inr \<lparr>cq_sql = ''SELECT '' @ select_list @ '' FROM '' @ QuotedTable ent @ where_clause wh @
                     order_clause terms @ limit_clause (effective_top q max_top) @ offset_clause q,
            cq_is_count = False\<rparr>)))"

definition CompileCount :: "ODataQuery \<Rightarrow> EdmEntity \<Rightarrow> CompiledQuery res" where
  "CompileCount q ent =
     bindE (CompileFilterText q ent) (\<lambda>wh.
       Inr \<lparr>cq_sql = ''SELECT COUNT(*) AS __odata_count FROM '' @ QuotedTable ent @ where_clause wh,
            cq_is_count = True\<rparr>)"

definition msg_no_key :: "EdmEntity \<Rightarrow> string" where
  "msg_no_key ent =
     ''entity '' @ [CHR 0x27] @ e_name ent @ [CHR 0x27] @ '' has no key configured''"

definition msg_key_count :: "nat \<Rightarrow> nat \<Rightarrow> string" where
  "msg_key_count want got =
     ''key lookup expects '' @ to_string (int want) @ '' key value(s), got '' @ to_string (int got)"

definition key_condition :: "EdmProperty \<Rightarrow> string \<Rightarrow> string" where
  "key_condition p v = QuoteIdentifier (p_name p) @ '' = '' @ KeyLiteralSql p v"

definition CompileByKey :: "ODataQuery \<Rightarrow> EdmEntity \<Rightarrow> string list \<Rightarrow> CompiledQuery res" where
  "CompileByKey q ent key_values =
     (let keys = filter p_is_key (e_properties ent)
      in if keys = [] then Inl (ODataParseException (msg_no_key ent))
         else if length key_values \<noteq> length keys
           then Inl (ODataParseException (msg_key_count (length keys) (length key_values)))
         else
           bindE (CompileSelectList q ent) (\<lambda>select_list.
             Inr \<lparr>cq_sql = ''SELECT '' @ select_list @ '' FROM '' @ QuotedTable ent @ '' WHERE '' @
                           join_with '' AND '' (map2 key_condition keys key_values) @ '' LIMIT 1'',
                  cq_is_count = False\<rparr>))"

section \<open>Limits\<close>

lemma effective_top_bound: "0 \<le> max_top \<Longrightarrow> effective_top q max_top \<le> max_top"
  by (simp add: effective_top_def)

lemma effective_top_min:
  "0 \<le> max_top \<Longrightarrow> 0 \<le> q_top q \<Longrightarrow> effective_top q max_top = min (q_top q) max_top"
  by (simp add: effective_top_def)

section \<open>Errors\<close>

lemma CompileSelectList_Inl: "CompileSelectList q ent = Inl e \<Longrightarrow> \<exists>m. e = ODataParseException m"
  by (auto simp: CompileSelectList_def bindE_Inl_iff select_property_def
      split: if_splits option.splits dest!: mapE_Inl_mem)

lemma CompileFilterText_Inl: "CompileFilterText q ent = Inl e \<Longrightarrow> \<exists>m. e = ODataParseException m"
  by (auto simp: CompileFilterText_def split: option.splits dest: Compile_Inl)

lemma order_term_Inl: "order_term ent t = Inl e \<Longrightarrow> \<exists>m. e = ODataParseException m"
  by (auto simp: order_term_def split: option.splits)

lemma CompileCollection_Inl:
  "CompileCollection q ent mt = Inl e \<Longrightarrow> \<exists>m. e = ODataParseException m"
  by (auto simp: CompileCollection_def bindE_Inl_iff dest: CompileSelectList_Inl
      CompileFilterText_Inl order_term_Inl dest!: mapE_Inl_mem)

lemma CompileCount_Inl: "CompileCount q ent = Inl e \<Longrightarrow> \<exists>m. e = ODataParseException m"
  by (auto simp: CompileCount_def bindE_Inl_iff dest: CompileFilterText_Inl)

lemma CompileByKey_Inl: "CompileByKey q ent vs = Inl e \<Longrightarrow> \<exists>m. e = ODataParseException m"
  by (auto simp: CompileByKey_def Let_def bindE_Inl_iff dest: CompileSelectList_Inl split: if_splits)

section \<open>The statements are read back\<close>

definition names_ok :: "EdmEntity \<Rightarrow> string list \<Rightarrow> bool" where
  "names_ok ent ids \<longleftrightarrow>
     ToLower ` set ids \<subseteq>
       ToLower ` ({e_catalog ent, e_schema ent, e_table ent} \<union> p_name ` set (e_properties ent))"

lemma names_ok_simps [simp]:
  "names_ok ent []" "names_ok ent (a @ b) \<longleftrightarrow> names_ok ent a \<and> names_ok ent b"
  by (auto simp: names_ok_def)

lemma names_okI: "set ids \<subseteq> p_name ` set (e_properties ent) \<Longrightarrow> names_ok ent ids"
  by (auto simp: names_ok_def)

lemma names_ok_concat: "(\<And>x. x \<in> set xs \<Longrightarrow> names_ok ent x) \<Longrightarrow> names_ok ent (concat xs)"
  by (induction xs) auto

text \<open>A piece with its strings whose identifiers are names of the entity.\<close>

definition piece :: "EdmEntity \<Rightarrow> string \<Rightarrow> string list \<Rightarrow> bool" where
  "piece ent sql ss \<longleftrightarrow> (\<exists>ids. safe_sql sql ss ids \<and> names_ok ent ids)"

lemma piece_glue: "piece ent b ss \<Longrightarrow> glue g \<Longrightarrow> piece ent (g @ b) ss"
  unfolding piece_def by (blast intro: safe_glue)

lemma piece_glue_after: "piece ent b ss \<Longrightarrow> glue_after g \<Longrightarrow> piece ent (b @ g) ss"
  unfolding piece_def by (blast intro: safe_glue_after)

lemma piece_append:
  assumes "piece ent a ss" "piece ent b ss'" "glue_after g" "glue g"
  shows "piece ent (a @ g @ b) (ss @ ss')"
proof -
  from assms obtain ia ib where "safe_sql a ss ia" "safe_sql b ss' ib" "names_ok ent ia" "names_ok ent ib"
    unfolding piece_def by blast
  with assms(3,4) show ?thesis
    unfolding piece_def by (intro exI [of _ "ia @ ib"]) (simp add: safe_append)
qed

lemma piece_join:
  assumes "list_all2 (piece ent) xs sss" "glue_after sep" "glue sep"
  shows "piece ent (join_with sep xs) (concat sss)"
  using assms(1)
proof (induction xs sss rule: list_all2_induct)
  case Nil
  then show ?case unfolding piece_def by (intro exI [of _ "[]"]) (simp add: safe_plain)
next
  case (Cons x xs ss sss)
  then show ?case
    using assms(2,3) by (cases "xs = []") (auto intro: piece_append)
qed

lemmas glue_simps = glue_def glue_after_def plain_char_def boundary_char_def word_char_def

lemma safe_QuotedTable:
  "\<exists>ids. safe_sql (QuotedTable ent) [] ids \<and> set ids \<subseteq> {e_catalog ent, e_schema ent, e_table ent}"
proof -
  have dot: "glue_after ''.''" "glue ''.''" by (simp_all add: glue_simps)
  have two: "safe_sql (QuoteIdentifier a @ ''.'' @ QuoteIdentifier b) [] [a, b]" for a b
    using safe_append [OF safe_ident dot safe_ident, of a b] by simp
  have three: "safe_sql (QuoteIdentifier a @ ''.'' @ QuoteIdentifier b @ ''.'' @ QuoteIdentifier c) [] [a, b, c]"
    for a b c
    using safe_append [OF safe_ident dot two, of a b c] by simp
  consider "e_catalog ent \<noteq> []" "e_schema ent \<noteq> []" | "e_catalog ent = []" "e_schema ent \<noteq> []" | "e_schema ent = []"
    by blast
  then show ?thesis
  proof cases
    case 1
    with three show ?thesis
      by (intro exI [of _ "[e_catalog ent, e_schema ent, e_table ent]"]) (simp add: QuotedTable_def)
  next
    case 2
    with two show ?thesis
      by (intro exI [of _ "[e_schema ent, e_table ent]"]) (simp add: QuotedTable_def)
  next
    case 3
    with safe_ident show ?thesis
      by (intro exI [of _ "[e_table ent]"]) (simp add: QuotedTable_def)
  qed
qed

lemma piece_QuotedTable: "piece ent (QuotedTable ent) []"
  using safe_QuotedTable [of ent] unfolding piece_def names_ok_def by blast

lemma piece_property: "p \<in> set (e_properties ent) \<Longrightarrow> piece ent (QuoteIdentifier (p_name p)) []"
  unfolding piece_def by (intro exI [of _ "[p_name p]"]) (auto simp: safe_ident names_ok_def)

lemma concat_map_Nil [simp]: "concat (map (\<lambda>_. []) xs) = []"
  by simp

lemma piece_select_text:
  assumes "set ps \<subseteq> set (e_properties ent)"
  shows "piece ent (select_text ps) []"
proof (cases "ps = []")
  case True
  then show ?thesis
    unfolding piece_def by (intro exI [of _ "[]"]) (simp add: select_text_def safe_plain plain_char_def)
next
  case False
  have "piece ent (join_with '', '' (map (\<lambda>p. QuoteIdentifier (p_name p)) ps)) (concat (map (\<lambda>_. []) ps))"
    using assms
    by (intro piece_join) (auto simp: glue_simps list_all2_conv_all_nth intro!: piece_property)
  with False show ?thesis by (simp add: select_text_def)
qed

lemma piece_select_list: "CompileSelectList q ent = Inr s \<Longrightarrow> piece ent s []"
proof -
  have mem: "p \<in> set (e_properties ent)" if "select_property ent n = Inr p" for n p
    using that by (auto simp: select_property_def split: option.splits dest: find_SomeD)
  have sub: "set ps \<subseteq> set (e_properties ent)" if "mapE (select_property ent) ns = Inr ps" for ns ps
    using that by (induction ns arbitrary: ps) (auto simp: bindE_Inr_iff dest: mem)
  assume "CompileSelectList q ent = Inr s"
  then show ?thesis
    using sub by (auto simp: CompileSelectList_def bindE_Inr_iff intro!: piece_select_text split: if_splits)
qed

lemma piece_filter:
  assumes "plain_types ent" "CompileFilterText q ent = Inr wh"
  shows "piece ent wh (case q_filter q of None \<Rightarrow> [] | Some f \<Rightarrow> expr_strings f)"
proof (cases "q_filter q")
  case None
  with assms(2) show ?thesis
    unfolding piece_def by (intro exI [of _ "[]"]) (simp add: CompileFilterText_def safe_plain)
next
  case (Some f)
  with assms Compile_ok [OF assms(1), of f wh] show ?thesis
    by (auto simp: CompileFilterText_def compiled_ok_def piece_def intro: names_okI)
qed

lemma piece_order_term: "order_term ent t = Inr s \<Longrightarrow> piece ent s []"
proof -
  assume s: "order_term ent t = Inr s"
  then obtain p where "p \<in> set (e_properties ent)" "same_name (ob_property t) p"
    by (auto simp: order_term_def split: option.splits dest: find_SomeD)
  then have "ToLower (ob_property t) \<in> ToLower ` p_name ` set (e_properties ent)"
    by (auto simp: same_name_def image_iff dest: sym)
  then have "piece ent (QuoteIdentifier (ob_property t)) []"
    unfolding piece_def by (intro exI [of _ "[ob_property t]"]) (auto simp: safe_ident names_ok_def)
  then show ?thesis
    using s by (auto simp: order_term_def glue_simps split: option.splits SortOrder.splits
        intro!: piece_glue_after)
qed

text \<open>The clauses of a statement, each empty or starting with a blank.\<close>

definition clause :: "EdmEntity \<Rightarrow> string \<Rightarrow> string list \<Rightarrow> bool" where
  "clause ent sql ss \<longleftrightarrow> (sql = [] \<and> ss = []) \<or> (\<exists>b. sql = CHR '' '' # b \<and> piece ent b ss)"

lemma piece_clause: "piece ent a ss \<Longrightarrow> clause ent b ss' \<Longrightarrow> piece ent (a @ b) (ss @ ss')"
  using piece_append [of ent a ss _ ss' "'' ''"] by (auto simp: clause_def glue_simps)

lemma clause_glue: "glue g \<Longrightarrow> piece ent b ss \<Longrightarrow> clause ent ((CHR '' '' # g) @ b) ss"
  by (auto simp: clause_def intro: piece_glue)

lemma clause_where:
  assumes "piece ent wh ss" "wh = [] \<Longrightarrow> ss = []"
  shows "clause ent (where_clause wh) ss"
  using assms clause_glue [of "''WHERE ''" ent wh ss]
  by (auto simp: where_clause_def glue_simps) (simp add: clause_def)

lemma clause_order:
  assumes "mapE (order_term ent) ts = Inr terms"
  shows "clause ent (order_clause terms) []"
proof (cases "terms = []")
  case False
  have "piece ent (join_with '', '' terms) (concat (map (\<lambda>_. []) terms))"
    using assms
    by (intro piece_join)
       (auto simp: glue_simps mapE_Inr_list_all2 list_all2_conv_all_nth intro!: piece_order_term)
  then show ?thesis
    using False clause_glue [of "''ORDER BY ''" ent "join_with '', '' terms" "[]"]
    by (simp add: order_clause_def glue_simps)
qed (simp add: order_clause_def clause_def)

lemma piece_to_string: "piece ent (to_string v) []"
  unfolding piece_def by (intro exI [of _ "[]"]) (simp add: safe_to_string)

lemma clause_limit: "clause ent (limit_clause t) []"
  using clause_glue [of "''LIMIT ''" ent "to_string t" "[]"]
  by (auto simp: limit_clause_def glue_simps piece_to_string) (simp add: clause_def)

lemma clause_offset: "clause ent (offset_clause q) []"
  using clause_glue [of "''OFFSET ''" ent "to_string (q_skip q)" "[]"]
  by (auto simp: offset_clause_def glue_simps piece_to_string) (simp add: clause_def)

lemma compiled_text_nonempty: "Compile ent e = Inr [] \<Longrightarrow> expr_strings e = []"
proof (induction e)
  case (Literal lit)
  then show ?case by (cases lit) (auto simp: Let_def QuoteStringLiteral_def split: if_splits)
next
  case (BinaryExpr op l r)
  then show ?case
    by (auto simp: Compile_Binary bindE_Inr_iff join_operands_def null_test_def
        split: if_splits BinaryOp.splits)
qed (auto simp: bindE_Inr_iff Let_def split: option.splits prod.splits if_splits)

lemma clause_filter:
  assumes "plain_types ent" "CompileFilterText q ent = Inr wh"
  shows "clause ent (where_clause wh) (case q_filter q of None \<Rightarrow> [] | Some f \<Rightarrow> expr_strings f)"
  using assms
  by (intro clause_where piece_filter)
     (auto simp: CompileFilterText_def compiled_text_nonempty split: option.splits)

definition filter_strings :: "ODataQuery \<Rightarrow> string list" where
  "filter_strings q = (case q_filter q of None \<Rightarrow> [] | Some f \<Rightarrow> expr_strings f)"

lemma piece_from:
  "piece ent s [] \<Longrightarrow> piece ent (s @ '' FROM '' @ QuotedTable ent) []"
  using piece_append [of ent s "[]" "QuotedTable ent" "[]" "'' FROM ''"]
  by (simp add: piece_QuotedTable glue_simps)

lemma piece_statement:
  "piece ent b ss \<Longrightarrow> piece ent (''SELECT '' @ b) ss"
  by (rule piece_glue) (simp_all add: glue_simps)

lemma piece_CompileCollection:
  assumes "plain_types ent" "CompileCollection q ent mt = Inr cq"
  shows "piece ent (cq_sql cq) (filter_strings q)"
proof -
  from assms(2) obtain sl wh terms where parts: "CompileSelectList q ent = Inr sl"
    "CompileFilterText q ent = Inr wh" "mapE (order_term ent) (q_order_by q) = Inr terms"
    and sql: "cq_sql cq = ''SELECT '' @ sl @ '' FROM '' @ QuotedTable ent @ where_clause wh @
        order_clause terms @ limit_clause (effective_top q mt) @ offset_clause q"
    by (auto simp: CompileCollection_def bindE_Inr_iff)
  have "piece ent (''SELECT '' @ ((((((sl @ '' FROM '' @ QuotedTable ent) @ where_clause wh) @
      order_clause terms) @ limit_clause (effective_top q mt)) @ offset_clause q)))
      (((([] @ filter_strings q) @ []) @ []) @ [])"
    using parts assms(1) unfolding filter_strings_def
    by (intro piece_statement piece_clause piece_from piece_select_list clause_filter clause_order
        clause_limit clause_offset)
  then show ?thesis by (simp add: sql)
qed

lemma piece_CompileCount:
  assumes "plain_types ent" "CompileCount q ent = Inr cq"
  shows "piece ent (cq_sql cq) (filter_strings q)"
proof -
  from assms(2) obtain wh where wh: "CompileFilterText q ent = Inr wh"
    and sql: "cq_sql cq = ''SELECT '' @ ((''COUNT(*) AS __odata_count'' @ '' FROM '' @ QuotedTable ent)
        @ where_clause wh)"
    by (auto simp: CompileCount_def bindE_Inr_iff)
  have "piece ent ''COUNT(*) AS __odata_count'' []"
    unfolding piece_def by (intro exI [of _ "[]"]) (simp add: safe_plain plain_char_def)
  from piece_statement [OF piece_clause [OF piece_from [OF this] clause_filter [OF assms(1) wh]]]
  show ?thesis by (simp add: sql filter_strings_def)
qed

text \<open>The types of the key columns that are cast are plain as well.\<close>

definition plain_keys :: "EdmEntity \<Rightarrow> bool" where
  "plain_keys ent \<longleftrightarrow>
     (\<forall>p \<in> set (e_properties ent). p_is_key p \<longrightarrow> type_text (p_duckdb_type p))"

lemma piece_key_condition:
  assumes "p \<in> set (e_properties ent)" "plain_text (p_duckdb_type p)"
  shows "piece ent (key_condition p v) [key_value v]"
proof -
  have str: "piece ent (QuoteStringLiteral w) [w]" for w
    unfolding piece_def by (intro exI [of _ "[]"]) (simp add: safe_string)
  have "glue ''CAST(''" "glue_after ('' AS '' @ p_duckdb_type p @ '')'')"
    using assms(2) by (simp_all add: glue_simps)
  then have "piece ent (''CAST('' @ (QuoteStringLiteral w @ ('' AS '' @ p_duckdb_type p @ '')''))) [w]" for w
    using str by (intro piece_glue piece_glue_after)
  with str have "piece ent (KeyLiteralSql p v) [key_value v]"
    by (simp add: KeyLiteralSql_def)
  from piece_append [OF piece_property [OF assms(1)] this, of "'' = ''"] show ?thesis
    by (simp add: key_condition_def glue_simps)
qed

lemma piece_CompileByKey:
  assumes "plain_keys ent" "CompileByKey q ent vs = Inr cq"
  shows "piece ent (cq_sql cq) (map key_value vs)"
proof -
  define keys where "keys = filter p_is_key (e_properties ent)"
  from assms(2) obtain sl where sl: "CompileSelectList q ent = Inr sl" "length vs = length keys"
    and sql: "cq_sql cq = ''SELECT '' @ sl @ '' FROM '' @ QuotedTable ent @ '' WHERE '' @
        join_with '' AND '' (map2 key_condition keys vs) @ '' LIMIT 1''"
    by (auto simp: CompileByKey_def Let_def bindE_Inr_iff keys_def split: if_splits)
  have keys: "p \<in> set (e_properties ent) \<and> plain_text (p_duckdb_type p)" if "p \<in> set keys" for p
    using that assms(1) by (auto simp: keys_def plain_keys_def type_text_def)
  have "piece ent (join_with '' AND '' (map2 key_condition keys vs)) (concat (map (\<lambda>v. [key_value v]) vs))"
    using sl(2) keys
    by (intro piece_join) (auto simp: list_all2_conv_all_nth glue_simps intro!: piece_key_condition)
  also have "concat (map (\<lambda>v. [key_value v]) vs) = map key_value vs" by (induction vs) auto
  finally have cond: "piece ent (join_with '' AND '' (map2 key_condition keys vs)) (map key_value vs)" .
  have wh: "glue_after '' WHERE ''" "glue '' WHERE ''" "glue_after '' LIMIT 1''"
    by (simp_all add: glue_simps)
  have "piece ent (''SELECT '' @ (((sl @ '' FROM '' @ QuotedTable ent) @ '' WHERE '' @
      join_with '' AND '' (map2 key_condition keys vs)) @ '' LIMIT 1'')) ([] @ map key_value vs)"
    using sl(1) cond wh
    by (intro piece_statement piece_glue_after piece_append piece_from piece_select_list)
  then show ?thesis by (simp add: sql)
qed

text \<open>The reading of a statement.\<close>

definition reads_as :: "EdmEntity \<Rightarrow> string \<Rightarrow> string list \<Rightarrow> bool" where
  "reads_as ent sql ss \<longleftrightarrow>
     (case sql_lex sql of
        None \<Rightarrow> False
      | Some toks \<Rightarrow> strings_of toks = ss \<and>
          (\<forall>i \<in> set (idents_of toks).
             ToLower i \<in> set (map ToLower ([e_catalog ent, e_schema ent, e_table ent]
                                             @ map p_name (e_properties ent)))))"

lemma piece_reads_as: "piece ent sql ss \<Longrightarrow> reads_as ent sql ss"
proof -
  assume "piece ent sql ss"
  then obtain ids toks where "sql_lex sql = Some toks" "strings_of toks = ss" "idents_of toks = ids"
    "names_ok ent ids"
    unfolding piece_def using safe_sql_lex by blast
  then show ?thesis unfolding reads_as_def names_ok_def by auto
qed

end
