(* ===== verification/Write_Executor.thy ===== *)
theory Write_Executor
  imports Metadata_Generator Result_Serializer Http_Response Sql_Compiler
begin

text \<open>
  POST, PATCH and DELETE, \<open>src/src/execution/write_executor.cpp\<close>. The JSON parser yyjson is not part
  of the repository: it is a parameter that gives the root value of a body, numbers as raw text.
  An early \<open>return Error(status, message)\<close> is \<open>WF_Err\<close>, an exception \<open>WF_Exn\<close>. The destructor of
  \<open>Transaction\<close> is the \<open>ROLLBACK\<close> of every path that did not commit.
\<close>

datatype yyval =
    Y_Null
  | Y_Str string
  | Y_Raw string
  | Y_Bool bool
  | Y_Arr "yyval list"
  | Y_Obj "(string \<times> yyval) list"

datatype write_fail = WF_Err int string | WF_Exn exn

section \<open>The functions\<close>

definition WriteError :: "int \<Rightarrow> string \<Rightarrow> HttpResponse" where
  "WriteError status message =
     \<lparr>rs_status = status,
      rs_headers = map_put ''OData-Version'' ''4.0'' (map_put ''Content-Type'' ''application/json'' []),
      rs_body = ''{\"error\":{\"code\":\"WriteError\",\"message\":\"'' @ JsonEscape message @ ''\"}}''\<rparr>"

definition path_hex :: "nat \<Rightarrow> char" where
  "path_hex d = ''0123456789ABCDEF'' ! d"

definition encode_path_char :: "char \<Rightarrow> string" where
  "encode_path_char c =
     (if islower c \<or> isupper c \<or> isdigit c \<or> c = CHR ''-'' \<or> c = CHR ''_'' then [c]
      else [CHR ''%'', path_hex (code c div 16), path_hex (code c mod 16)])"

definition EncodePath :: "string \<Rightarrow> string" where
  "EncodePath txt = concat (map encode_path_char txt)"

text \<open>The loop over the properties of the entity keeps the last one of a name.\<close>

definition write_property :: "EdmEntity \<Rightarrow> string \<Rightarrow> EdmProperty option" where
  "write_property ent field = find (\<lambda>p. ToLower (p_name p) = ToLower field) (rev (e_properties ent))"

definition json_param :: "EdmProperty \<Rightarrow> string \<Rightarrow> yyval \<Rightarrow> write_fail + dparam" where
  "json_param p field v =
     (case v of
        Y_Null \<Rightarrow> if \<not> p_nullable p \<or> p_is_key p then Inl (WF_Err 400 (''null is not allowed: '' @ field))
                  else Inr ParamNull
      | Y_Str s \<Rightarrow> Inr (ParamText s)
      | Y_Raw s \<Rightarrow> Inr (ParamText s)
      | Y_Bool b \<Rightarrow> Inr (ParamBool b)
      | _ \<Rightarrow> Inl (WF_Err 400 (''property must be a scalar: '' @ field)))"

fun write_fields :: "EdmEntity \<Rightarrow> bool \<Rightarrow> string list \<Rightarrow> (string \<times> yyval) list
    \<Rightarrow> write_fail + (EdmProperty \<times> dparam) list" where
  "write_fields ent update seen [] = Inr []"
| "write_fields ent update seen ((field, v) # fs) =
     (if ToLower field \<in> set seen then Inl (WF_Err 400 (''duplicate property: '' @ field))
      else case write_property ent field of
        None \<Rightarrow> Inl (WF_Err 400 (''unknown or hidden property: '' @ field))
      | Some p \<Rightarrow>
          if \<not> p_serializable p \<or> p_edm_type p = BINARY
          then Inl (WF_Err 400 (''unsupported write type: '' @ field))
          else if update \<and> p_is_key p then Inl (WF_Err 400 ''PATCH cannot change the key'')
          else bindE (json_param p field v) (\<lambda>param.
               bindE (write_fields ent update (ToLower field # seen) fs) (\<lambda>rest.
                 Inr ((p, param) # rest))))"

definition media_type :: "HttpRequest \<Rightarrow> string" where
  "media_type rq = ToLower (Trim (takeWhile (\<lambda>c. c \<noteq> CHR '';'') (GetHeader rq ''Content-Type'')))"

definition is_insert :: "HttpRequest \<Rightarrow> bool" where
  "is_insert rq \<longleftrightarrow> rq_method rq = ''POST''"

definition is_update :: "HttpRequest \<Rightarrow> bool" where
  "is_update rq \<longleftrightarrow> rq_method rq = ''PATCH''"

definition write_key :: "EdmEntity \<Rightarrow> write_fail + EdmProperty" where
  "write_key ent =
     (case filter p_is_key (e_properties ent) of
        [] \<Rightarrow> Inl (WF_Err 400 ''writes require an exposed key column'')
      | [k] \<Rightarrow> if \<not> p_serializable k \<or> p_edm_type k = BINARY
               then Inl (WF_Err 400 ''unsupported key type for writes'') else Inr k
      | _ \<Rightarrow> Inl (WF_Err 400 ''compound keys are not supported''))"

definition body_fields :: "(string \<Rightarrow> yyval option) \<Rightarrow> HttpRequest \<Rightarrow> EdmEntity
    \<Rightarrow> write_fail + (EdmProperty \<times> dparam) list" where
  "body_fields yyjson rq ent =
     (if is_insert rq \<or> is_update rq then
        (if media_type rq \<noteq> ''application/json''
         then Inl (WF_Err 415 ''Content-Type must be application/json'')
         else case yyjson (rq_body rq) of
           Some (Y_Obj members) \<Rightarrow>
             bindE (write_fields ent (is_update rq) [] members) (\<lambda>fs.
               if is_update rq \<and> fs = [] then Inl (WF_Err 400 ''PATCH requires at least one property'')
               else Inr fs)
         | _ \<Rightarrow> Inl (WF_Err 400 ''body must be a JSON object''))
      else if rq_body rq \<noteq> [] then Inl (WF_Err 400 ''DELETE must not contain a body'')
      else Inr [])"

definition write_table :: "EdmEntity \<Rightarrow> string" where
  "write_table ent =
     QuoteIdentifier (e_catalog ent) @ ''.'' @ QuoteIdentifier (e_schema ent) @ ''.'' @
     QuoteIdentifier (e_table ent)"

definition cast_mark :: "EdmProperty \<Rightarrow> string" where
  "cast_mark p = ''CAST(? AS '' @ p_duckdb_type p @ '')''"

definition assignment :: "EdmProperty \<Rightarrow> string" where
  "assignment p = QuoteIdentifier (p_name p) @ ''='' @ cast_mark p"

definition insert_sql :: "EdmEntity \<Rightarrow> EdmProperty list \<Rightarrow> string" where
  "insert_sql ent ps =
     ''INSERT INTO '' @ write_table ent @
     (if ps = [] then '' DEFAULT VALUES''
      else '' ('' @ join_with '','' (map (\<lambda>p. QuoteIdentifier (p_name p)) ps) @ '') VALUES ('' @
           join_with '','' (map cast_mark ps) @ '')'')"

definition key_where :: "EdmProperty \<Rightarrow> string" where
  "key_where k = '' WHERE '' @ QuoteIdentifier (p_name k) @ '' = CAST(? AS '' @ p_duckdb_type k @ '')''"

definition returning :: "EdmEntity \<Rightarrow> string" where
  "returning ent =
     '' RETURNING '' @ join_with '','' (map (\<lambda>p. QuoteIdentifier (p_name p)) (e_properties ent))"

definition write_sql :: "HttpRequest \<Rightarrow> EdmEntity \<Rightarrow> EdmProperty \<Rightarrow> EdmProperty list \<Rightarrow> string" where
  "write_sql rq ent k ps =
     (if is_insert rq then insert_sql ent ps
      else (if is_update rq then ''UPDATE '' @ write_table ent @ '' SET '' @ join_with '','' (map assignment ps)
            else ''DELETE FROM '' @ write_table ent) @ key_where k) @
     returning ent"

record write_plan =
  wp_key :: EdmProperty
  wp_sql :: string
  wp_values :: "dparam list"

definition prepare_write :: "(string \<Rightarrow> yyval option) \<Rightarrow> HttpRequest \<Rightarrow> EdmEntity \<Rightarrow> string list
    \<Rightarrow> write_fail + write_plan" where
  "prepare_write yyjson rq ent keys =
     (if rq_query rq \<noteq> [] then Inl (WF_Err 400 ''query options are not supported on writes'')
      else if HasHeader rq ''If-Match'' \<or> HasHeader rq ''If-None-Match''
        then Inl (WF_Err 400 ''conditional writes are not supported'')
      else if (is_insert rq \<and> keys \<noteq> []) \<or> (\<not> is_insert rq \<and> length keys \<noteq> 1)
        then Inl (WF_Err 400 ''POST requires a collection; PATCH and DELETE require one key'')
      else bindE (write_key ent) (\<lambda>k.
           bindE (body_fields yyjson rq ent) (\<lambda>fs.
             Inr \<lparr>wp_key = k, wp_sql = write_sql rq ent k (map fst fs),
                  wp_values = map snd fs @
                    (if is_insert rq then [] else [ParamText (key_value (hd keys))])\<rparr>)))"

definition location_literal :: "EdmProperty \<Rightarrow> string \<Rightarrow> string" where
  "location_literal k literal =
     (if p_edm_type k \<in> {STRING, GUID, DATE, TIME_OF_DAY, DATETIME_OFFSET}
      then QuoteStringLiteral literal else literal)"

definition location :: "string \<Rightarrow> EdmEntity \<Rightarrow> EdmProperty \<Rightarrow> string \<Rightarrow> string" where
  "location base ent k literal =
     base @ ''/'' @ EncodePath (e_name ent) @ ''('' @ EncodePath (location_literal k literal) @ '')''"

text \<open>The members of the created entity and its \<open>Location\<close>, column by column.\<close>

fun created_members :: "string \<Rightarrow> EdmEntity \<Rightarrow> EdmProperty \<Rightarrow> dvalue list list \<Rightarrow> nat \<Rightarrow> EdmProperty list
    \<Rightarrow> write_fail + ((string \<times> string) list \<times> string option)" where
  "created_members base ent k chunk i [] = Inr ([], None)"
| "created_members base ent k chunk i (p # ps) =
     (case cell chunk 0 i of
        Inl e \<Rightarrow> Inl (WF_Exn e)
      | Inr v \<Rightarrow>
          if p_is_key p \<and> dv_null v
          then Inl (WF_Err 409 ''inserted entity has a null key; write rolled back'')
          else bindE (created_members base ent k chunk (i + 1) ps) (\<lambda>(ms, later).
                 Inr ((JsonEscape (p_name p), ValueToJson v) # ms,
                      case later of Some l \<Rightarrow> Some l
                      | None \<Rightarrow> if p_is_key p then Some (location base ent k (dv_text v)) else None)))"

definition write_headers :: "string option \<Rightarrow> bool \<Rightarrow> string std_map" where
  "write_headers loc ins =
     (let hs = map_put ''OData-Version'' ''4.0'' [];
          hs' = if ins then map_put ''Content-Type'' ''application/json'' hs else hs
      in case loc of None \<Rightarrow> hs' | Some l \<Rightarrow> map_put ''Location'' l hs')"

definition written_response :: "bool \<Rightarrow> string \<Rightarrow> EdmEntity \<Rightarrow> EdmProperty \<Rightarrow> dvalue list list list
    \<Rightarrow> write_fail + HttpResponse" where
  "written_response ins base ent k chunks =
     (if chunks = [] \<or> hd chunks = [] then Inl (WF_Err 404 ''entity with key not found'')
      else if length (hd chunks) \<noteq> 1 \<or> (tl chunks \<noteq> [] \<and> hd (tl chunks) \<noteq> [])
        then Inl (WF_Err 409 ''key is not unique; write rolled back'')
      else if \<not> ins then Inr \<lparr>rs_status = 204, rs_headers = write_headers None False, rs_body = []\<rparr>
      else bindE (created_members base ent k (hd chunks) 0 (e_properties ent)) (\<lambda>(ms, loc).
             Inr \<lparr>rs_status = 201, rs_headers = write_headers loc True,
                  rs_body = ''{'' @ join_with '','' (map json_member ms) @ ''}''\<rparr>))"

definition fail_result :: "write_fail \<Rightarrow> HttpResponse res" where
  "fail_result f = (case f of WF_Err st m \<Rightarrow> Inr (WriteError st m) | WF_Exn e \<Rightarrow> Inl e)"

text \<open>What happens between \<open>BEGIN\<close> and the end of the transaction; \<open>True\<close> when committed.\<close>

definition in_transaction :: "'db duck \<Rightarrow> write_plan \<Rightarrow> bool \<Rightarrow> string \<Rightarrow> EdmEntity \<Rightarrow> 'db
    \<Rightarrow> (HttpResponse res \<times> bool) \<times> 'db" where
  "in_transaction D plan ins base ent db =
     (case duck_prepare D (wp_sql plan) db of
        (Some m, db1) \<Rightarrow> ((Inr (WriteError 400 m), False), db1)
      | (None, db1) \<Rightarrow>
          (case duck_execute D (wp_sql plan) (wp_values plan) db1 of
             (q, db2) \<Rightarrow>
               (case qr_error q of
                  Some (ty, m) \<Rightarrow>
                    ((Inr (WriteError (if ty = CONSTRAINT \<or> ty = TRANSACTION then 409 else 400) m), False), db2)
                | None \<Rightarrow>
                    (case written_response ins base ent (wp_key plan) (qr_chunks q) of
                       Inl f \<Rightarrow> ((fail_result f, False), db2)
                     | Inr resp \<Rightarrow>
                         (case duck_query D ''COMMIT'' db2 of
                            (c, db3) \<Rightarrow>
                              (case qr_error c of
                                 Some (_, m) \<Rightarrow> ((Inr (WriteError 409 m), False), db3)
                               | None \<Rightarrow> ((Inr resp, True), db3)))))))"

definition ExecuteWrite :: "'db duck \<Rightarrow> (string \<Rightarrow> yyval option) \<Rightarrow> HttpRequest \<Rightarrow> EdmEntity
    \<Rightarrow> string list \<Rightarrow> string \<Rightarrow> ('db, HttpResponse) dbm" where
  "ExecuteWrite D yyjson rq ent keys base =
     (case prepare_write yyjson rq ent keys of
        Inl f \<Rightarrow> liftD (fail_result f)
      | Inr plan \<Rightarrow> (\<lambda>db.
          case duck_query D ''BEGIN TRANSACTION'' db of
            (b, db1) \<Rightarrow>
              if qr_error b \<noteq> None then (Inr (WriteError 500 ''could not start write transaction''), db1)
              else (case in_transaction D plan (is_insert rq) base ent db1 of
                      ((res, committed), db2) \<Rightarrow>
                        if committed then (res, db2)
                        else (case duck_query D ''ROLLBACK'' db2 of (_, db3) \<Rightarrow> (res, db3)))))"

section \<open>Path escapes\<close>

lemma HexValue_path_hex [simp]: "d < 16 \<Longrightarrow> HexValue (path_hex d) = int d"
proof -
  have "\<forall>d \<in> set [0..<16]. HexValue (path_hex d) = int d"
    by (simp add: upt_rec path_hex_def HexValue_def)
  then show "d < 16 \<Longrightarrow> HexValue (path_hex d) = int d" by simp
qed

lemma UrlDecode_encode_char: "UrlDecode (encode_path_char c @ t) = c # UrlDecode t"
proof (cases "islower c \<or> isupper c \<or> isdigit c \<or> c = CHR ''-'' \<or> c = CHR ''_''")
  case True
  then have "c \<noteq> CHR ''%''" "c \<noteq> CHR ''+''" by (auto simp: islower_def isupper_def isdigit_def)
  with True show ?thesis by (simp add: encode_path_char_def)
next
  case False
  have "int (code c div 16) * 16 + int (code c mod 16) = int (code c)"
    by (metis div_mult_mod_eq of_nat_add of_nat_mult of_nat_numeral)
  then have "char_of (nat (int (code c div 16) * 16 + int (code c mod 16))) = c" by simp
  moreover have "code c div 16 < 16" "code c mod 16 < 16"
    using code_less [of c] by (auto simp del: code_less)
  ultimately show ?thesis using False by (simp add: encode_path_char_def)
qed

interpretation path_escape: char_escape encode_path_char "\<lambda>s. Some (UrlDecode s)"
  by unfold_locales (simp_all add: UrlDecode_encode_char)

lemma UrlDecode_EncodePath: "UrlDecode (EncodePath s) = s"
  using path_escape.dec_concat [of s] by (simp add: EncodePath_def)

lemma UrlDecode_EncodePath_append: "UrlDecode (EncodePath s @ t) = s @ UrlDecode t"
  using path_escape.dec_append [of s t] by (simp add: EncodePath_def)

section \<open>The statement has a mark for every value and no literal\<close>

definition marks_of :: "sql_token list \<Rightarrow> nat" where
  "marks_of ts = length (filter (\<lambda>t. t = Ch (CHR ''?'')) ts)"

lemma marks_of_simps [simp]:
  "marks_of [] = 0" "marks_of (us @ ts) = marks_of us + marks_of ts"
  "marks_of [Id n] = 0" "marks_of (map Ch g) = count_list g (CHR ''?'')"
proof -
  show "marks_of (map Ch g) = count_list g (CHR ''?'')" by (induction g) (auto simp: marks_of_def)
qed (simp_all add: marks_of_def)

definition marked :: "EdmEntity \<Rightarrow> string \<Rightarrow> nat \<Rightarrow> bool" where
  "marked ent sql n \<longleftrightarrow>
     (\<exists>toks. lexes sql toks \<and> strings_of toks = [] \<and> marks_of toks = n \<and> names_ok ent (idents_of toks))"

lemma marked_glue:
  "marked ent b n \<Longrightarrow> glue g \<Longrightarrow> m = count_list g (CHR ''?'') + n \<Longrightarrow> marked ent (g @ b) m"
proof -
  assume "marked ent b n" and g: "glue g" "m = count_list g (CHR ''?'') + n"
  then obtain toks where "lexes b toks" "strings_of toks = []" "marks_of toks = n" "names_ok ent (idents_of toks)"
    unfolding marked_def by blast
  with lexes_glue [OF g(1)] g(2) show ?thesis
    unfolding marked_def by (intro exI [of _ "map Ch g @ toks"]) auto
qed

lemma marked_glue_after:
  "marked ent a n \<Longrightarrow> glue_after g \<Longrightarrow> m = n + count_list g (CHR ''?'') \<Longrightarrow> marked ent (a @ g) m"
proof -
  assume "marked ent a n" and g: "glue_after g" "m = n + count_list g (CHR ''?'')"
  then obtain toks where "lexes a toks" "strings_of toks = []" "marks_of toks = n" "names_ok ent (idents_of toks)"
    unfolding marked_def by blast
  with lexes_glue_after [OF _ g(1)] g(2) show ?thesis
    unfolding marked_def by (intro exI [of _ "toks @ map Ch g"]) auto
qed

lemma marked_append:
  assumes "marked ent a n" "marked ent b k" "glue_after g" "glue g" "m = n + count_list g (CHR ''?'') + k"
  shows "marked ent (a @ g @ b) m"
proof -
  from assms(1,2) obtain ta tb where "lexes a ta" "strings_of ta = []" "marks_of ta = n"
    "names_ok ent (idents_of ta)" "lexes b tb" "strings_of tb = []" "marks_of tb = k"
    "names_ok ent (idents_of tb)"
    unfolding marked_def by blast
  with lexes_append [OF _ assms(3,4)] assms(5) show ?thesis
    unfolding marked_def by (intro exI [of _ "ta @ map Ch g @ tb"]) auto
qed

lemma marked_surround:
  "marked ent b n \<Longrightarrow> glue g \<Longrightarrow> glue_after h \<Longrightarrow> count_list g (CHR ''?'') = 0 \<Longrightarrow>
     count_list h (CHR ''?'') = 0 \<Longrightarrow> marked ent (g @ b @ h) n"
  by (rule marked_glue [OF marked_glue_after, of _ _ n]) simp_all

lemma marked_plain: "plain_text a \<Longrightarrow> marked ent a (count_list a (CHR ''?''))"
  unfolding marked_def by (intro exI [of _ "map Ch a"]) (simp add: lexes_plain)

lemma marked_join:
  assumes "\<And>x. x \<in> set xs \<Longrightarrow> marked ent x n"
  shows "marked ent (join_with '','' xs) (n * length xs)"
  using assms
proof (induction xs)
  case Nil
  then show ?case using marked_plain [of "[]" ent] by simp
next
  case (Cons x xs)
  show ?case
  proof (cases "xs = []")
    case False
    then have "marked ent (x @ '','' @ join_with '','' xs) (n * length (x # xs))"
      using Cons by (intro marked_append [of ent x n _ "n * length xs"]) (simp_all add: glue_simps)
    with False show ?thesis by simp
  qed (use Cons.prems in simp)
qed

lemma marked_ident: "names_ok ent [n] \<Longrightarrow> marked ent (QuoteIdentifier n) 0"
  unfolding marked_def by (intro exI [of _ "[Id n]"]) (simp add: lexes_ident)

lemma marked_property: "p \<in> set (e_properties ent) \<Longrightarrow> marked ent (QuoteIdentifier (p_name p)) 0"
  by (rule marked_ident) (auto simp: names_ok_def)

lemma marked_table: "marked ent (write_table ent) 0"
proof -
  have dot: "glue_after ''.''" "glue ''.''" "count_list ''.'' (CHR ''?'') = 0" by (simp_all add: glue_simps)
  have "marked ent (QuoteIdentifier n) 0" if "n \<in> {e_catalog ent, e_schema ent, e_table ent}" for n
    using that by (intro marked_ident) (auto simp: names_ok_def)
  then have "marked ent (QuoteIdentifier (e_catalog ent) @ ''.'' @
      (QuoteIdentifier (e_schema ent) @ ''.'' @ QuoteIdentifier (e_table ent))) 0"
    using dot by (intro marked_append [of ent _ 0 _ 0]) auto
  then show ?thesis by (simp add: write_table_def)
qed

lemma marked_cast:
  assumes "type_text (p_duckdb_type p)"
  shows "marked ent (cast_mark p) 1"
proof -
  have "count_list (p_duckdb_type p) (CHR ''?'') = 0"
    using assms by (simp add: type_text_def count_list_0_iff)
  moreover have "plain_text (cast_mark p)"
    using assms by (simp add: cast_mark_def type_text_def plain_char_def)
  ultimately show ?thesis using marked_plain [of "cast_mark p" ent] by (simp add: cast_mark_def)
qed

text \<open>A quoted name with an equals sign right after it.\<close>

lemma lexes_equals:
  assumes "lexes t toks"
  shows "lexes (QuoteIdentifier n @ ''='' @ t) (Id n # map Ch ''='' @ toks)"
  unfolding lexes_def
proof (intro allI impI)
  fix rest
  assume "boundary rest"
  with assms have "sql_lex (''='' @ t @ rest) = prepend (map Ch ''='' @ toks) (sql_lex rest)"
    using sql_lex_plain [of "CHR ''=''" "t @ rest"]
    by (simp add: lexes_def word_char_def plain_char_def map_option_Cons)
  moreover have "sql_lex (QuoteIdentifier n @ ''='' @ t @ rest) = prepend [Id n] (sql_lex (''='' @ t @ rest))"
    using ident.quote_scan [of "''='' @ t @ rest" n]
    by (subst sql_lex.simps) (simp add: QuoteIdentifier_def map_option_Cons)
  ultimately show "sql_lex ((QuoteIdentifier n @ ''='' @ t) @ rest)
      = prepend (Id n # map Ch ''='' @ toks) (sql_lex rest)"
    by simp
qed

lemma marked_assignment:
  assumes "p \<in> set (e_properties ent)" "type_text (p_duckdb_type p)"
  shows "marked ent (assignment p) 1"
proof -
  from marked_cast [OF assms(2), of ent] obtain toks where toks: "lexes (cast_mark p) toks"
    "strings_of toks = []" "marks_of toks = 1" "names_ok ent (idents_of toks)"
    unfolding marked_def by blast
  have "names_ok ent [p_name p]" using assms(1) by (auto simp: names_ok_def)
  then have "names_ok ent ([p_name p] @ idents_of toks)" using toks(4) by (simp only: names_ok_simps)
  with lexes_equals [OF toks(1)] toks(2,3) show ?thesis
    unfolding marked_def assignment_def
    by (intro exI [of _ "Id (p_name p) # map Ch ''='' @ toks"]) (simp add: marks_of_def)
qed

lemma marked_key_where:
  assumes "k \<in> set (e_properties ent)" "type_text (p_duckdb_type k)" "marked ent b n"
  shows "marked ent (b @ key_where k) (n + 1)"
proof -
  have cast: "cast_mark k = ''CAST(? AS '' @ p_duckdb_type k @ '')''" by (simp add: cast_mark_def)
  have "marked ent (QuoteIdentifier (p_name k) @ '' = '' @ cast_mark k) 1"
    using assms(1,2) by (intro marked_append [OF marked_property marked_cast]) (simp_all add: glue_simps)
  with assms(3) have "marked ent (b @ '' WHERE '' @ (QuoteIdentifier (p_name k) @ '' = '' @ cast_mark k)) (n + 1)"
    by (rule marked_append) (simp_all add: glue_simps)
  then show ?thesis by (simp add: key_where_def cast)
qed

lemma marked_returning:
  assumes "marked ent b n"
  shows "marked ent (b @ returning ent) n"
proof -
  have "marked ent (join_with '','' (map (\<lambda>p. QuoteIdentifier (p_name p)) (e_properties ent)))
      (0 * length (map (\<lambda>p. QuoteIdentifier (p_name p)) (e_properties ent)))"
    by (intro marked_join) (auto intro: marked_property)
  then have "marked ent (join_with '','' (map (\<lambda>p. QuoteIdentifier (p_name p)) (e_properties ent))) 0"
    by simp
  with assms show ?thesis
    unfolding returning_def by (rule marked_append) (simp_all add: glue_simps)
qed

lemma marked_insert:
  assumes "set ps \<subseteq> set (e_properties ent)" "\<forall>p \<in> set ps. type_text (p_duckdb_type p)"
  shows "marked ent (insert_sql ent ps) (length ps)"
proof -
  have cols: "marked ent (join_with '','' (map (\<lambda>p. QuoteIdentifier (p_name p)) ps)) 0"
    using marked_join [of "map (\<lambda>p. QuoteIdentifier (p_name p)) ps" ent 0] assms(1)
    by (auto intro: marked_property)
  have "marked ent x 1" if "x \<in> set (map cast_mark ps)" for x
    using that assms(2) by (auto intro: marked_cast simp del: One_nat_def)
  from marked_join [of "map cast_mark ps" ent 1, OF this] have casts: "marked ent (join_with '','' (map cast_mark ps)) (length ps)"
    by simp
  show ?thesis
  proof (cases "ps = []")
    case True
    have "marked ent (''INSERT INTO '' @ write_table ent @ '' DEFAULT VALUES'') 0"
      by (rule marked_surround [OF marked_table]) (simp_all add: glue_simps)
    with True show ?thesis by (simp add: insert_sql_def)
  next
    case False
    have "marked ent (join_with '','' (map (\<lambda>p. QuoteIdentifier (p_name p)) ps) @ '') VALUES ('' @
        join_with '','' (map cast_mark ps)) (length ps)"
      by (rule marked_append [OF cols casts]) (simp_all add: glue_simps)
    then have "marked ent (write_table ent @ '' ('' @ (join_with '','' (map (\<lambda>p. QuoteIdentifier (p_name p)) ps) @
        '') VALUES ('' @ join_with '','' (map cast_mark ps))) (length ps)"
      by (rule marked_append [OF marked_table]) (simp_all add: glue_simps)
    then have "marked ent (''INSERT INTO '' @ ((write_table ent @ '' ('' @
        (join_with '','' (map (\<lambda>p. QuoteIdentifier (p_name p)) ps) @
        '') VALUES ('' @ join_with '','' (map cast_mark ps))) @ '')'')) (length ps)"
      by (rule marked_surround) (simp_all add: glue_simps)
    with False show ?thesis by (simp add: insert_sql_def)
  qed
qed

lemma marked_update:
  assumes "set ps \<subseteq> set (e_properties ent)" "\<forall>p \<in> set ps. type_text (p_duckdb_type p)"
  shows "marked ent (''UPDATE '' @ write_table ent @ '' SET '' @ join_with '','' (map assignment ps)) (length ps)"
proof -
  have "marked ent x 1" if "x \<in> set (map assignment ps)" for x
    using that assms by (auto intro: marked_assignment simp del: One_nat_def)
  from marked_join [of "map assignment ps" ent 1, OF this] have "marked ent (join_with '','' (map assignment ps)) (length ps)"
    by simp
  then have "marked ent (write_table ent @ '' SET '' @ join_with '','' (map assignment ps)) (length ps)"
    by (rule marked_append [OF marked_table]) (simp_all add: glue_simps)
  then show ?thesis by (rule marked_glue) (simp_all add: glue_simps)
qed

lemma marked_delete: "marked ent (''DELETE FROM '' @ write_table ent) 0"
  by (rule marked_glue [OF marked_table]) (simp_all add: glue_simps)

lemma marked_write_sql:
  assumes "k \<in> set (e_properties ent)" "set ps \<subseteq> set (e_properties ent)"
    and "\<forall>p \<in> set (e_properties ent). type_text (p_duckdb_type p)"
    and "\<not> is_insert rq \<Longrightarrow> \<not> is_update rq \<Longrightarrow> ps = []"
  shows "marked ent (write_sql rq ent k ps) (length ps + (if is_insert rq then 0 else 1))"
proof -
  have t: "\<forall>p \<in> set ps. type_text (p_duckdb_type p)" "type_text (p_duckdb_type k)"
    using assms(1-3) by auto
  note upd = marked_returning [OF marked_key_where [OF assms(1) t(2) marked_update [OF assms(2) t(1)]]]
  note del = marked_returning [OF marked_key_where [OF assms(1) t(2) marked_delete]]
  note ins = marked_returning [OF marked_insert [OF assms(2) t(1)]]
  show ?thesis
    using upd del ins assms(4) by (auto simp: write_sql_def)
qed

section \<open>Which writes are prepared\<close>

lemma write_property_SomeD:
  "write_property ent field = Some p \<Longrightarrow> p \<in> set (e_properties ent) \<and> ToLower (p_name p) = ToLower field"
  unfolding write_property_def by (drule find_SomeD) simp

definition null_ok :: "EdmProperty \<times> dparam \<Rightarrow> bool" where
  "null_ok f \<longleftrightarrow> (snd f = ParamNull \<longrightarrow> p_nullable (fst f) \<and> \<not> p_is_key (fst f))"

lemma write_fields_ok:
  assumes "write_fields ent update seen fs = Inr ps"
  shows "length ps = length fs \<and> map (\<lambda>p. ToLower (p_name (fst p))) ps = map (\<lambda>f. ToLower (fst f)) fs
    \<and> distinct (map (\<lambda>p. ToLower (p_name (fst p))) ps)
    \<and> (\<forall>p \<in> set ps. fst p \<in> set (e_properties ent) \<and> p_serializable (fst p) \<and> p_edm_type (fst p) \<noteq> BINARY
         \<and> (update \<longrightarrow> \<not> p_is_key (fst p)) \<and> null_ok p \<and> ToLower (p_name (fst p)) \<notin> set seen)"
  using assms
proof (induction fs arbitrary: seen ps)
  case (Cons f fs)
  obtain field v where f: "f = (field, v)" by (cases f)
  from Cons.prems obtain p param rest where p: "write_property ent field = Some p" "ToLower field \<notin> set seen"
    "p_serializable p" "p_edm_type p \<noteq> BINARY" "update \<longrightarrow> \<not> p_is_key p" "json_param p field v = Inr param"
    "write_fields ent update (ToLower field # seen) fs = Inr rest" "ps = (p, param) # rest"
    by (auto simp: f bindE_Inr_iff split: if_splits option.splits)
  have "null_ok (p, param)"
    using p(6) by (auto simp: json_param_def null_ok_def split: yyval.splits if_splits)
  note IH = Cons.IH [OF p(7)] and wp = write_property_SomeD [OF p(1)]
  have "ToLower (p_name p) \<notin> set (map (\<lambda>p. ToLower (p_name (fst p))) rest)"
  proof -
    have "\<forall>x \<in> set rest. ToLower (p_name (fst x)) \<notin> set (ToLower field # seen)" using IH by blast
    with wp show ?thesis by auto
  qed
  moreover have "distinct (map (\<lambda>p. ToLower (p_name (fst p))) rest)" using IH by blast
  ultimately have d: "distinct (map (\<lambda>p. ToLower (p_name (fst p))) ((p, param) # rest))"
    by (simp only: list.map distinct.simps fst_conv not_False_eq_True simp_thms)
  have "length ((p, param) # rest) = length ((field, v) # fs)"
    "map (\<lambda>p. ToLower (p_name (fst p))) ((p, param) # rest) = map (\<lambda>f. ToLower (fst f)) ((field, v) # fs)"
    using IH wp by simp_all
  moreover have "\<forall>x \<in> set ((p, param) # rest). fst x \<in> set (e_properties ent) \<and> p_serializable (fst x)
      \<and> p_edm_type (fst x) \<noteq> BINARY \<and> (update \<longrightarrow> \<not> p_is_key (fst x)) \<and> null_ok x
      \<and> ToLower (p_name (fst x)) \<notin> set seen"
    using p(2-5) IH wp \<open>null_ok (p, param)\<close> by auto
  ultimately show ?case using d unfolding p(8) f by blast
qed simp

lemma write_key_ok:
  "write_key ent = Inr k \<Longrightarrow> filter p_is_key (e_properties ent) = [k] \<and> p_serializable k \<and> p_edm_type k \<noteq> BINARY"
  by (auto simp: write_key_def split: list.splits if_splits)

lemma body_fields_ok:
  assumes "body_fields yyjson rq ent = Inr fs"
  shows "(\<forall>p \<in> set fs. fst p \<in> set (e_properties ent) \<and> p_serializable (fst p) \<and> p_edm_type (fst p) \<noteq> BINARY
         \<and> (is_update rq \<longrightarrow> \<not> p_is_key (fst p)) \<and> null_ok p)
    \<and> distinct (map (\<lambda>p. ToLower (p_name (fst p))) fs)
    \<and> (\<not> is_insert rq \<longrightarrow> \<not> is_update rq \<longrightarrow> fs = [])"
  using assms
  by (auto simp: body_fields_def bindE_Inr_iff split: if_splits option.splits yyval.splits dest!: write_fields_ok)

lemma prepare_write_marks:
  assumes "prepare_write yyjson rq ent keys = Inr plan"
    and "\<forall>p \<in> set (e_properties ent). type_text (p_duckdb_type p)"
  shows "marked ent (wp_sql plan) (length (wp_values plan))"
proof -
  from assms(1) obtain k fs where k: "write_key ent = Inr k" and fs: "body_fields yyjson rq ent = Inr fs"
    and plan: "plan = \<lparr>wp_key = k, wp_sql = write_sql rq ent k (map fst fs),
       wp_values = map snd fs @ (if is_insert rq then [] else [ParamText (key_value (hd keys))])\<rparr>"
    by (auto simp: prepare_write_def bindE_Inr_iff split: if_splits)
  have "k \<in> set (e_properties ent)" using write_key_ok [OF k] filter_is_subset [of p_is_key "e_properties ent"] by auto
  moreover have "set (map fst fs) \<subseteq> set (e_properties ent)" using body_fields_ok [OF fs] by auto
  moreover have "\<not> is_insert rq \<Longrightarrow> \<not> is_update rq \<Longrightarrow> map fst fs = []" using body_fields_ok [OF fs] by auto
  ultimately have "marked ent (write_sql rq ent k (map fst fs))
      (length (map fst fs) + (if is_insert rq then 0 else 1))"
    by (intro marked_write_sql assms(2))
  then show ?thesis by (simp add: plan split: if_splits)
qed

section \<open>Statuses\<close>

definition early_status :: "write_fail \<Rightarrow> bool" where
  "early_status f \<longleftrightarrow> (case f of WF_Err st _ \<Rightarrow> st \<in> {400, 404, 409, 415} | WF_Exn _ \<Rightarrow> True)"

lemma early_status_simps [simp]:
  "early_status (WF_Err st m) \<longleftrightarrow> st \<in> {400, 404, 409, 415}" "early_status (WF_Exn e)"
  by (simp_all add: early_status_def)

lemma write_fields_fail: "write_fields ent update seen fs = Inl f \<Longrightarrow> early_status f"
proof (induction fs arbitrary: seen)
  case (Cons x fs)
  obtain field v where x: "x = (field, v)" by (cases x)
  from Cons show ?case
    by (auto simp: x bindE_Inl_iff json_param_def split: if_splits option.splits yyval.splits)
qed simp

lemma prepare_write_fail: "prepare_write yyjson rq ent keys = Inl f \<Longrightarrow> early_status f"
  by (auto simp: prepare_write_def bindE_Inl_iff write_key_def body_fields_def
      dest: write_fields_fail split: if_splits list.splits option.splits yyval.splits)

lemma created_members_fail: "created_members base ent k chunk i ps = Inl f \<Longrightarrow> early_status f"
  by (induction base ent k chunk i ps rule: created_members.induct)
     (auto simp: bindE_Inl_iff split: sum.splits if_splits prod.splits)

lemma written_response_fail: "written_response ins base ent k chunks = Inl f \<Longrightarrow> early_status f"
  by (auto simp: written_response_def bindE_Inl_iff dest: created_members_fail split: if_splits)

lemma written_response_status:
  "written_response ins base ent k chunks = Inr r \<Longrightarrow> rs_status r = (if ins then 201 else 204)"
  by (auto simp: written_response_def bindE_Inr_iff split: if_splits)

definition succeeded :: "HttpResponse res \<Rightarrow> bool" where
  "succeeded res \<longleftrightarrow> (case res of Inr r \<Rightarrow> rs_status r < 300 | Inl _ \<Rightarrow> False)"

lemma not_succeeded_fail: "early_status f \<Longrightarrow> \<not> succeeded (fail_result f)"
  by (auto simp: succeeded_def fail_result_def WriteError_def split: write_fail.splits)

section \<open>The calls of one write\<close>

text \<open>
  The calls a write makes: none when it is refused before the transaction; otherwise the
  transaction is opened, and every path ends it with a successful \<open>COMMIT\<close> or with \<open>ROLLBACK\<close>.
\<close>

inductive write_calls :: "write_plan \<Rightarrow> bool \<Rightarrow> db_event list \<Rightarrow> bool" for plan where
  no_begin: "write_calls plan False [Query_Call ''BEGIN TRANSACTION'' False]"
| no_prepare: "write_calls plan False
    [Query_Call ''BEGIN TRANSACTION'' True, Prepare_Call (wp_sql plan) False, Query_Call ''ROLLBACK'' b]"
| rolled_back: "write_calls plan False
    [Query_Call ''BEGIN TRANSACTION'' True, Prepare_Call (wp_sql plan) True,
     Execute_Call (wp_sql plan) (wp_values plan) x, Query_Call ''ROLLBACK'' b]"
| no_commit: "write_calls plan False
    [Query_Call ''BEGIN TRANSACTION'' True, Prepare_Call (wp_sql plan) True,
     Execute_Call (wp_sql plan) (wp_values plan) True, Query_Call ''COMMIT'' False, Query_Call ''ROLLBACK'' b]"
| committed: "write_calls plan True
    [Query_Call ''BEGIN TRANSACTION'' True, Prepare_Call (wp_sql plan) True,
     Execute_Call (wp_sql plan) (wp_values plan) True, Query_Call ''COMMIT'' True]"

lemma in_transaction_calls:
  assumes "in_transaction (logging D) plan ins base ent (db, evs) = ((res, cm), (db', evs'))"
  shows "\<exists>tail. evs' = evs @ tail \<and> succeeded res = cm
    \<and> (if cm then tail = [Prepare_Call (wp_sql plan) True,
          Execute_Call (wp_sql plan) (wp_values plan) True, Query_Call ''COMMIT'' True]
       else tail = [Prepare_Call (wp_sql plan) False]
         \<or> (\<exists>x. tail = [Prepare_Call (wp_sql plan) True, Execute_Call (wp_sql plan) (wp_values plan) x])
         \<or> tail = [Prepare_Call (wp_sql plan) True, Execute_Call (wp_sql plan) (wp_values plan) True,
                   Query_Call ''COMMIT'' False])"
  using assms
  by (auto simp: in_transaction_def succeeded_def WriteError_def written_response_status
      dest!: written_response_fail not_succeeded_fail
      split: prod.splits option.splits sum.splits if_splits)

lemma ExecuteWrite_calls:
  assumes "ExecuteWrite (logging D) yyjson rq ent keys base (db, evs) = (res, (db', evs'))"
  shows "(\<exists>f. prepare_write yyjson rq ent keys = Inl f \<and> evs' = evs \<and> db' = db \<and> \<not> succeeded res)
    \<or> (\<exists>plan calls. prepare_write yyjson rq ent keys = Inr plan \<and> evs' = evs @ calls
         \<and> write_calls plan (succeeded res) calls)"
proof (cases "prepare_write yyjson rq ent keys")
  case (Inl f)
  with assms prepare_write_fail [OF Inl] show ?thesis
    by (auto simp: ExecuteWrite_def liftD_def not_succeeded_fail)
next
  case (Inr plan)
  obtain b db1 where b: "duck_query D ''BEGIN TRANSACTION'' db = (b, db1)" by fastforce
  show ?thesis
  proof (cases "qr_error b = None")
    case False
    with assms Inr b show ?thesis
      by (auto simp: ExecuteWrite_def succeeded_def WriteError_def intro!: no_begin)
  next
    case True
    obtain r cm db2 evs2 where t: "in_transaction (logging D) plan (is_insert rq) base ent
        (db1, evs @ [Query_Call ''BEGIN TRANSACTION'' True]) = ((r, cm), (db2, evs2))"
      by (metis prod.exhaust)
    from in_transaction_calls [OF t] show ?thesis
    proof (cases "cm")
      case True
      with in_transaction_calls [OF t] assms Inr b t \<open>qr_error b = None\<close> show ?thesis
        by (auto simp: ExecuteWrite_def intro!: committed)
    next
      case False
      obtain c db3 where "duck_query D ''ROLLBACK'' db2 = (c, db3)" by fastforce
      with False in_transaction_calls [OF t] assms Inr b t \<open>qr_error b = None\<close> show ?thesis
        by (auto simp: ExecuteWrite_def intro!: no_prepare rolled_back no_commit)
    qed
  qed
qed

end
