(* ===== verification/Auth.thy ===== *)
theory Auth
  imports String_Util "HOL-Library.Word"
begin

text \<open>
  Bearer authentication, \<open>src/src/auth/auth.cpp\<close>: the check of an Authorization header against
  the configured token, with its comparison that looks at every byte, and the generator of the
  token that \<open>odata_serve()\<close> reports. The bytes the generator draws from \<open>std::random_device\<close>
  are its argument.
\<close>

unbundle bit_operations_syntax

type_synonym byte = "8 word"

definition byte_of :: "char \<Rightarrow> byte" where
  "byte_of c = word_of_nat (code c)"

text \<open>The loop \<open>diff |= token[i] ^ expected_token[i]\<close>, over equally long strings.\<close>

fun diff_bytes :: "byte \<Rightarrow> string \<Rightarrow> string \<Rightarrow> byte" where
  "diff_bytes d (x # xs) (y # ys) = diff_bytes (d OR (byte_of x XOR byte_of y)) xs ys"
| "diff_bytes d _ _ = d"

definition CheckBearerToken :: "string \<Rightarrow> string \<Rightarrow> bool" where
  "CheckBearerToken authorization_header expected_token =
     (if expected_token = [] then True
      else case split_first (CHR '' '') authorization_header of
             None \<Rightarrow> False
           | Some (scheme, rest) \<Rightarrow>
               if ToLower scheme \<noteq> ''bearer'' then False
               else (let token = Trim rest
                     in if length token \<noteq> length expected_token then False
                        else diff_bytes 0 token expected_token = 0))"

definition hex_upper :: "nat \<Rightarrow> char" where
  "hex_upper d = ''0123456789ABCDEF'' ! d"

definition GenerateAuthToken :: "byte list \<Rightarrow> string" where
  "GenerateAuthToken rd =
     concat (map (\<lambda>b. [hex_upper (unat (drop_bit 4 b AND 15)), hex_upper (unat (b AND 15))])
                 (take 16 rd))"

lemma byte_of_inj [simp]: "byte_of c = byte_of d \<longleftrightarrow> c = d"
proof -
  have "unat (byte_of x) = code x" for x
    by (simp add: byte_of_def unat_of_nat)
  then show ?thesis by (metis code_inj)
qed

lemma or_eq_0: "(a OR b = 0) = (a = 0 \<and> b = 0)" for a b :: byte
  by (auto simp: bit_eq_iff bit_or_iff)

lemma xor_eq_0: "(a XOR b = 0) = (a = b)" for a b :: byte
  by (auto simp: bit_eq_iff bit_xor_iff)

lemma diff_bytes_eq_0:
  "length xs = length ys \<Longrightarrow> diff_bytes d xs ys = 0 \<longleftrightarrow> d = 0 \<and> xs = ys"
  by (induction d xs ys rule: diff_bytes.induct) (auto simp: or_eq_0 xor_eq_0)

lemma CheckBearerToken_iff:
  "CheckBearerToken hdr tok \<longleftrightarrow>
     tok = [] \<or> (\<exists>scheme rest. hdr = scheme @ CHR '' '' # rest \<and> CHR '' '' \<notin> set scheme
                    \<and> ToLower scheme = ''bearer'' \<and> Trim rest = tok)"
proof (cases "split_first (CHR '' '') hdr")
  case None
  then show ?thesis
    by (auto simp: CheckBearerToken_def split_first_None_iff)
next
  case (Some p)
  then obtain a b where p: "p = (a, b)" "hdr = a @ CHR '' '' # b" "CHR '' '' \<notin> set a"
    by (cases p) (auto dest: split_first_SomeD)
  then show ?thesis
    by (auto simp: CheckBearerToken_def Let_def diff_bytes_eq_0 dest: append_sep_eqD)
qed

lemma hex_upper_mem: "d < 16 \<Longrightarrow> hex_upper d \<in> set ''0123456789ABCDEF''"
  unfolding hex_upper_def by (rule nth_mem) simp


end
