(* ===== verification/Odata_Server.thy ===== *)
theory Odata_Server
  imports Routing Write_Executor Auth Http_Server
begin

text \<open>
  The request handler, \<open>HandleODataRequest\<close> of \<open>src/src/server/odata_server.cpp\<close>. Its state is the
  server state of the database instance and the database; it is a handler of the socket server. The
  lock on \<open>state.mu\<close> makes the reads of the settings and of the bindings atomic; the counter of
  active queries, which concurrent requests share, is modelled for one request here and for
  interleaved requests in \<open>Query_Slots\<close>.
\<close>

record ODataServerState =
  st_bindings :: "EntityBinding list"
  st_host :: string
  st_port :: int
  st_base_path :: string
  st_token :: string
  st_read_only :: bool
  st_max_top :: int
  st_max_filter_depth :: int
  st_max_response_bytes :: int
  st_query_timeout_ms :: int
  st_page_size :: int
  st_max_concurrent_queries :: int
  st_active_queries :: int
  st_running :: bool
  st_started_at :: string
  st_started_address :: string
  st_listen_uri :: string
  st_listen_url :: string

text \<open>The state of a fresh instance, \<open>src/src/server/odata_server.hpp\<close>.\<close>

definition initial_state :: ODataServerState where
  "initial_state =
     \<lparr>st_bindings = [], st_host = ''0.0.0.0'', st_port = 0, st_base_path = ''/odata'', st_token = [],
      st_read_only = True, st_max_top = 10000, st_max_filter_depth = 64,
      st_max_response_bytes = 104857600, st_query_timeout_ms = 0, st_page_size = 0,
      st_max_concurrent_queries = 0, st_active_queries = 0, st_running = False, st_started_at = [],
      st_started_address = [], st_listen_uri = [], st_listen_url = []\<rparr>"

section \<open>Exceptions that the handler catches\<close>

text \<open>\<open>catch (const ODataParseException &)\<close> gives the message; \<open>catch (...)\<close> drops the exception.\<close>

definition attemptD :: "('db, 'a) dbm \<Rightarrow> ('db, string + 'a) dbm" where
  "attemptD m =
     (\<lambda>db. case m db of
        (Inr x, db') \<Rightarrow> (Inr (Inr x), db')
      | (Inl e, db') \<Rightarrow> ((case e of ODataParseException msg \<Rightarrow> Inr (Inl msg) | _ \<Rightarrow> Inl e), db'))"

definition optionalD :: "('db, 'a) dbm \<Rightarrow> ('db, 'a option) dbm" where
  "optionalD m =
     (\<lambda>db. case m db of (Inr x, db') \<Rightarrow> (Inr (Some x), db') | (Inl e, db') \<Rightarrow> (Inr None, db'))"

section \<open>Documents\<close>

definition service_entry :: "EntityBinding \<Rightarrow> string" where
  "service_entry b =
     ''{\"name\":\"'' @ JsonEscape (b_name b) @ ''\",\"kind\":\"EntitySet\",\"url\":\"'' @
     JsonEscape (b_name b) @ ''\"}''"

definition service_document :: "'db duck \<Rightarrow> ODataServerState \<Rightarrow> EntityBinding list \<Rightarrow> ('db, HttpResponse) dbm" where
  "service_document D st bs =
     bindD (mapD (\<lambda>b. bindD (optionalD (BuildEntity D b)) (\<lambda>e. returnD (b, e))) bs) (\<lambda>rs.
       returnD (MakeJson 200
         (''{\"@odata.context\":\"'' @ st_base_path st @ ''/$metadata\",\"value\":['' @
          join_with '','' (map (\<lambda>(b, e). service_entry b) (filter (\<lambda>(b, e). e \<noteq> None) rs)) @ '']}'')))"

definition metadata_document :: "'db duck \<Rightarrow> EntityBinding list \<Rightarrow> ('db, HttpResponse) dbm" where
  "metadata_document D bs =
     bindD (mapD (\<lambda>b. bindD (attemptD (BuildEntity D b)) (\<lambda>r.
              returnD (case r of Inl _ \<Rightarrow> [] | Inr e \<Rightarrow> [ApplyColumnPolicy e b]))) bs) (\<lambda>ents.
       returnD \<lparr>rs_status = 200,
                rs_headers = map_put ''OData-Version'' ''4.0'' (map_put ''Content-Type'' ''application/xml'' []),
                rs_body = GenerateEdmx (concat ents)\<rparr>)"

section \<open>Query options\<close>

definition unsupported_option :: "(string \<times> string) list \<Rightarrow> (string \<times> string) option" where
  "unsupported_option opts =
     find (\<lambda>(k, v). k \<noteq> [] \<and> hd k = CHR ''$'' \<and> \<not> IsSystemOption k) opts"

fun foldE :: "('s \<Rightarrow> 'a \<Rightarrow> 'e + 's) \<Rightarrow> 's \<Rightarrow> 'a list \<Rightarrow> 'e + 's" where
  "foldE f s [] = Inr s"
| "foldE f s (x # xs) = bindE (f s x) (\<lambda>s'. foldE f s' xs)"

definition option_step :: "int \<Rightarrow> ODataQuery \<Rightarrow> string \<times> string \<Rightarrow> ODataQuery res" where
  "option_step max_depth q kv =
     (let k = fst kv; v = snd kv
      in if k = ''$select'' then Inr (q\<lparr>q_select := ParseSelect v\<rparr>)
         else if k = ''$filter'' then
           (if \<not> FilterWithinDepth v max_depth
            then Inl (ODataParseException ''$filter exceeds odata_max_filter_depth'')
            else bindE (ParseFilter v) (\<lambda>f. Inr (q\<lparr>q_filter := Some f\<rparr>)))
         else if k = ''$orderby'' then bindE (ParseOrderBy v) (\<lambda>ts. Inr (q\<lparr>q_order_by := ts\<rparr>))
         else if k = ''$top'' then bindE (ParseNonNegativeInt ''top'' v) (\<lambda>n. Inr (q\<lparr>q_top := n\<rparr>))
         else if k = ''$skip'' then bindE (ParseNonNegativeInt ''skip'' v) (\<lambda>n. Inr (q\<lparr>q_skip := n\<rparr>))
         else if k = ''$count'' then bindE (ParseBooleanOption ''count'' v) (\<lambda>b. Inr (q\<lparr>q_count := b\<rparr>))
         else if k = ''$skiptoken'' then bindE (ParseNonNegativeInt ''skiptoken'' v) (\<lambda>n. Inr (q\<lparr>q_skip := n\<rparr>))
         else Inr q)"

definition parse_options :: "int \<Rightarrow> string \<Rightarrow> (string \<times> string) list \<Rightarrow> ODataQuery res" where
  "parse_options max_depth name opts = foldE (option_step max_depth) (empty_query name) opts"

section \<open>Queries\<close>

definition context_text :: "ODataServerState \<Rightarrow> EdmEntity \<Rightarrow> bool \<Rightarrow> string" where
  "context_text st ent single =
     ''{\"@odata.context\":\"'' @ EntityContextUri (st_base_path st) (e_name ent) single @ ''\"''"

definition internal_error :: "(ErrorType \<times> string) \<Rightarrow> HttpResponse" where
  "internal_error e = MakeError 500 ''InternalError'' (snd e)"

definition handle_key :: "'db duck \<Rightarrow> ODataServerState \<Rightarrow> ODataQuery \<Rightarrow> EdmEntity \<Rightarrow> string list
    \<Rightarrow> ('db, HttpResponse) dbm" where
  "handle_key D st q ent keys =
     (if \<not> e_has_key ent
      then returnD (MakeError 400 ''EntityHasNoKey''
             (''entity set '' @ in_quotes (e_name ent) @ '' has no key configured''))
      else if length keys \<noteq> 1
      then returnD (MakeError 400 ''InvalidKey'' ''compound keys are not supported in v0.1'')
      else bindD (attemptD (liftD (CompileByKey q ent keys))) (\<lambda>r.
        case r of
          Inl msg \<Rightarrow> returnD (MakeError 400 ''InvalidQuery'' msg)
        | Inr cq \<Rightarrow>
            bindD (ExecuteQuery D (cq_sql cq) (st_query_timeout_ms st)) (\<lambda>res.
              case qr_error res of
                Some e \<Rightarrow> returnD (internal_error e)
              | None \<Rightarrow>
                  (case SerializeFirstRowMembers res of
                     None \<Rightarrow> returnD (MakeError 404 ''NotFound'' ''entity with key not found'')
                   | Some members \<Rightarrow>
                       returnD (MakeJson 200 (context_text st ent True @ '','' @ members @ ''}''))))))"

text \<open>The first value of a count result: \<open>None\<close> when the first chunk is missing or empty.\<close>

definition first_cell :: "qresult \<Rightarrow> dvalue option res" where
  "first_cell res =
     (if qr_chunks res = [] \<or> hd (qr_chunks res) = [] then Inr None
      else bindE (cell (hd (qr_chunks res)) 0 0) (\<lambda>v. Inr (Some v)))"

definition paged_query :: "ODataServerState \<Rightarrow> ODataQuery \<Rightarrow> ODataQuery \<times> bool" where
  "paged_query st q =
     (if 0 < st_page_size st \<and> q_top q < 0 then (q\<lparr>q_top := st_page_size st\<rparr>, True) else (q, False))"

definition compile_collection :: "ODataServerState \<Rightarrow> ODataQuery \<Rightarrow> EdmEntity
    \<Rightarrow> (CompiledQuery \<times> CompiledQuery) res" where
  "compile_collection st q ent =
     bindE (CompileCollection q ent (st_max_top st)) (\<lambda>cq.
       if q_count q then bindE (CompileCount q ent) (\<lambda>cc. Inr (cq, cc)) else Inr (cq, cq))"

text \<open>The count that the client asked for: its number and the text in the body.\<close>

definition count_part :: "'db duck \<Rightarrow> ODataServerState \<Rightarrow> ODataQuery \<Rightarrow> string
    \<Rightarrow> ('db, HttpResponse + (int \<times> string)) dbm" where
  "count_part D st q count_sql =
     (if \<not> q_count q then returnD (Inr (- 1, []))
      else bindD (ExecuteQuery D count_sql (st_query_timeout_ms st)) (\<lambda>res.
        case qr_error res of
          Some e \<Rightarrow> returnD (Inl (internal_error e))
        | None \<Rightarrow>
            bindD (liftD (first_cell res)) (\<lambda>c.
              case c of
                None \<Rightarrow> returnD (Inr (0, '',\"@odata.count\":0''))
              | Some v \<Rightarrow> bindD (liftD (dv_int64 v)) (\<lambda>n.
                  returnD (Inr (n, '',\"@odata.count\":'' @ ValueToJson v))))))"

definition current_skip :: "ODataQuery \<Rightarrow> int" where
  "current_skip q = (if q_skip q < 0 then 0 else q_skip q)"

text \<open>Whether there are more rows after a full page.\<close>

definition more_part :: "'db duck \<Rightarrow> ODataServerState \<Rightarrow> ODataQuery \<Rightarrow> EdmEntity \<Rightarrow> bool \<Rightarrow> int \<Rightarrow> nat
    \<Rightarrow> ('db, HttpResponse + bool) dbm" where
  "more_part D st q ent server_paged response_count rows =
     (if \<not> (server_paged \<and> int rows = q_top q) then returnD (Inr False)
      else
        bindD (if 0 \<le> response_count then returnD (Inr response_count)
               else bindD (liftD (CompileCount q ent)) (\<lambda>cc.
                    bindD (ExecuteQuery D (cq_sql cc) (st_query_timeout_ms st)) (\<lambda>res.
                      case qr_error res of
                        Some e \<Rightarrow> returnD (Inl (internal_error e))
                      | None \<Rightarrow> bindD (liftD (first_cell res)) (\<lambda>c.
                          case c of
                            None \<Rightarrow> returnD (Inr response_count)
                          | Some v \<Rightarrow> bindD (liftD (dv_int64 v)) (\<lambda>n. returnD (Inr n)))))) (\<lambda>r.
          case r of
            Inl resp \<Rightarrow> returnD (Inl resp)
          | Inr n \<Rightarrow> returnD (Inr (current_skip q + int rows < n))))"

definition too_large :: "ODataServerState \<Rightarrow> nat \<Rightarrow> bool" where
  "too_large st n \<longleftrightarrow> 0 \<le> st_max_response_bytes st \<and> st_max_response_bytes st < int n"

definition handle_collection :: "'db duck \<Rightarrow> ODataServerState \<Rightarrow> HttpRequest \<Rightarrow> ODataQuery \<Rightarrow> EdmEntity
    \<Rightarrow> ('db, HttpResponse) dbm" where
  "handle_collection D st rq q0 ent =
     (let (q, server_paged) = paged_query st q0
      in bindD (attemptD (liftD (compile_collection st q ent))) (\<lambda>r.
        case r of
          Inl msg \<Rightarrow> returnD (MakeError 400 ''InvalidQuery'' msg)
        | Inr (cq, cc) \<Rightarrow>
            bindD (count_part D st q (cq_sql cc)) (\<lambda>c.
              case c of
                Inl resp \<Rightarrow> returnD resp
              | Inr (response_count, count_text) \<Rightarrow>
                  bindD (ExecuteQuery D (cq_sql cq) (st_query_timeout_ms st)) (\<lambda>res.
                    case qr_error res of
                      Some e \<Rightarrow> returnD (internal_error e)
                    | None \<Rightarrow>
                        (let body = context_text st ent False @ count_text;
                             (rows_json, rows) = SerializeRows res
                         in if too_large st (length body + length rows_json + 16)
                            then returnD (MakeError 413 ''ResponseTooLarge''
                                   ''response exceeds odata_max_response_bytes'')
                            else bindD (more_part D st q ent server_paged response_count rows) (\<lambda>m.
                              case m of
                                Inl resp \<Rightarrow> returnD resp
                              | Inr has_more \<Rightarrow>
                                  returnD (MakeJson 200
                                    (body @
                                     (if has_more
                                      then '',\"@odata.nextLink\":\"'' @
                                           JsonEscape (NextLink rq (current_skip q + int rows)) @ ''\"''
                                      else []) @
                                     '',\"value\":['' @ rows_json @ '']}''))))))))"

section \<open>The handler\<close>

definition is_writing :: "HttpRequest \<Rightarrow> bool" where
  "is_writing rq \<longleftrightarrow> rq_method rq \<in> {''POST'', ''PATCH'', ''DELETE''}"

text \<open>What happens in a query slot.\<close>

definition handle_entity :: "'db duck \<Rightarrow> (string \<Rightarrow> yyval option) \<Rightarrow> ODataServerState \<Rightarrow> HttpRequest
    \<Rightarrow> Route \<Rightarrow> EntityBinding \<Rightarrow> ('db, HttpResponse) dbm" where
  "handle_entity D yyjson st rq route b =
     (case unsupported_option (rq_query rq) of
        Some (k, v) \<Rightarrow> returnD (MakeError 400 ''InvalidQuery'' (''unsupported system query option '' @ in_quotes k))
      | None \<Rightarrow>
          bindD (attemptD (liftD (parse_options (st_max_filter_depth st) (b_name b) (rq_query rq)))) (\<lambda>r.
            case r of
              Inl msg \<Rightarrow> returnD (MakeError 400 ''InvalidQuery'' msg)
            | Inr q \<Rightarrow>
                bindD (attemptD (BuildEntity D b)) (\<lambda>e.
                  case e of
                    Inl msg \<Rightarrow> returnD (MakeError 404 ''NotFound'' msg)
                  | Inr full \<Rightarrow>
                      (let ent = ApplyColumnPolicy full b
                       in if is_writing rq
                          then ExecuteWrite D yyjson rq ent (r_keys route) (st_base_path st)
                          else if r_keys route \<noteq> [] then handle_key D st q ent (r_keys route)
                          else handle_collection D st rq q ent))))"

definition slot_busy :: "ODataServerState \<Rightarrow> bool" where
  "slot_busy st \<longleftrightarrow>
     0 < st_max_concurrent_queries st \<and> st_max_concurrent_queries st \<le> st_active_queries st"

definition add_active :: "int \<Rightarrow> ODataServerState \<Rightarrow> ODataServerState" where
  "add_active n st = st\<lparr>st_active_queries := st_active_queries st + n\<rparr>"

text \<open>
  The counter is incremented first; a request over the limit decrements it and is refused, the
  others decrement it when the \<open>QuerySlot\<close> is destroyed, whether they return or raise.
\<close>

definition with_slot :: "ODataServerState \<Rightarrow> (ODataServerState \<Rightarrow> ('db, HttpResponse) dbm) \<Rightarrow> 'db
    \<Rightarrow> HttpResponse res \<times> (ODataServerState \<times> 'db)" where
  "with_slot st body db =
     (if slot_busy st
      then (Inr (MakeError 503 ''ServerBusy'' ''maximum concurrent OData queries exceeded''),
            (add_active (- 1) (add_active 1 st), db))
      else (case body (add_active 1 st) db of
              (res, db') \<Rightarrow> (res, (add_active (- 1) (add_active 1 st), db'))))"

definition find_binding :: "EntityBinding list \<Rightarrow> string \<Rightarrow> EntityBinding option" where
  "find_binding bs name = find (\<lambda>b. ToLower (b_name b) = ToLower name) bs"

definition in_state :: "ODataServerState \<Rightarrow> HttpResponse res \<times> 'db
    \<Rightarrow> HttpResponse res \<times> (ODataServerState \<times> 'db)" where
  "in_state st r = (case r of (res, db) \<Rightarrow> (res, (st, db)))"

definition HandleODataRequest :: "'db duck \<Rightarrow> (string \<Rightarrow> yyval option)
    \<Rightarrow> (ODataServerState \<times> 'db) handler" where
  "HandleODataRequest D yyjson rq s =
     (case s of (st, db) \<Rightarrow>
       let writing = is_writing rq;
           reply = (\<lambda>r. (Inr r, (st, db)));
           route = ParseRoute (st_base_path st) (rq_path rq)
       in if st_token st \<noteq> [] \<and> \<not> CheckBearerToken (GetHeader rq ''Authorization'') (st_token st)
          then reply (MakeError 401 ''Unauthorized'' ''missing or invalid bearer token'')
          else if rq_method rq \<noteq> ''GET'' \<and> (\<not> writing \<or> st_read_only st)
          then reply (MakeError 405 ''MethodNotAllowed'' ''write method disabled or unsupported'')
          else if writing \<and> (r_health route \<or> r_service_doc route \<or> r_metadata route \<or> r_entity route = [])
          then reply (MakeError 405 ''MethodNotAllowed'' ''writes require an entity resource'')
          else if writing \<and> r_invalid_key route
          then reply (MakeError 400 ''InvalidKey'' ''invalid key route'')
          else if r_health route
          then reply (MakeJson 200 ''{\"status\":\"ok\"}'')
          else if st_bindings st = []
          then reply (MakeError 404 ''NotFound'' ''no entity sets are exposed (call odata_expose first)'')
          else if r_service_doc route then in_state st (service_document D st (st_bindings st) db)
          else if r_metadata route then in_state st (metadata_document D (st_bindings st) db)
          else if r_entity route = []
          then reply (MakeError 404 ''NotFound'' ''resource not found'')
          else case find_binding (st_bindings st) (r_entity route) of
            None \<Rightarrow> reply (MakeError 404 ''NotFound''
                       (''entity set '' @ in_quotes (r_entity route) @ '' is not exposed''))
          | Some b \<Rightarrow> with_slot st (\<lambda>st'. handle_entity D yyjson st' rq route b) db)"

section \<open>The state of the server is left as it was\<close>

lemma add_active_undo [simp]: "add_active (- 1) (add_active 1 st) = st"
  by (simp add: add_active_def)

lemma with_slot_state: "with_slot st body db = (res, (st', db')) \<Longrightarrow> st' = st"
  by (auto simp: with_slot_def split: if_splits prod.splits)

lemma HandleODataRequest_state:
  "HandleODataRequest D yyjson rq (st, db) = (res, (st', db')) \<Longrightarrow> st' = st"
  by (auto simp: HandleODataRequest_def Let_def in_state_def
      split: if_splits option.splits prod.splits dest: with_slot_state)

section \<open>Authentication and method policy\<close>

definition authorized :: "ODataServerState \<Rightarrow> HttpRequest \<Rightarrow> bool" where
  "authorized st rq \<longleftrightarrow> st_token st = [] \<or> CheckBearerToken (GetHeader rq ''Authorization'') (st_token st)"

lemma HandleODataRequest_unauthorized:
  "\<not> authorized st rq \<Longrightarrow> HandleODataRequest D yyjson rq (st, db)
     = (Inr (MakeError 401 ''Unauthorized'' ''missing or invalid bearer token''), (st, db))"
  by (simp add: HandleODataRequest_def authorized_def)

lemma HandleODataRequest_read_only:
  "authorized st rq \<Longrightarrow> st_read_only st \<Longrightarrow> rq_method rq \<noteq> ''GET'' \<Longrightarrow>
     HandleODataRequest D yyjson rq (st, db)
       = (Inr (MakeError 405 ''MethodNotAllowed'' ''write method disabled or unsupported''), (st, db))"
  by (auto simp: HandleODataRequest_def authorized_def)

end
