(* ===== verification/Call_Log.thy ===== *)
theory Call_Log
  imports Odata_Server
begin

text \<open>
  What a request asks of the database. \<open>emits P m\<close> says that every call \<open>m\<close> makes on a recording
  database (\<open>logging\<close>) satisfies \<open>P\<close>; it is closed under the combinators of the model, so that the
  calls of a handler are those of its parts. A GET request only reads: the catalog, with the names
  of a binding as string literals, and the table of an exposed entity, through the columns its
  policy shows.
\<close>

definition emits :: "(db_event \<Rightarrow> bool) \<Rightarrow> ('db \<times> db_event list, 'a) dbm \<Rightarrow> bool" where
  "emits P m \<longleftrightarrow>
     (\<forall>db evs r db' evs'. m (db, evs) = (r, (db', evs')) \<longrightarrow>
        (\<exists>more_evs. evs' = evs @ more_evs \<and> list_all P more_evs))"

named_theorems emits_intro

lemma emits_return [emits_intro]: "emits P (returnD x)" "emits P (throwD e)" "emits P (liftD r)"
  by (auto simp: emits_def)

lemma emits_mono: "emits P m \<Longrightarrow> (\<And>e. P e \<Longrightarrow> Q e) \<Longrightarrow> emits Q m"
  unfolding emits_def by (meson list.pred_mono_strong)

lemma emits_bind:
  assumes "emits P m" "\<And>x s s'. m s = (Inr x, s') \<Longrightarrow> emits P (f x)"
  shows "emits P (bindD m f)"
  unfolding emits_def
proof (intro allI impI)
  fix db evs r db' evs'
  assume run: "bindD m f (db, evs) = (r, (db', evs'))"
  obtain r1 db1 evs1 where m: "m (db, evs) = (r1, (db1, evs1))" by (metis prod.exhaust)
  with assms(1) obtain t1 where t1: "evs1 = evs @ t1" "list_all P t1" unfolding emits_def by blast
  show "\<exists>more_evs. evs' = evs @ more_evs \<and> list_all P more_evs"
  proof (cases r1)
    case (Inl e)
    with m run t1 show ?thesis by (auto simp: bindD_def)
  next
    case (Inr x)
    with m run have "f x (db1, evs1) = (r, (db', evs'))" by (simp add: bindD_def)
    with assms(2) [of "(db, evs)" x] m Inr obtain t2 where "evs' = evs1 @ t2" "list_all P t2"
      unfolding emits_def by blast
    with t1 show ?thesis by (intro exI [of _ "t1 @ t2"]) simp
  qed
qed

lemma emits_query [emits_intro]:
  "(\<And>ok. P (Query_Call sql ok)) \<Longrightarrow> emits P (queryD (logging D) sql)"
  by (auto simp: emits_def queryD_def split: prod.splits)

lemma emits_ExecuteQuery [emits_intro]:
  assumes "\<And>ok. P (Query_Call sql ok)" "\<And>ok. P (Timed_Call ms sql ok)"
  shows "emits P (ExecuteQuery (logging D) sql ms)"
  using assms by (auto simp: emits_def ExecuteQuery_def split: prod.splits)

lemma emits_attempt [emits_intro]: "emits P m \<Longrightarrow> emits P (attemptD m)"
  unfolding emits_def attemptD_def by (fastforce split: prod.splits sum.splits)

lemma emits_optional [emits_intro]: "emits P m \<Longrightarrow> emits P (optionalD m)"
  unfolding emits_def optionalD_def by (fastforce split: prod.splits sum.splits)

lemma emits_mapD [emits_intro]: "(\<And>x. x \<in> set xs \<Longrightarrow> emits P (f x)) \<Longrightarrow> emits P (mapD f xs)"
  by (induction xs) (auto intro!: emits_intro emits_bind)

lemma attemptD_InrD: "attemptD m s = (Inr (Inr x), s') \<Longrightarrow> m s = (Inr x, s')"
  by (auto simp: attemptD_def split: prod.splits sum.splits exn.splits)

section \<open>Reading the catalog\<close>

definition event_sql :: "db_event \<Rightarrow> string option" where
  "event_sql ev =
     (case ev of Query_Call sql _ \<Rightarrow> Some sql | Timed_Call _ sql _ \<Rightarrow> Some sql | _ \<Rightarrow> None)"

definition catalog_read :: "db_event \<Rightarrow> bool" where
  "catalog_read ev \<longleftrightarrow>
     (case event_sql ev of
        None \<Rightarrow> False
      | Some sql \<Rightarrow> has_prefix ''SELECT '' sql \<and>
          (case sql_lex sql of None \<Rightarrow> False | Some toks \<Rightarrow> idents_of toks = []))"

lemma catalog_readI:
  assumes "safe_sql sql ss []" "has_prefix ''SELECT '' sql"
  shows "catalog_read (Query_Call sql ok)"
  using safe_sql_lex [OF assms(1)] assms(2) by (auto simp: catalog_read_def event_sql_def)

lemma safe_constraints_sql: "\<exists>ss. safe_sql (constraints_sql b) ss []"
proof -
  let ?g = "''SELECT constraint_column_names FROM duckdb_constraints() WHERE constraint_type = ''"
  have pk: "safe_sql (in_quotes ''PRIMARY KEY'') [''PRIMARY KEY''] []"
    using safe_SqlLiteral [of "''PRIMARY KEY''"] by (simp add: SqlLiteral_def in_quotes_def)
  have g: "glue ?g" "glue_after '' AND table_name = ''" "glue '' AND table_name = ''"
    "glue_after '' AND database_name = ''" "glue '' AND database_name = ''"
    "glue_after '' AND schema_name = ''" "glue '' AND schema_name = ''"
    "plain_text ''current_catalog()''" "plain_text ''current_schema()''"
    by (simp_all add: glue_def glue_after_def plain_char_def boundary_char_def word_char_def)
  have "safe_sql (?g @ (in_quotes ''PRIMARY KEY'' @ '' AND table_name = '' @
      (SqlLiteral (b_table b) @ '' AND database_name = '' @
       (scope ''current_catalog()'' (b_catalog b) @ '' AND schema_name = '' @
        scope ''current_schema()'' (b_schema b)))))
     ([''PRIMARY KEY''] @ ([b_table b] @ (scope_strings (b_catalog b) @ scope_strings (b_schema b))))
     ([] @ ([] @ ([] @ [])))"
    using g pk by (intro safe_glue safe_append safe_scope safe_SqlLiteral)
  then show ?thesis unfolding constraints_sql_def by auto
qed

lemma emits_RunSql [emits_intro]:
  "(\<And>ok. P (Query_Call sql ok)) \<Longrightarrow> emits P (RunSql (logging D) sql)"
  unfolding RunSql_def by (intro emits_bind emits_query) (auto intro: emits_intro split: option.splits)

lemma emits_resolve_keys: "emits catalog_read (resolve_keys (logging D) b props)"
proof -
  have "catalog_read (Query_Call (constraints_sql b) ok)" for ok
    using safe_constraints_sql [of b]
    by (auto intro: catalog_readI simp: constraints_sql_def has_prefix_def)
  then show ?thesis
    unfolding resolve_keys_def
    by (auto intro!: emits_intro emits_bind)
qed

lemma emits_BuildEntity: "emits catalog_read (BuildEntity (logging D) b)"
proof -
  have "catalog_read (Query_Call (columns_sql b) ok)" for ok
    using safe_columns_sql [of b]
    by (auto intro: catalog_readI simp: columns_sql_def has_prefix_def)
  then show ?thesis
    unfolding BuildEntity_def Let_def
    by (auto intro!: emits_intro emits_bind emits_resolve_keys)
qed

section \<open>Reading an entity\<close>

definition typed :: "EdmEntity \<Rightarrow> bool" where
  "typed ent \<longleftrightarrow> (\<forall>p \<in> set (e_properties ent). type_text (p_duckdb_type p))"

text \<open>
  A select whose quoted names are the table and the columns of the entity; it selects \<open>*\<close> only for
  an entity without columns.
\<close>

definition entity_read :: "EdmEntity \<Rightarrow> db_event \<Rightarrow> bool" where
  "entity_read ent ev \<longleftrightarrow>
     (case event_sql ev of
        None \<Rightarrow> False
      | Some sql \<Rightarrow> has_prefix ''SELECT '' sql \<and> (has_prefix ''SELECT *'' sql \<longrightarrow> e_properties ent = []) \<and>
          (case sql_lex sql of
             None \<Rightarrow> False
           | Some toks \<Rightarrow>
               (\<forall>i \<in> set (idents_of toks).
                  ToLower i \<in> set (map ToLower ([e_catalog ent, e_schema ent, e_table ent]
                                                  @ map p_name (e_properties ent))))))"

definition reads :: "EdmEntity \<Rightarrow> db_event \<Rightarrow> bool" where
  "reads ent ev \<longleftrightarrow> (typed ent \<longrightarrow> entity_read ent ev)"

lemma typed_plain: "typed ent \<Longrightarrow> plain_types ent" "typed ent \<Longrightarrow> plain_keys ent"
  by (simp_all add: typed_def plain_types_def plain_keys_def)

lemma entity_readI:
  assumes "reads_as ent sql ss" "has_prefix ''SELECT '' sql" "has_prefix ''SELECT *'' sql \<Longrightarrow> e_properties ent = []"
  shows "entity_read ent (Query_Call sql ok)" "entity_read ent (Timed_Call ms sql ok)"
  using assms by (auto simp: entity_read_def reads_as_def event_sql_def split: option.splits)

lemma select_text_star: "select_text ps = CHR ''*'' # t \<Longrightarrow> ps = []"
  by (cases ps rule: list.exhaust; cases "tl ps" rule: list.exhaust)
     (auto simp: select_text_def QuoteIdentifier_def)

lemma select_list_star:
  assumes "CompileSelectList q ent = Inr sl" "has_prefix ''SELECT *'' (''SELECT '' @ sl @ s)" "s \<noteq> []" "hd s \<noteq> CHR ''*''"
  shows "e_properties ent = []"
proof -
  obtain ps where ps: "sl = select_text ps" "q_select q = [] \<Longrightarrow> ps = e_properties ent"
    "q_select q \<noteq> [] \<Longrightarrow> mapE (select_property ent) (q_select q) = Inr ps"
    using assms(1) by (auto simp: CompileSelectList_def bindE_Inr_iff split: if_splits)
  from assms(2-4) obtain t where "sl = CHR ''*'' # t"
    by (cases sl; cases s) (auto simp: has_prefix_def)
  with ps(1) have "ps = []" by (intro select_text_star [of ps t]) simp
  with ps(2,3) show ?thesis by (cases "q_select q = []") (auto dest: mapE_Inr_length)
qed

lemma reads_collection:
  assumes "CompileCollection q ent mt = Inr cq"
  shows "reads ent (Query_Call (cq_sql cq) ok)" "reads ent (Timed_Call ms (cq_sql cq) ok)"
proof -
  have "has_prefix ''SELECT '' (cq_sql cq)"
    using assms by (auto simp: CompileCollection_def bindE_Inr_iff has_prefix_def)
  moreover have "has_prefix ''SELECT *'' (cq_sql cq) \<Longrightarrow> e_properties ent = []"
    using assms by (auto simp: CompileCollection_def bindE_Inr_iff elim: select_list_star)
  ultimately show "reads ent (Query_Call (cq_sql cq) ok)" "reads ent (Timed_Call ms (cq_sql cq) ok)"
    using piece_reads_as [OF piece_CompileCollection [OF typed_plain(1) assms]]
    by (auto simp: reads_def intro: entity_readI)
qed

lemma reads_count:
  assumes "CompileCount q ent = Inr cq"
  shows "reads ent (Query_Call (cq_sql cq) ok)" "reads ent (Timed_Call ms (cq_sql cq) ok)"
proof -
  have "has_prefix ''SELECT '' (cq_sql cq)" "\<not> has_prefix ''SELECT *'' (cq_sql cq)"
    using assms by (auto simp: CompileCount_def bindE_Inr_iff has_prefix_def)
  then show "reads ent (Query_Call (cq_sql cq) ok)" "reads ent (Timed_Call ms (cq_sql cq) ok)"
    using piece_reads_as [OF piece_CompileCount [OF typed_plain(1) assms]]
    by (auto simp: reads_def intro: entity_readI)
qed

lemma reads_key:
  assumes "CompileByKey q ent vs = Inr cq"
  shows "reads ent (Query_Call (cq_sql cq) ok)" "reads ent (Timed_Call ms (cq_sql cq) ok)"
proof -
  have "has_prefix ''SELECT '' (cq_sql cq)"
    using assms by (auto simp: CompileByKey_def Let_def bindE_Inr_iff has_prefix_def split: if_splits)
  moreover have "has_prefix ''SELECT *'' (cq_sql cq) \<Longrightarrow> e_properties ent = []"
    using assms by (auto simp: CompileByKey_def Let_def bindE_Inr_iff split: if_splits elim: select_list_star)
  ultimately show "reads ent (Query_Call (cq_sql cq) ok)" "reads ent (Timed_Call ms (cq_sql cq) ok)"
    using piece_reads_as [OF piece_CompileByKey [OF typed_plain(2) assms]]
    by (auto simp: reads_def intro: entity_readI)
qed

lemma attempt_liftD: "attemptD (liftD r) s = (Inr (Inr x), s') \<longleftrightarrow> r = Inr x \<and> s' = s"
  by (auto simp: attemptD_def liftD_def split: sum.splits exn.splits)

lemma liftD_InrD: "liftD r s = (Inr x, s') \<Longrightarrow> r = Inr x"
  by (simp add: liftD_def)

lemma emits_handle_key: "emits (reads ent) (handle_key (logging D) st q ent keys)"
  unfolding handle_key_def
  by (auto intro!: emits_intro emits_bind reads_key simp: attempt_liftD split: sum.splits option.splits)

lemma compile_collection_InrD:
  "compile_collection st q ent = Inr (cq, cc) \<Longrightarrow>
     CompileCollection q ent (st_max_top st) = Inr cq \<and> (q_count q \<longrightarrow> CompileCount q ent = Inr cc)"
  by (auto simp: compile_collection_def bindE_Inr_iff split: if_splits)

lemma emits_count_part:
  assumes "q_count q \<Longrightarrow> CompileCount q ent = Inr cc"
  shows "emits (reads ent) (count_part (logging D) st q (cq_sql cc))"
  using assms unfolding count_part_def
  by (auto intro!: emits_intro emits_bind reads_count split: option.splits)

lemma emits_more_part: "emits (reads ent) (more_part (logging D) st q ent paged n rows)"
  unfolding more_part_def
  by (auto simp del: dbm_simps intro!: emits_intro emits_bind reads_count dest!: liftD_InrD
      split: option.splits sum.splits)

lemma emits_handle_collection: "emits (reads ent) (handle_collection (logging D) st rq q ent)"
  unfolding handle_collection_def Let_def
  by (auto intro!: emits_intro emits_bind emits_count_part emits_more_part reads_collection
      simp: attempt_liftD dest!: compile_collection_InrD split: sum.splits option.splits prod.splits)

section \<open>Requests\<close>

text \<open>The columns an entity set shows are those of its table that its policy names.\<close>

definition shown_entity :: "'db duck \<Rightarrow> EntityBinding \<Rightarrow> EdmEntity \<Rightarrow> bool" where
  "shown_entity D b ent \<longleftrightarrow> (\<exists>full s s'. BuildEntity D b s = (Inr full, s') \<and> ent = ApplyColumnPolicy full b)"

lemma shown_entityI:
  "BuildEntity D b s = (Inr full, s') \<Longrightarrow> shown_entity D b (ApplyColumnPolicy full b)"
  unfolding shown_entity_def by blast

definition binding_read :: "('db \<times> db_event list) duck \<Rightarrow> EntityBinding \<Rightarrow> db_event \<Rightarrow> bool" where
  "binding_read D b ev \<longleftrightarrow> catalog_read ev \<or> (\<exists>ent. shown_entity D b ent \<and> reads ent ev)"

lemma emits_handle_entity:
  assumes "\<not> is_writing rq"
  shows "emits (binding_read (logging D) b) (handle_entity (logging D) yyjson st rq route b)"
proof -
  have cat: "emits (binding_read (logging D) b) (BuildEntity (logging D) b)"
    by (rule emits_mono [OF emits_BuildEntity]) (simp add: binding_read_def)
  have "binding_read (logging D) b ev" if "shown_entity (logging D) b ent" "reads ent ev" for ent ev
    using that unfolding binding_read_def by blast
  then have shown: "emits (binding_read (logging D) b) m"
    if "shown_entity (logging D) b ent" "emits (reads ent) m" for ent and m :: "('a \<times> db_event list, HttpResponse) dbm"
    using that by (intro emits_mono [OF that(2)])
  have key: "emits (binding_read (logging D) b) (handle_key (logging D) st q (ApplyColumnPolicy full b) keys)"
    and coll: "emits (binding_read (logging D) b)
      (handle_collection (logging D) st rq q (ApplyColumnPolicy full b))"
    if "BuildEntity (logging D) b s = (Inr full, s')" for full s s' st q keys
    by (rule shown [OF shown_entityI [OF that] emits_handle_key],
        rule shown [OF shown_entityI [OF that] emits_handle_collection])
  show ?thesis
    using assms cat unfolding handle_entity_def Let_def
    by (auto intro!: emits_intro emits_bind dest!: attemptD_InrD split: option.splits sum.splits)
      (erule key, erule coll)
qed

lemma emits_documents:
  "emits catalog_read (service_document (logging D) st bs)"
  "emits catalog_read (metadata_document (logging D) bs)"
  unfolding service_document_def metadata_document_def
  by (auto intro!: emits_intro emits_bind emits_BuildEntity)

lemma find_binding_mem: "find_binding bs name = Some b \<Longrightarrow> b \<in> set bs"
  by (auto simp: find_binding_def dest: find_SomeD)

lemma emits_run:
  "emits P m \<Longrightarrow> m (db, evs) = (r, (db', evs')) \<Longrightarrow> \<exists>more_evs. evs' = evs @ more_evs \<and> list_all P more_evs"
  unfolding emits_def by blast

lemma with_slot_emits:
  assumes "with_slot st body (db, evs) = (res, (st', (db', evs')))" "\<And>st. emits P (body st)"
  shows "\<exists>more_evs. evs' = evs @ more_evs \<and> list_all P more_evs"
proof (cases "slot_busy st")
  case False
  then obtain db1 evs1 where "body (add_active 1 st) (db, evs) = (res, (db1, evs1))" "db1 = db'" "evs1 = evs'"
    using assms(1) by (auto simp: with_slot_def split: prod.splits)
  then show ?thesis using emits_run [OF assms(2)] by blast
qed (use assms in \<open>auto simp: with_slot_def\<close>)

lemma in_state_emits:
  assumes "in_state st (m (db, evs)) = (res, (st', (db', evs')))" "emits P m"
  shows "\<exists>more_evs. evs' = evs @ more_evs \<and> list_all P more_evs"
  using assms emits_run [OF assms(2)] by (auto simp: in_state_def split: prod.splits)

lemma GET_reads:
  assumes run: "HandleODataRequest (logging D) yyjson rq (st, (db, evs)) = (res, (st', (db', evs')))"
    and get: "\<not> is_writing rq"
  shows "\<exists>more_evs. evs' = evs @ more_evs
    \<and> list_all (\<lambda>ev. catalog_read ev \<or> (\<exists>b \<in> set (st_bindings st). binding_read (logging D) b ev)) more_evs"
    (is "\<exists>more_evs. _ \<and> list_all ?P more_evs")
proof -
  have docs: "emits ?P (service_document (logging D) st bs)" "emits ?P (metadata_document (logging D) bs)" for bs
    by (rule emits_mono [OF emits_documents(1)], simp, rule emits_mono [OF emits_documents(2)], simp)
  have ent: "emits ?P (handle_entity (logging D) yyjson st1 rq route b)"
    if "find_binding (st_bindings st) name = Some b" for st1 route b name
    using that by (intro emits_mono [OF emits_handle_entity [OF get]]) (auto dest: find_binding_mem)
  from run get show ?thesis
    by (auto simp: HandleODataRequest_def Let_def split: if_splits option.splits
        dest!: with_slot_emits [OF _ ent] in_state_emits [OF _ docs(1)] in_state_emits [OF _ docs(2)])
qed

section \<open>Writes\<close>

text \<open>
  A statement of a write: its values are placeholders, one for each parameter, and it has no string
  literal; its quoted names are the table and the columns that the policy shows.
\<close>

definition write_statement :: "EdmEntity \<Rightarrow> string \<Rightarrow> nat option \<Rightarrow> bool" where
  "write_statement ent sql params \<longleftrightarrow>
     (case sql_lex sql of
        None \<Rightarrow> False
      | Some toks \<Rightarrow> strings_of toks = [] \<and> (params = None \<or> params = Some (marks_of toks)) \<and>
          (\<forall>i \<in> set (idents_of toks).
             ToLower i \<in> set (map ToLower ([e_catalog ent, e_schema ent, e_table ent]
                                             @ map p_name (e_properties ent)))))"

definition write_event :: "EdmEntity \<Rightarrow> db_event \<Rightarrow> bool" where
  "write_event ent ev \<longleftrightarrow>
     (case ev of
        Query_Call sql _ \<Rightarrow> sql = ''BEGIN TRANSACTION'' \<or> sql = ''COMMIT'' \<or> sql = ''ROLLBACK''
      | Prepare_Call sql _ \<Rightarrow> write_statement ent sql None
      | Execute_Call sql ps _ \<Rightarrow> write_statement ent sql (Some (length ps))
      | Timed_Call _ _ _ \<Rightarrow> False)"

lemma marked_statement:
  assumes "marked ent sql n"
  shows "write_statement ent sql None" "write_statement ent sql (Some n)"
proof -
  from assms obtain toks where "sql_lex sql = Some toks" "strings_of toks = []" "marks_of toks = n"
    "names_ok ent (idents_of toks)"
    unfolding marked_def using lexes_sql_lex by blast
  then show "write_statement ent sql None" "write_statement ent sql (Some n)"
    by (auto simp: write_statement_def names_ok_def)
qed

lemma emits_ExecuteWrite:
  "emits (\<lambda>ev. typed ent \<longrightarrow> write_event ent ev) (ExecuteWrite (logging D) yyjson rq ent keys base)"
  unfolding emits_def
proof (intro allI impI)
  fix db evs r db' evs'
  assume run: "ExecuteWrite (logging D) yyjson rq ent keys base (db, evs) = (r, (db', evs'))"
  show "\<exists>more_evs. evs' = evs @ more_evs \<and> list_all (\<lambda>ev. typed ent \<longrightarrow> write_event ent ev) more_evs"
    using ExecuteWrite_calls [OF run]
  proof (elim disjE exE conjE)
    fix plan calls
    assume plan: "prepare_write yyjson rq ent keys = Inr plan" and calls: "evs' = evs @ calls"
      and wc: "write_calls plan (succeeded r) calls"
    have "typed ent \<Longrightarrow> write_statement ent (wp_sql plan) None"
      "typed ent \<Longrightarrow> write_statement ent (wp_sql plan) (Some (length (wp_values plan)))"
      using prepare_write_marks [OF plan] by (auto simp: typed_def intro: marked_statement)
    with wc have "list_all (\<lambda>ev. typed ent \<longrightarrow> write_event ent ev) calls"
      by cases (auto simp: write_event_def)
    with calls show ?thesis by blast
  qed auto
qed

definition binding_write :: "('db \<times> db_event list) duck \<Rightarrow> EntityBinding \<Rightarrow> db_event \<Rightarrow> bool" where
  "binding_write D b ev \<longleftrightarrow>
     catalog_read ev \<or> (\<exists>ent. shown_entity D b ent \<and> (typed ent \<longrightarrow> write_event ent ev))"

lemma emits_handle_write:
  assumes "is_writing rq"
  shows "emits (binding_write (logging D) b) (handle_entity (logging D) yyjson st rq route b)"
proof -
  have cat: "emits (binding_write (logging D) b) (BuildEntity (logging D) b)"
    by (rule emits_mono [OF emits_BuildEntity]) (simp add: binding_write_def)
  have exec: "emits (binding_write (logging D) b)
      (ExecuteWrite (logging D) yyjson rq (ApplyColumnPolicy full b) keys base)"
    if "BuildEntity (logging D) b s = (Inr full, s')" for full s s' keys base
    by (rule emits_mono [OF emits_ExecuteWrite])
       (use shown_entityI [OF that] in \<open>auto simp: binding_write_def\<close>)
  show ?thesis
    using assms cat unfolding handle_entity_def Let_def
    by (auto intro!: emits_intro emits_bind dest!: attemptD_InrD split: option.splits sum.splits)
      (erule exec)
qed

lemma write_calls_of_binding:
  assumes run: "HandleODataRequest (logging D) yyjson rq (st, (db, evs)) = (res, (st', (db', evs')))"
    and wr: "is_writing rq"
  shows "\<exists>more_evs. evs' = evs @ more_evs
    \<and> list_all (\<lambda>ev. \<exists>b \<in> set (st_bindings st). binding_write (logging D) b ev) more_evs"
    (is "\<exists>more_evs. _ \<and> list_all ?P more_evs")
proof -
  have ent: "emits ?P (handle_entity (logging D) yyjson st1 rq route b)"
    if "find_binding (st_bindings st) name = Some b" for st1 route b name
    using that by (intro emits_mono [OF emits_handle_write [OF wr]]) (auto dest: find_binding_mem)
  from run wr show ?thesis
    by (auto simp: HandleODataRequest_def Let_def split: if_splits option.splits
        dest!: with_slot_emits [OF _ ent])
qed

text \<open>The calls of one request.\<close>

definition calls_of :: "'db duck \<Rightarrow> (string \<Rightarrow> yyval option) \<Rightarrow> HttpRequest \<Rightarrow> ODataServerState \<Rightarrow> 'db
    \<Rightarrow> db_event list" where
  "calls_of D yyjson rq st db = snd (snd (snd (HandleODataRequest (logging D) yyjson rq (st, (db, [])))))"

lemma calls_of_run:
  obtains res st' db' where
    "HandleODataRequest (logging D) yyjson rq (st, (db, [])) = (res, (st', (db', calls_of D yyjson rq st db)))"
  by (metis calls_of_def prod.collapse)

end
