(* ===== verification/Json_Responses.thy ===== *)
theory Json_Responses
  imports Call_Log
begin

text \<open>
  The bodies of the responses. \<open>yields P m\<close> says that what \<open>m\<close> returns satisfies \<open>P\<close>. Every body that
  the handler builds by string concatenation is a JSON text, apart from the EDMX document and the
  empty bodies of updates and deletes, when the base path and the entity names need no escape in
  JSON (they are written into \<open>@odata.context\<close> unescaped) and the numbers that DuckDB prints are JSON
  numbers.
\<close>

definition yields :: "('a \<Rightarrow> bool) \<Rightarrow> ('db, 'a) dbm \<Rightarrow> bool" where
  "yields P m \<longleftrightarrow> (\<forall>s x s'. m s = (Inr x, s') \<longrightarrow> P x)"

named_theorems yields_intro

lemma yields_return [yields_intro]: "P x \<Longrightarrow> yields P (returnD x)"
  by (simp add: yields_def)

lemma yields_throw [yields_intro]: "yields P (throwD e)"
  by (simp add: yields_def)

lemma yields_lift [yields_intro]: "(\<And>x. r = Inr x \<Longrightarrow> P x) \<Longrightarrow> yields P (liftD r)"
  by (simp add: yields_def liftD_def)

lemma yields_bind: "yields Q m \<Longrightarrow> (\<And>x. Q x \<Longrightarrow> yields P (f x)) \<Longrightarrow> yields P (bindD m f)"
  unfolding yields_def bindD_eq_Inr by blast

lemma yields_bind_lift [yields_intro]:
  "(\<And>x. r = Inr x \<Longrightarrow> yields P (f x)) \<Longrightarrow> yields P (bindD (liftD r) f)"
  by (rule yields_bind [OF yields_lift])

lemma yields_if: "(c \<Longrightarrow> yields P a) \<Longrightarrow> (\<not> c \<Longrightarrow> yields P b) \<Longrightarrow> yields P (if c then a else b)"
  by simp

lemma yields_bind_any: "(\<And>x. yields P (f x)) \<Longrightarrow> yields P (bindD m f)"
  by (rule yields_bind [where Q = "\<lambda>_. True"]) (simp_all add: yields_def)

lemmas yields_bind_attempt [yields_intro] = yields_bind_any [where m = "attemptD m" for m]

lemma yields_run: "yields P m \<Longrightarrow> m s = (Inr x, s') \<Longrightarrow> P x"
  unfolding yields_def by blast

section \<open>Hypotheses on the database and the configuration\<close>

text \<open>
  A result has columns, a row has a value for each, and numbers are printed as JSON numbers: the
  documented behaviour of DuckDB's results.
\<close>

definition numeric_result :: "qresult \<Rightarrow> bool" where
  "numeric_result q \<longleftrightarrow>
     qr_error q \<noteq> None \<or>
     (qr_names q \<noteq> [] \<and> list_all (\<lambda>row. row \<noteq> [] \<and> numeric_row row) (result_rows q))"

definition numeric_db :: "'db duck \<Rightarrow> bool" where
  "numeric_db D \<longleftrightarrow>
     (\<forall>sql db. numeric_result (fst (duck_query D sql db))) \<and>
     (\<forall>ms sql db. numeric_result (fst (duck_query_within D ms sql db))) \<and>
     (\<forall>sql ps db. numeric_result (fst (duck_execute D sql ps db)))"

definition plain_names :: "ODataServerState \<Rightarrow> bool" where
  "plain_names st \<longleftrightarrow> json_plain (st_base_path st) \<and> list_all (\<lambda>b. json_plain (b_name b)) (st_bindings st)"

lemma yields_ExecuteQuery: "numeric_db D \<Longrightarrow> yields numeric_result (ExecuteQuery D sql ms)"
proof -
  assume D: "numeric_db D"
  have "numeric_result q" if "ExecuteQuery D sql ms s = (Inr q, s')" for s q s'
  proof -
    have "numeric_result (fst (duck_query D sql s))" "numeric_result (fst (duck_query_within D ms sql s))"
      using D by (auto simp: numeric_db_def)
    with that show ?thesis
      by (cases "duck_query D sql s"; cases "duck_query_within D ms sql s")
         (simp add: ExecuteQuery_def split: if_splits)
  qed
  then show ?thesis by (simp add: yields_def)
qed

lemmas yields_bind_execute = yields_bind [OF yields_ExecuteQuery]

section \<open>Objects\<close>

text \<open>An object whose members are given as text.\<close>

definition members_ok :: "string list \<Rightarrow> bool" where
  "members_ok ms \<longleftrightarrow>
     (\<forall>m \<in> set ms. \<exists>k v. m = json_member (k, v) \<and> json_unescape k \<noteq> None \<and> json v)"

lemma json_members:
  assumes "members_ok ms"
  shows "json (''{'' @ join_with '','' ms @ ''}'')"
proof -
  from assms have "\<forall>m \<in> set ms. \<exists>kv. m = json_member kv \<and> json_unescape (fst kv) \<noteq> None \<and> json (snd kv)"
    unfolding members_ok_def by (metis fst_conv snd_conv)
  then obtain g where g: "\<forall>m \<in> set ms. m = json_member (g m) \<and> json_unescape (fst (g m)) \<noteq> None \<and> json (snd (g m))"
    by metis
  then have "ms = map json_member (map g ms)" by (simp add: map_idI)
  moreover have "json (''{'' @ join_with '','' (map json_member (map g ms)) @ ''}'')"
    using g by (intro json_object) (auto, metis fst_conv, metis snd_conv)
  ultimately show ?thesis by simp
qed

lemma members_ok_Cons:
  "json_unescape k \<noteq> None \<Longrightarrow> json v \<Longrightarrow> members_ok ms \<Longrightarrow> members_ok (json_member (k, v) # ms)"
  unfolding members_ok_def by auto

lemma members_ok_Nil: "members_ok []"
  by (simp add: members_ok_def)

lemma members_ok_append: "members_ok (a @ b) \<longleftrightarrow> members_ok a \<and> members_ok b"
  by (auto simp: members_ok_def)

lemma json_plain_string: "json_plain s \<Longrightarrow> json (json_string s)"
  by (rule json_str) (simp add: json_unescape_plain_text)

lemma json_plain_append [simp]: "json_plain (a @ b) \<longleftrightarrow> json_plain a \<and> json_plain b"
  by (simp add: json_plain_def)

lemma plain_key: "json_plain k \<Longrightarrow> json_unescape k \<noteq> None"
  by (simp add: json_unescape_plain_text)

lemma json_error_body:
  assumes "json_plain c"
  shows "json (''{\"error\":{\"code\":\"'' @ c @ ''\",\"message\":\"'' @ JsonEscape m @ ''\"}}'')"
proof -
  have "json (''{'' @ join_with '','' [json_member (''code'', json_string c),
      json_member (''message'', json_string (JsonEscape m))] @ ''}'')"
    using assms by (intro json_members members_ok_Cons members_ok_Nil)
      (simp_all add: json_plain_string json_escaped plain_key json_plain_def)
  then have "json (''{'' @ join_with '','' [json_member (''error'',
      ''{'' @ join_with '','' [json_member (''code'', json_string c),
        json_member (''message'', json_string (JsonEscape m))] @ ''}'')] @ ''}'')"
    by (intro json_members [OF members_ok_Cons [OF _ _ members_ok_Nil]]) (simp_all add: plain_key json_plain_def)
  then show ?thesis by (simp add: json_member_def json_string_def)
qed

lemma json_MakeError: "json_plain c \<Longrightarrow> json (rs_body (MakeError status c m))"
  using json_error_body by (simp add: MakeError_def)

lemma json_WriteError: "json (rs_body (WriteError status m))"
  using json_error_body [of "''WriteError''" m] by (simp add: WriteError_def json_plain_def)

section \<open>Entities and collections\<close>

lemma row_members_ok: "numeric_row row \<Longrightarrow> members_ok (map json_member (row_members names row))"
  by (induction names row rule: list_induct2')
     (auto simp: numeric_row_def json_ValueToJson json_unescape_JsonEscape intro: members_ok_Cons members_ok_Nil)

lemma row_members_nonempty: "names \<noteq> [] \<Longrightarrow> row \<noteq> [] \<Longrightarrow> row_members names row \<noteq> []"
  by (cases names; cases row) auto

text \<open>The members after the first one, each with its comma.\<close>

definition more_members :: "string list \<Rightarrow> string" where
  "more_members ms = concat (map (\<lambda>m. CHR '','' # m) ms)"

lemma join_more: "join_with '','' (m # ms) = m @ more_members ms"
  by (induction ms arbitrary: m) (auto simp: more_members_def)

lemma more_members_append: "more_members (a @ b) = more_members a @ more_members b"
  by (simp add: more_members_def)

lemma json_object_text:
  assumes "members_ok (m # ms)" "s = ''{'' @ m @ more_members ms @ ''}''"
  shows "json s"
  using json_members [OF assms(1)] assms(2) by (simp only: join_more append_assoc)

definition context_member :: "ODataServerState \<Rightarrow> EdmEntity \<Rightarrow> bool \<Rightarrow> string" where
  "context_member st ent single =
     json_member (''@odata.context'', json_string (EntityContextUri (st_base_path st) (e_name ent) single))"

lemma context_text_member: "context_text st ent single = ''{'' @ context_member st ent single"
  by (simp add: context_text_def context_member_def json_member_def json_string_def)

definition plain_entity :: "ODataServerState \<Rightarrow> EdmEntity \<Rightarrow> bool" where
  "plain_entity st ent \<longleftrightarrow> json_plain (st_base_path st) \<and> json_plain (e_name ent)"

lemma context_member_ok: "plain_entity st ent \<Longrightarrow> members_ok ms \<Longrightarrow> members_ok (context_member st ent single # ms)"
  unfolding context_member_def
  by (intro members_ok_Cons plain_key json_plain_string)
     (auto simp: plain_entity_def EntityContextUri_def json_plain_def)

lemma json_entity_body:
  assumes "plain_entity st ent" "numeric_result res" "qr_error res = None"
    and "SerializeFirstRowMembers res = Some ms"
  shows "json (context_text st ent True @ CHR '','' # ms @ ''}'')"
proof -
  from assms(4) obtain row where row: "row \<in> set (result_rows res)"
    "ms = join_with '','' (map json_member (row_members (qr_names res) row))"
    by (auto simp: SerializeFirstRowMembers_def result_rows_def serialize_members_join split: list.splits)
  with assms(2,3) have ok: "numeric_row row" "row_members (qr_names res) row \<noteq> []"
    by (auto simp: numeric_result_def list_all_iff row_members_nonempty)
  then obtain m more_ms where m: "map json_member (row_members (qr_names res) row) = m # more_ms"
    by (cases "row_members (qr_names res) row") auto
  then have "members_ok (context_member st ent True # m # more_ms)"
    using row_members_ok [OF ok(1), of "qr_names res"] assms(1) by (intro context_member_ok) simp_all
  then show ?thesis
    by (rule json_object_text)
       (simp add: context_text_member row(2) m join_more more_members_def del: join_with.simps)
qed

text \<open>The optional members of a collection.\<close>

definition count_ok :: "string \<Rightarrow> bool" where
  "count_ok t \<longleftrightarrow> t = [] \<or> (\<exists>v. t = more_members [json_member (''@odata.count'', v)] \<and> json v)"

lemma json_collection_body:
  assumes "plain_entity st ent" "count_ok count_text" "numeric_result res" "qr_error res = None"
    and "SerializeRows res = (rows_json, n)"
  shows "json (context_text st ent False @ count_text @
    (if has_more then '',\"@odata.nextLink\":\"'' @ JsonEscape link @ ''\"'' else []) @
    '',\"value\":['' @ rows_json @ '']}'')"
proof -
  define cs where "cs = (if count_text = [] then [] else [tl count_text])"
  have "json_plain ''@odata.count''" by (simp add: json_plain_def)
  then have cs: "count_text = more_members cs" "members_ok cs"
    using assms(2)
    by (auto simp: cs_def count_ok_def more_members_def intro!: members_ok_Cons members_ok_Nil plain_key)
  define ls where "ls = (if has_more then [json_member (''@odata.nextLink'', json_string (JsonEscape link))] else [])"
  have ls: "members_ok ls"
    by (auto simp: ls_def intro!: members_ok_Cons members_ok_Nil plain_key json_escaped)
       (simp add: json_plain_def)
  define vm where "vm = json_member (''value'', ''['' @ rows_json @ '']'')"
  have "json (''['' @ rows_json @ '']'')"
    using assms(3-5) json_rows [of res] by (auto simp: numeric_result_def list_all_iff)
  then have vm: "members_ok [vm]"
    unfolding vm_def by (intro members_ok_Cons members_ok_Nil plain_key) (simp_all add: json_plain_def)
  have "members_ok (context_member st ent False # cs @ ls @ [vm])"
    using cs ls vm assms(1) by (intro context_member_ok) (simp_all add: members_ok_append)
  then show ?thesis
    by (rule json_object_text)
       (simp add: context_text_member cs(1) more_members_append ls_def vm_def more_members_def
          json_member_def json_string_def)
qed

section \<open>Reads\<close>

definition json_reply :: "HttpResponse \<Rightarrow> bool" where
  "json_reply r \<longleftrightarrow> rs_body r = [] \<or> json (rs_body r)"

lemma json_replyI: "json b \<Longrightarrow> json_reply (MakeJson status b)"
  by (simp add: json_reply_def MakeJson_def)

lemma error_reply: "json_plain c \<Longrightarrow> json_reply (MakeError status c m)"
  by (simp add: json_reply_def json_MakeError)

lemma error_replies [simp]:
  "json_reply (MakeError status ''InvalidQuery'' m)" "json_reply (MakeError status ''NotFound'' m)"
  "json_reply (MakeError status ''EntityHasNoKey'' m)" "json_reply (MakeError status ''InvalidKey'' m)"
  "json_reply (MakeError status ''ResponseTooLarge'' m)" "json_reply (MakeError status ''ServerBusy'' m)"
  "json_reply (MakeError status ''Unauthorized'' m)" "json_reply (MakeError status ''MethodNotAllowed'' m)"
  "json_reply (internal_error e)"
  by (rule error_reply, simp add: json_plain_def | simp add: internal_error_def, rule error_reply, simp add: json_plain_def)+

lemma yields_handle_key:
  assumes "numeric_db D" "plain_entity st ent"
  shows "yields json_reply (handle_key D st q ent keys)"
  unfolding handle_key_def
  using assms
  by (auto intro!: yields_intro yields_bind_execute json_replyI json_entity_body split: sum.splits option.splits)

lemma first_cell_numeric:
  assumes "first_cell res = Inr (Some v)" "numeric_result res" "qr_error res = None"
  shows "numeric_text v"
proof -
  let ?row = "hd (qr_chunks res) ! 0"
  from assms(1) have c: "qr_chunks res \<noteq> []" "hd (qr_chunks res) \<noteq> []" "v = ?row ! 0" "0 < length ?row"
    by (auto simp: first_cell_def cell_def bindE_Inr_iff split: if_splits)
  then have "?row \<in> set (hd (qr_chunks res))" by (intro nth_mem) simp
  with c(1) have "?row \<in> set (result_rows res)" by (cases "qr_chunks res") (auto simp: result_rows_def)
  with assms(2,3) have "numeric_row ?row" by (auto simp: numeric_result_def list_all_iff)
  with c(3,4) show ?thesis by (auto simp: numeric_row_def list_all_iff)
qed

lemma to_string_zero: "to_string 0 = ''0''"
  by code_simp

lemma count_ok_value: "json v \<Longrightarrow> count_ok ('',\"@odata.count\":'' @ v)"
  by (auto simp: count_ok_def more_members_def json_member_def json_string_def)

definition part_ok :: "('a \<Rightarrow> bool) \<Rightarrow> HttpResponse + 'a \<Rightarrow> bool" where
  "part_ok P r = (case r of Inl resp \<Rightarrow> json_reply resp | Inr x \<Rightarrow> P x)"

lemma part_ok_simps [simp]: "part_ok P (Inl resp) = json_reply resp" "part_ok P (Inr x) = P x"
  by (simp_all add: part_ok_def)

lemma yields_count_part:
  assumes "numeric_db D"
  shows "yields (part_ok (\<lambda>(n, t). count_ok t)) (count_part D st q sql)"
proof -
  have "count_ok [] \<and> count_ok '',\"@odata.count\":0''"
    using count_ok_value [OF json_to_string [of 0]] by (simp add: to_string_zero) (simp add: count_ok_def)
  then show ?thesis
    using assms unfolding count_part_def
    by (auto intro!: yields_intro yields_bind_execute count_ok_value [simplified append_Cons append_Nil]
          json_ValueToJson dest!: first_cell_numeric split: option.splits)
qed

lemma yields_more_part: "yields (part_ok (\<lambda>b. True)) (more_part D st q ent paged n rows)"
proof -
  have inner: "yields (part_ok (\<lambda>k. True))
     (if 0 \<le> n then returnD (Inr n)
      else bindD (liftD (CompileCount q ent)) (\<lambda>cc.
             bindD (ExecuteQuery D (cq_sql cc) (st_query_timeout_ms st)) (\<lambda>res.
               case qr_error res of
                 Some e \<Rightarrow> returnD (Inl (internal_error e))
               | None \<Rightarrow> bindD (liftD (first_cell res)) (\<lambda>c.
                   case c of None \<Rightarrow> returnD (Inr n)
                   | Some v \<Rightarrow> bindD (liftD (dv_int64 v)) (\<lambda>n. returnD (Inr n))))))"
    by (auto intro!: yields_intro yields_bind_any [where m = "ExecuteQuery D sql ms" for sql ms] split: option.splits)
  show ?thesis
    unfolding more_part_def
    by (rule yields_if, rule yields_return, simp, rule yields_bind [OF inner])
       (auto intro!: yields_intro split: sum.splits)
qed

lemma yields_handle_collection:
  assumes "numeric_db D" "plain_entity st ent"
  shows "yields json_reply (handle_collection D st rq q ent)"
proof -
  note body = json_collection_body [where has_more = True, simplified append_Cons append_Nil append_assoc if_True]
    json_collection_body [where has_more = False, simplified append_Cons append_Nil append_assoc if_False]
  show ?thesis
    using assms unfolding handle_collection_def Let_def
    by (auto intro!: yields_intro yields_bind [OF yields_count_part] yields_bind [OF yields_more_part]
          yields_bind_execute json_replyI body split: sum.splits option.splits prod.splits)
qed

section \<open>Writes\<close>

lemma WriteError_reply [simp]: "json_reply (WriteError status m)"
  by (simp add: json_reply_def json_WriteError)

lemma created_members_ok:
  assumes "created_members base ent k chunk i ps = Inr (ms, loc)" "list_all numeric_row chunk"
  shows "members_ok (map json_member ms)"
  using assms(1)
proof (induction ps arbitrary: i ms loc)
  case (Cons p ps)
  then obtain v ms' l where v: "cell chunk 0 i = Inr v" and ms: "ms = (JsonEscape (p_name p), ValueToJson v) # ms'"
    and rest: "created_members base ent k chunk (i + 1) ps = Inr (ms', l)"
    by (auto simp: bindE_Inr_iff split: sum.splits if_splits)
  from v assms(2) have "numeric_text v"
    by (auto simp: cell_def numeric_row_def list_all_length split: if_splits)
  with Cons.IH [OF rest] ms show ?case
    by (auto intro!: members_ok_Cons json_ValueToJson simp: json_unescape_JsonEscape)
qed (simp add: members_ok_Nil)

lemma written_response_reply:
  assumes "written_response ins base ent k chunks = Inr r"
    and "list_all numeric_row (concat chunks)"
  shows "json_reply r"
proof -
  have "list_all numeric_row (hd chunks)" if "chunks \<noteq> []"
    using assms(2) that by (cases chunks) auto
  with assms(1) show ?thesis
    by (auto simp: written_response_def json_reply_def bindE_Inr_iff split: if_splits
        dest!: created_members_ok dest: json_members [simplified append_Cons append_Nil])
qed

lemma fail_reply: "fail_result f = Inr r \<Longrightarrow> json_reply r"
  by (cases f) (auto simp: fail_result_def)

lemma in_transaction_reply:
  assumes "numeric_db D" "in_transaction D plan ins base ent db = ((Inr r, cm), db')"
  shows "json_reply r"
proof -
  obtain q db2 where q: "duck_execute D (wp_sql plan) (wp_values plan) (snd (duck_prepare D (wp_sql plan) db)) = (q, db2)"
    by (cases "duck_execute D (wp_sql plan) (wp_values plan) (snd (duck_prepare D (wp_sql plan) db))")
  have "numeric_result (fst (duck_execute D (wp_sql plan) (wp_values plan) (snd (duck_prepare D (wp_sql plan) db))))"
    using assms(1) by (simp add: numeric_db_def)
  then have "list_all numeric_row (concat (qr_chunks q))" if "qr_error q = None"
    using that q by (auto simp: numeric_result_def result_rows_def list_all_iff)
  with assms(2) q show ?thesis
    by (auto simp: in_transaction_def split: prod.splits option.splits sum.splits
        dest: written_response_reply fail_reply)
qed

lemma yields_ExecuteWrite:
  "numeric_db D \<Longrightarrow> yields json_reply (ExecuteWrite D yyjson rq ent keys base)"
  by (auto simp: yields_def ExecuteWrite_def liftD_def split: sum.splits prod.splits if_splits
      dest: in_transaction_reply fail_reply)

section \<open>The handler\<close>

lemma service_entry_json: "json (service_entry b)"
proof -
  let ?n = "json_string (JsonEscape (b_name b))"
  have "members_ok (json_member (''name'', ?n) # [json_member (''kind'', json_string ''EntitySet''), json_member (''url'', ?n)])"
    by (intro members_ok_Cons members_ok_Nil plain_key json_escaped json_plain_string) (simp_all add: json_plain_def)
  then show ?thesis
    by (rule json_object_text) (simp add: service_entry_def more_members_def json_member_def json_string_def)
qed

lemma service_document_json:
  assumes "json_plain base"
  shows "json (''{\"@odata.context\":\"'' @ base @ ''/$metadata\",\"value\":['' @
          join_with '','' (map service_entry bs) @ '']}'')"
proof -
  have "json (''['' @ join_with '','' (map service_entry bs) @ '']'')"
    by (rule json_array) (auto simp: service_entry_json)
  moreover have "json_plain (base @ ''/$metadata'')" using assms by (simp add: json_plain_def)
  ultimately have "members_ok (json_member (''@odata.context'', json_string (base @ ''/$metadata''))
      # [json_member (''value'', ''['' @ join_with '','' (map service_entry bs) @ '']'')])"
    by (intro members_ok_Cons members_ok_Nil plain_key json_plain_string) (simp_all add: json_plain_def)
  then show ?thesis
    by (rule json_object_text) (simp add: more_members_def json_member_def json_string_def)
qed

lemma yields_service_document:
  "json_plain (st_base_path st) \<Longrightarrow> yields json_reply (service_document D st bs)"
  unfolding service_document_def
  by (rule yields_bind_any)
     (use service_document_json [of "st_base_path st" "map fst (filter (\<lambda>(b, e). e \<noteq> None) rs)" for rs] in
      \<open>auto intro!: yields_return json_replyI simp: comp_def case_prod_unfold\<close>)

lemma yields_handle_entity:
  assumes "numeric_db D" "json_plain (st_base_path st)" "json_plain (b_name b)"
  shows "yields json_reply (handle_entity D yyjson st rq route b)"
proof -
  have built: "yields (\<lambda>r. \<forall>full. r = Inr full \<longrightarrow> e_name full = b_name b) (attemptD (BuildEntity D b))"
    by (auto simp: yields_def dest!: attemptD_InrD dest: BuildEntity_shape)
  show ?thesis
    using assms unfolding handle_entity_def Let_def
    by (auto intro!: yields_intro yields_bind [OF built] yields_ExecuteWrite yields_handle_key
          yields_handle_collection simp: plain_entity_def split: option.splits sum.splits)
qed

lemma with_slot_yields:
  assumes "with_slot st body db = (Inr r, s')" "yields json_reply (body (add_active 1 st))"
  shows "json_reply r"
  using assms by (auto simp: with_slot_def yields_def split: if_splits prod.splits)

lemma handler_replies_json:
  assumes run: "HandleODataRequest D yyjson rq (st, db) = (Inr r, s')"
    and "numeric_db D" "plain_names st" "\<not> r_metadata (ParseRoute (st_base_path st) (rq_path rq))"
  shows "json_reply r"
proof -
  have "json_plain (b_name b)" if "find_binding (st_bindings st) name = Some b" for name b
    using that assms(3) by (auto simp: plain_names_def list_all_iff find_binding_def dest: find_SomeD)
  then have ent: "yields json_reply (handle_entity D yyjson (add_active 1 st) rq route b)"
    if "find_binding (st_bindings st) name = Some b" for name b route
    using that assms(2,3)
    by (intro yields_handle_entity) (auto simp: plain_names_def add_active_def)
  have doc: "json_reply r" if "in_state st (service_document D st bs db) = (Inr r, s')" for bs
    using that assms(3) yields_run [OF yields_service_document [of st D bs], of db]
    by (auto simp: in_state_def plain_names_def split: prod.splits)
  have health: "json_reply (MakeJson 200 ''{\"status\":\"ok\"}'')"
    using json_members [OF members_ok_Cons [OF plain_key json_plain_string members_ok_Nil], of "''status''" "''ok''"]
    by (intro json_replyI) (simp add: json_member_def json_string_def json_plain_def)
  from run assms(4) show ?thesis
    by (auto simp: HandleODataRequest_def Let_def health split: if_splits option.splits
        dest: doc
        with_slot_yields [where body = "\<lambda>st'. handle_entity D yyjson st' rq route b" for route b, OF _ ent])
qed

end
