(* ===== verification/Demo_Database.thy ===== *)
theory Demo_Database
  imports Json_Responses
begin

text \<open>
  A small concrete database and server configuration, on which the theorems of the development are
  instantiated: one table with three columns, the second of which is not shown by the policy of its
  entity set. The answers depend only on how a statement begins.
\<close>

definition demo_text :: "string \<Rightarrow> dvalue" where
  "demo_text s = \<lparr>dv_null = False, dv_type = LT_VARCHAR, dv_text = s, dv_bool = False, dv_real = NaN False,
     dv_blob = [], dv_int64 = Inl (DuckDBException ''conversion''), dv_children = Inr [s]\<rparr>"

definition demo_int :: "int \<Rightarrow> dvalue" where
  "demo_int n = \<lparr>dv_null = False, dv_type = LT_BIGINT, dv_text = to_string n, dv_bool = n \<noteq> 0,
     dv_real = NaN False, dv_blob = [], dv_int64 = Inr n, dv_children = Inl (DuckDBException ''not a list'')\<rparr>"

definition demo_result :: "string list \<Rightarrow> dvalue list list \<Rightarrow> qresult" where
  "demo_result names rows = \<lparr>qr_error = None, qr_names = names, qr_chunks = [rows]\<rparr>"

definition demo_column :: "string \<Rightarrow> string \<Rightarrow> dvalue list" where
  "demo_column name ty = [demo_text name, demo_text ty, demo_int 0, demo_text ''db'', demo_text ''main'']"

definition demo_answer :: "string \<Rightarrow> qresult" where
  "demo_answer sql =
     (if has_prefix ''SELECT column_name'' sql then
        demo_result [''column_name'', ''data_type'', ''is_nullable'', ''database_name'', ''schema_name'']
          [demo_column ''id'' ''BIGINT'', demo_column ''pin'' ''BIGINT'', demo_column ''name'' ''VARCHAR'']
      else if has_prefix ''SELECT constraint'' sql then
        demo_result [''constraint_column_names''] [[demo_text ''id'']]
      else if has_prefix ''SELECT database_name'' sql then
        demo_result [''database_name'', ''schema_name''] [[demo_text ''db'', demo_text ''main'']]
      else if has_prefix ''SELECT COUNT'' sql then demo_result [''__odata_count''] [[demo_int 5]]
      else demo_result [''id'', ''name''] [[demo_int 1, demo_text ''a''], [demo_int 2, demo_text ''b'']])"

definition demo_duck :: "nat duck" where
  "demo_duck =
     \<lparr>duck_query = (\<lambda>sql n. (demo_answer sql, n + 1)),
      duck_query_within = (\<lambda>ms sql n. (demo_answer sql, n + 1)),
      duck_prepare = (\<lambda>sql n. (None, n + 1)),
      duck_execute = (\<lambda>sql ps n. (demo_result [''id'', ''name''] [[demo_int 1, demo_text ''a'']], n + 1))\<rparr>"

definition demo_binding :: EntityBinding where
  "demo_binding = \<lparr>b_name = ''c'', b_table = ''c'', b_schema = ''main'', b_catalog = ''db'', b_keys = [],
     b_columns = [''ID'', ''name'']\<rparr>"

definition demo_state :: ODataServerState where
  "demo_state = initial_state\<lparr>st_bindings := [demo_binding], st_base_path := ''/o'', st_token := ''t'',
     st_read_only := False, st_page_size := 2\<rparr>"

definition demo_request :: "string \<Rightarrow> string \<Rightarrow> (string \<times> string) list \<Rightarrow> HttpRequest" where
  "demo_request meth path opts = \<lparr>rq_method = meth, rq_path = path, rq_raw_query = [], rq_body = ''{}'',
     rq_query = opts, rq_headers = [(''authorization'', ''Bearer t''), (''content-type'', ''application/json'')]\<rparr>"

definition demo_json :: "string \<Rightarrow> yyval option" where
  "demo_json body = Some (Y_Obj [(''id'', Y_Raw ''1''), (''NAME'', Y_Str ''a'')])"

lemma demo_get:
  "rs_status (case fst (HandleODataRequest demo_duck demo_json (demo_request ''GET'' ''/o/c'' []) (demo_state, 0)) of
     Inr r \<Rightarrow> r) = 200"
  by code_simp

lemma demo_numeric: "numeric_db demo_duck"
proof -
  have "numeric_result (demo_answer sql)" for sql
    unfolding demo_answer_def by (simp split: if_split) code_simp
  moreover have "numeric_result (demo_result [''id'', ''name''] [[demo_int 1, demo_text ''a'']])"
    by code_simp
  ultimately show ?thesis
    by (simp add: numeric_db_def demo_duck_def)
qed

end
