(* ===== verification/Generated_Sql.thy ===== *)
theory Generated_Sql
  imports Demo_Database Filter_Text
begin

text \<open>
  Properties of the SQL that a request is compiled to: how it is read, what it can name, how many
  rows it asks for, and the expressions whose text does not say what they mean.
\<close>

section \<open>An entity to instantiate the theorems on\<close>

definition demo_property :: "string \<Rightarrow> EdmType \<Rightarrow> string \<Rightarrow> bool \<Rightarrow> EdmProperty" where
  "demo_property name ty ddb key =
     \<lparr>p_name = name, p_edm_type = ty, p_nullable = \<not> key, p_is_key = key, p_duckdb_type = ddb, p_serializable = True\<rparr>"

definition demo_entity :: EdmEntity where
  "demo_entity = \<lparr>e_name = ''c'', e_catalog = ''db'', e_schema = ''main'', e_table = ''c'',
     e_properties = [demo_property ''id'' INT64 ''BIGINT'' True, demo_property ''pin'' INT64 ''BIGINT'' False,
       demo_property ''name'' EdmType.STRING ''VARCHAR'' False], e_has_key = True\<rparr>"

definition demo_query :: ODataQuery where
  "demo_query = (empty_query ''c'')\<lparr>q_filter := Some (BinaryExpr BinaryOp.EQ (PropertyExpr ''NAME'')
     (Literal (StringLit (''a'' @ CHR 0x27 # '' OR 1=1 --'')))), q_top := 50, q_select := [''id'']\<rparr>"

section \<open>Strings stay strings\<close>



section \<open>Hidden columns\<close>

definition mentioned :: "ODataQuery \<Rightarrow> string list" where
  "mentioned q = q_select q @ map ob_property (q_order_by q)
     @ (case q_filter q of None \<Rightarrow> [] | Some f \<Rightarrow> expr_properties f)"

definition known :: "EdmEntity \<Rightarrow> string \<Rightarrow> bool" where
  "known ent n \<longleftrightarrow> (\<exists>p \<in> set (e_properties ent). ToLower (p_name p) = ToLower n)"

lemma operand_Inr: "operand ent e other = Inr x \<Longrightarrow> \<exists>y. Compile ent e = Inr y"
  by (cases e) (auto simp: operand_def)

lemma Compile_known: "Compile ent ex = Inr sql \<Longrightarrow> n \<in> set (expr_properties ex) \<Longrightarrow> known ent n"
proof (induction ex arbitrary: sql)
  case (PropertyExpr name)
  then show ?case
    by (auto simp: ResolveProperty_def known_def split: option.splits dest: property_index_Some)
next
  case (BinaryExpr op l r)
  then show ?case
    by (auto simp: Compile_Binary bindE_Inr_iff IsNullLit_def split: if_splits dest!: operand_Inr)
next
  case (FunctionCallExpr name args)
  have "args = []" if "find_function ''now'' = Some (a, f, lo, hi)" "\<not> hi < length args" for a f lo hi
    using that by (simp add: find_function_def GetFunctionMap_def)
  with FunctionCallExpr show ?case
    by (auto simp: Let_def bindE_Inr_iff mapE_Inr_list_all2 list_all2_conv_all_nth in_set_conv_nth
        split: option.splits prod.splits if_splits) blast+
qed (auto simp: bindE_Inr_iff)

lemma find_known: "find (same_name n) (e_properties ent) = Some p \<Longrightarrow> known ent n"
  by (auto simp: known_def same_name_def find_Some_iff)

lemma CompileCollection_known:
  assumes "CompileCollection q ent max_top = Inr cq" "n \<in> set (mentioned q)"
  shows "known ent n"
proof -
  from assms(1) obtain sel wh terms where
    sel: "CompileSelectList q ent = Inr sel" and wh: "CompileFilterText q ent = Inr wh"
    and terms: "mapE (order_term ent) (q_order_by q) = Inr terms"
    by (auto simp: CompileCollection_def bindE_Inr_iff)
  from assms(2) consider "n \<in> set (q_select q)" | t where "t \<in> set (q_order_by q)" "n = ob_property t"
    | f where "q_filter q = Some f" "n \<in> set (expr_properties f)"
    by (cases "q_filter q") (auto simp: mentioned_def)
  then show ?thesis
  proof cases
    case 1
    with sel obtain ps where "mapE (select_property ent) (q_select q) = Inr ps"
      by (auto simp: CompileSelectList_def bindE_Inr_iff split: if_splits)
    with 1 obtain p where "select_property ent n = Inr p"
      by (auto simp: mapE_Inr_list_all2 list_all2_conv_all_nth in_set_conv_nth)
    then show ?thesis by (auto simp: select_property_def split: option.splits dest: find_known)
  next
    case (2 t)
    with terms obtain x where "order_term ent t = Inr x"
      by (auto simp: mapE_Inr_list_all2 list_all2_conv_all_nth in_set_conv_nth)
    with 2 show ?thesis by (auto simp: order_term_def split: option.splits dest: find_known)
  next
    case (3 f)
    with wh show ?thesis by (auto simp: CompileFilterText_def dest: Compile_known)
  qed
qed

text \<open>
  C15. A query on an entity set with a list of columns is refused with an ODataParseException when its
  $select, $orderby or $filter names a column outside the list.
\<close>

theorem hidden_column_refused:
  assumes "n \<in> set (mentioned q)" "\<not> public_column b n"
  shows "\<exists>m. CompileCollection q (ApplyColumnPolicy ent b) max_top = Inl (ODataParseException m)"
proof (cases "CompileCollection q (ApplyColumnPolicy ent b) max_top")
  case (Inl e)
  with CompileCollection_Inl [OF Inl] show ?thesis by auto
next
  case (Inr cq)
  from CompileCollection_known [OF Inr assms(1)] obtain p where
    "p \<in> set (e_properties (ApplyColumnPolicy ent b))" "ToLower (p_name p) = ToLower n"
    by (auto simp: known_def)
  then have "public_column b n" by (simp add: ApplyColumnPolicy_public public_column_def)
  with assms(2) show ?thesis by simp
qed

theorem hidden_column_refused_witness:
  "''pin'' \<in> set (mentioned (demo_query\<lparr>q_select := [''pin'']\<rparr>)) \<and> \<not> public_column demo_binding ''pin''
   \<and> (\<exists>m. CompileCollection (demo_query\<lparr>q_select := [''pin'']\<rparr>) (ApplyColumnPolicy demo_entity demo_binding) 10
        = Inl (ODataParseException m))"
proof -
  have "''pin'' \<in> set (mentioned (demo_query\<lparr>q_select := [''pin'']\<rparr>))" "\<not> public_column demo_binding ''pin''"
    by code_simp+
  with hidden_column_refused show ?thesis by blast
qed

text \<open>
  C36. When no column of the list is left in the table, the statement of a collection selects every
  column: the policy that should hide most columns shows all of them.
\<close>

theorem empty_policy_shows_all:
  assumes "b_columns b \<noteq> []" "\<forall>p \<in> set (e_properties ent). \<not> public_column b (p_name p)"
  shows "\<exists>cq. CompileCollection (empty_query name) (ApplyColumnPolicy ent b) max_top = Inr cq
    \<and> has_prefix ''SELECT * FROM '' (cq_sql cq)"
proof -
  have "e_properties (ApplyColumnPolicy ent b) = []"
    using assms(2) ApplyColumnPolicy_public [of _ ent b] by (metis last_in_set)
  then show ?thesis
    by (simp add: CompileCollection_def CompileSelectList_def select_text_def CompileFilterText_def
        empty_query_def has_prefix_def)
qed

theorem empty_policy_shows_all_witness:
  "list_all (\<lambda>p. \<not> public_column (demo_binding\<lparr>b_columns := [''nick'']\<rparr>) (p_name p)) (e_properties demo_entity)
   \<and> (\<exists>cq. CompileCollection (empty_query ''c'') (ApplyColumnPolicy demo_entity (demo_binding\<lparr>b_columns := [''nick'']\<rparr>)) 10 = Inr cq
        \<and> has_prefix ''SELECT * FROM '' (cq_sql cq))"
proof -
  have "b_columns (demo_binding\<lparr>b_columns := [''nick'']\<rparr>) \<noteq> []"
    "list_all (\<lambda>p. \<not> public_column (demo_binding\<lparr>b_columns := [''nick'']\<rparr>) (p_name p)) (e_properties demo_entity)"
    by code_simp+
  with empty_policy_shows_all [of "demo_binding\<lparr>b_columns := [''nick'']\<rparr>" demo_entity "''c''" 10]
  show ?thesis by (simp add: list_all_iff)
qed

section \<open>How many rows\<close>

text \<open>The limit is the last clause before the offset.\<close>

lemma limit_is_bounded:
  assumes "CompileCollection q ent max_top = Inr cq" "0 \<le> max_top" "0 \<le> q_top q"
  shows "\<exists>pre. cq_sql cq = pre @ '' LIMIT '' @ to_string (min (q_top q) max_top) @ offset_clause q"
proof -
  have "effective_top q max_top = min (q_top q) max_top" using assms(2,3) by (rule effective_top_min)
  moreover obtain x where "cq_sql cq = x @ limit_clause (effective_top q max_top) @ offset_clause q"
    using assms(1) by (auto simp: CompileCollection_def bindE_Inr_iff simp flip: append_assoc)
  ultimately show ?thesis using assms(2,3) by (auto simp: limit_clause_def)
qed

section \<open>Texts that do not say what was meant\<close>

text \<open>A double is written with six decimals: what is smaller than that is written as zero.\<close>

definition tiny :: double where "tiny = Fin False 7555786372591432 (- 76)"

lemma tokens_tiny: "Tokenize ''price lt 1e-7'' = Inr [mk_token IDENTIFIER ''price'' 1, mk_token TokenType.LT ''lt'' 1,
    (mk_token FLOAT ''1e-7'' 1)\<lparr>float_value := tiny\<rparr>, end_token]"
proof -
  have w: "tokenize_from 1 (w @ CHR '' '' # rest) = bindE (tokenize_from 1 rest) (\<lambda>ts. Inr (word_token w 1 # ts))"
    if "w \<in> {''price'', ''lt''}" for w rest
    using that by (intro tokenize_word) (auto simp: IsIdentStart_def IsIdentChar_def char_class)
  have n: "tokenize_from 1 ''1e-7'' = bindE (tokenize_from 1 []) (\<lambda>ts. Inr ((mk_token FLOAT ''1e-7'' 1)\<lparr>float_value := tiny\<rparr> # ts))"
  proof (rule tokenize_number)
    show "starts_number ''1e-7''" by code_simp
    show "lex_number ''1e-7'' = (''1e-7'', True, [])" by code_simp
    show "number_token ''1e-7'' True 1 = Inr ((mk_token FLOAT ''1e-7'' 1)\<lparr>float_value := tiny\<rparr>)"
      by (simp add: number_token_def stod_1em7 tiny_def)
  qed
  have k: "word_token ''price'' 1 = mk_token IDENTIFIER ''price'' 1" "word_token ''lt'' 1 = mk_token TokenType.LT ''lt'' 1"
    by code_simp+
  show ?thesis
    using w [of "''price''" "''lt 1e-7''"] w [of "''lt''" "''1e-7''"] n k
    by (simp add: Tokenize_def end_token_def)
qed

lemma small_number_is_zero:
  "bindE (ParseFilter ''price lt 1e-7'') (Compile ent)
     = bindE (ResolveProperty ent ''price'') (\<lambda>c. Inr (c @ '' < 0.000000''))"
proof -
  have "ParseFilter ''price lt 1e-7'' = Inr (BinaryExpr BinaryOp.LT (PropertyExpr ''price'') (Literal (FloatLit tiny)))"
    unfolding ParseFilter_def tokens_tiny by code_simp
  then show ?thesis
    by (simp add: Compile_Binary operand_def real_literal_def tiny_def to_string_1em7 join_operands_def
        sql_op_def IsNullLit_def Let_def del: to_string_double.simps)
qed

text \<open>
  Next to a function whose result is no number and no string in the list of \<open>ResolveLiteralType\<close>, a
  string is cast to BOOLEAN: a date can not be compared with \<open>now()\<close>.
\<close>

lemma now_compared_as_boolean:
  "Compile ent (BinaryExpr BinaryOp.GT (FunctionCallExpr ''now'' []) (Literal (StringLit s)))
     = Inr (''now() > CAST('' @ QuoteStringLiteral s @ '' AS BOOLEAN)'')"
proof -
  have "Compile ent (FunctionCallExpr ''now'' []) = Inr ''now()''"
    "ResolveLiteralType ent (FunctionCallExpr ''now'' []) = ''BOOLEAN''"
    "BaseTypeOf ''BOOLEAN'' = ''boolean''" "\<not> IsStringBase ''boolean''"
    by code_simp+
  then show ?thesis
    by (simp add: Compile_Binary operand_def join_operands_def sql_op_def IsNullLit_def null_test_def del: Compile.simps ResolveLiteralType.simps)
qed

end
