(* ===== verification/Sql_Grammar.thy ===== *)
theory Sql_Grammar
  imports Sql_Lex
begin

text \<open>
  The part of the SQL grammar that the code writes, as a specification of their texts: the
  words of a statement and the expression that a list of words stands for. The operators bind as
  the SQL grammar of DuckDB (that of PostgreSQL) says, from weak to strong: OR, AND, NOT, the null
  tests, the comparisons, which do not chain. A text outside this part has no reading.
\<close>

section \<open>Words\<close>

text \<open>\<open>Wd\<close> is a keyword, a number, a function name, an operator or a punctuation character.\<close>

datatype sql_word = WId string | WStr string | Wd string

definition name_char :: "char \<Rightarrow> bool" where
  "name_char c \<longleftrightarrow> isalnum c \<or> c = CHR ''_'' \<or> c = CHR ''.''"

definition op_char :: "char \<Rightarrow> bool" where
  "op_char c \<longleftrightarrow> c \<in> set ''<>=''"

definition joins :: "char \<Rightarrow> sql_token list \<Rightarrow> bool" where
  "joins c ts \<longleftrightarrow>
     (case ts of Ch d # _ \<Rightarrow> name_char c \<and> name_char d \<or> op_char c \<and> op_char d | _ \<Rightarrow> False)"

text \<open>A character before the words of the rest: it starts a word or lengthens the next one.\<close>

definition put_char :: "char \<Rightarrow> bool \<Rightarrow> sql_word list \<Rightarrow> sql_word list" where
  "put_char c j ws =
     (case ws of Wd w # r \<Rightarrow> if j then Wd (c # w) # r else Wd [c] # ws | _ \<Rightarrow> Wd [c] # ws)"

fun sql_words :: "sql_token list \<Rightarrow> sql_word list" where
  "sql_words [] = []"
| "sql_words (Id v # ts) = WId v # sql_words ts"
| "sql_words (Str v # ts) = WStr v # sql_words ts"
| "sql_words (Ch c # ts) =
     (if c = CHR '' '' then sql_words ts else put_char c (joins c ts) (sql_words ts))"

definition sep_char :: "char \<Rightarrow> bool" where
  "sep_char c \<longleftrightarrow> c \<in> set '' (),''"

lemma joins_simps [simp]:
  "\<not> joins c []" "\<not> joins c (Id v # ts)" "\<not> joins c (Str v # ts)"
  "joins c (Ch d # ts) \<longleftrightarrow> name_char c \<and> name_char d \<or> op_char c \<and> op_char d"
  by (simp_all add: joins_def)

lemma sep_char_alone: "sep_char c \<Longrightarrow> \<not> name_char c \<and> \<not> op_char c"
  by (auto simp: sep_char_def name_char_def op_char_def isalnum_def char_class)

lemma put_char_alone [simp]: "put_char c False ws = Wd [c] # ws"
  by (simp add: put_char_def split: list.split sql_word.split)

lemma joins_word: "joins c ts \<Longrightarrow> \<exists>w r. sql_words ts = Wd w # r"
proof (cases ts)
  case (Cons t us)
  assume j: "joins c ts"
  then obtain d where d: "t = Ch d" "name_char d \<or> op_char d"
    using Cons by (cases t) auto
  then have "d \<noteq> CHR '' ''" using sep_char_alone [of "CHR '' ''"] by (auto simp: sep_char_def)
  then show ?thesis
    using Cons d by (auto simp: put_char_def split: list.split sql_word.split)
qed simp

lemma sql_words_sep:
  assumes "sep_char c"
  shows "sql_words (a @ Ch c # b) = sql_words a @ sql_words (Ch c # b)"
proof (induction a)
  case (Cons t a)
  show ?case
  proof (cases t)
    case (Ch d)
    have j: "joins d (a @ Ch c # b) = joins d a"
      using sep_char_alone [OF assms] by (cases a) (auto simp: joins_def)
    show ?thesis
    proof (cases "joins d a")
      case True
      with joins_word obtain w r where "sql_words a = Wd w # r" by blast
      with Cons.IH Ch j True show ?thesis by (simp add: put_char_def)
    next
      case False
      with Cons.IH Ch j show ?thesis by simp
    qed
  qed (use Cons.IH in simp_all)
qed simp

lemma sql_words_sep_hd: "sep_char c \<Longrightarrow> sql_words (Ch c # b) = sql_words [Ch c] @ sql_words b"
  using sep_char_alone [of c] by (cases b rule: sql_words.cases) (simp_all add: joins_def split: sql_token.split)

text \<open>Words of text that begins or ends with a separator.\<close>

definition sep_start :: "string \<Rightarrow> bool" where
  "sep_start g \<longleftrightarrow> g \<noteq> [] \<and> sep_char (hd g)"

definition sep_end :: "string \<Rightarrow> bool" where
  "sep_end g \<longleftrightarrow> g \<noteq> [] \<and> sep_char (last g)"

lemma sql_words_start:
  "sep_start g \<Longrightarrow> sql_words (a @ map Ch g) = sql_words a @ sql_words (map Ch g)"
  by (cases g) (auto simp: sep_start_def sql_words_sep)

lemma sql_words_end:
  assumes "sep_end g"
  shows "sql_words (map Ch g @ b) = sql_words (map Ch g) @ sql_words b"
proof -
  obtain h c where g: "g = h @ [c]" "sep_char c"
    using assms by (cases g rule: rev_cases) (auto simp: sep_end_def)
  have "sql_words (map Ch h @ Ch c # b) = sql_words (map Ch h) @ sql_words [Ch c] @ sql_words b"
    using g(2) by (simp only: sql_words_sep sql_words_sep_hd [of c b])
  moreover have "sql_words (map Ch h @ [Ch c]) = sql_words (map Ch h) @ sql_words [Ch c]"
    using g(2) by (simp only: sql_words_sep)
  ultimately show ?thesis using g by simp
qed

text \<open>\<open>spells sql ws\<close>: before a boundary the text is read on its own, as the words \<open>ws\<close>.\<close>

definition spells :: "string \<Rightarrow> sql_word list \<Rightarrow> bool" where
  "spells sql ws \<longleftrightarrow> (\<exists>toks. lexes sql toks \<and> sql_words toks = ws)"

lemma spellsI: "lexes sql toks \<Longrightarrow> sql_words toks = ws \<Longrightarrow> spells sql ws"
  unfolding spells_def by blast

lemma spells_plain: "plain_text a \<Longrightarrow> spells a (sql_words (map Ch a))"
  by (rule spellsI [OF lexes_plain]) simp_all

lemma spells_ident: "spells (QuoteIdentifier n) [WId n]"
  by (rule spellsI [OF lexes_ident]) simp

lemma spells_string: "spells (QuoteStringLiteral v) [WStr v]"
  by (rule spellsI [OF lexes_string]) simp

lemma spells_before:
  "spells b ws \<Longrightarrow> glue g \<Longrightarrow> sep_end g \<Longrightarrow> spells (g @ b) (sql_words (map Ch g) @ ws)"
  unfolding spells_def by (blast intro: lexes_glue sql_words_end)

lemma spells_after:
  "spells a ws \<Longrightarrow> glue_after g \<Longrightarrow> sep_start g \<Longrightarrow> spells (a @ g) (ws @ sql_words (map Ch g))"
  unfolding spells_def by (blast intro: lexes_glue_after sql_words_start)

lemma spells_append:
  assumes "spells a wa" "spells b wb" "glue_after g" "glue g" "sep_start g" "sep_end g"
  shows "spells (a @ g @ b) (wa @ sql_words (map Ch g) @ wb)"
proof -
  from assms obtain ta tb where t: "lexes a ta" "lexes b tb" "sql_words ta = wa" "sql_words tb = wb"
    unfolding spells_def by blast
  obtain c h where g: "g = c # h" "sep_char c" using assms(5) by (cases g) (auto simp: sep_start_def)
  have "sql_words (ta @ map Ch g @ tb) = sql_words ta @ sql_words (map Ch g @ tb)"
    using g by (simp only: list.map append_Cons sql_words_sep)
  then have "sql_words (ta @ map Ch g @ tb) = wa @ sql_words (map Ch g) @ wb"
    using t assms(6) by (simp only: sql_words_end)
  with lexes_append [OF t(1) assms(3,4) t(2)] show ?thesis by (rule spellsI)
qed

section \<open>Parentheses\<close>

fun depth :: "nat \<Rightarrow> sql_word list \<Rightarrow> nat option" where
  "depth d [] = Some d"
| "depth d (w # ws) =
     (if w = Wd ''('' then depth (Suc d) ws
      else if w = Wd '')'' then (case d of 0 \<Rightarrow> None | Suc e \<Rightarrow> depth e ws)
      else depth d ws)"

definition closed :: "sql_word list \<Rightarrow> bool" where
  "closed ws \<longleftrightarrow> depth 0 ws = Some 0"

definition enter :: "sql_word \<Rightarrow> nat \<Rightarrow> nat" where
  "enter w d = (if w = Wd ''('' then Suc d else if w = Wd '')'' then d - 1 else d)"

text \<open>The parts between the words \<open>p\<close> outside parentheses.\<close>

definition grow :: "sql_word \<Rightarrow> sql_word list list \<Rightarrow> sql_word list list" where
  "grow w parts = (w # hd parts) # tl parts"

fun splits :: "(sql_word \<Rightarrow> bool) \<Rightarrow> nat \<Rightarrow> sql_word list \<Rightarrow> sql_word list list" where
  "splits p d [] = [[]]"
| "splits p d (w # ws) =
     (if d = 0 \<and> p w then [] # splits p d ws else grow w (splits p (enter w d) ws))"

lemma splits_not_Nil [simp]: "splits p d ws \<noteq> []"
  by (cases ws) (auto simp: grow_def)

lemma splits_length_pos: "Suc 0 \<le> length (splits p d ws)"
  using splits_not_Nil [of p d ws] by (cases "splits p d ws") auto

lemma splits_length: "x \<in> set (splits p d ws) \<Longrightarrow> length x + length (splits p d ws) \<le> length ws + 1"
proof (induction ws arbitrary: d x)
  case (Cons w ws)
  have h: "length (hd (splits p e ws)) + length (splits p e ws) \<le> length ws + 1" for e
    by (rule Cons.IH) simp
  have t: "length y + length (splits p e ws) \<le> length ws + 1" if "y \<in> set (tl (splits p e ws))" for y e
    using that by (intro Cons.IH) (meson list.set_sel(2) splits_not_Nil)
  show ?case
  proof (cases "d = 0 \<and> p w")
    case True
    then show ?thesis
      using Cons.prems Cons.IH [of x d] h [of d] by auto
  next
    case False
    then show ?thesis
      using Cons.prems h [of "enter w d"] t [of x "enter w d"]
      by (auto simp: grow_def Suc_diff_Suc)
  qed
qed simp

lemma splits_part_shorter:
  "x \<in> set (splits p d ws) \<Longrightarrow> length (splits p d ws) \<noteq> 1 \<Longrightarrow> length x < length ws"
  using splits_length [of x p d ws] splits_length_pos [of p d ws] by auto

lemma splits_part_le: "x \<in> set (splits p d ws) \<Longrightarrow> length x \<le> length ws"
  using splits_length [of x p d ws] splits_length_pos [of p d ws] by linarith

lemma splits_pair:
  "length (splits p d ws) = 2 \<Longrightarrow> length (splits p d ws ! 0) < length ws"
  "length (splits p d ws) = 2 \<Longrightarrow> length (splits p d ws ! Suc 0) < length ws"
  by (rule splits_part_shorter [of _ p d]; simp)+

section \<open>Expressions\<close>

datatype sql_expr =
    SCol string
  | SStr string
  | SInt int
  | SDec bool nat nat
  | STrue
  | SFalse
  | SNull
  | SMark
  | SNot sql_expr
  | SAnd sql_expr sql_expr
  | SOr sql_expr sql_expr
  | SCmp string sql_expr sql_expr
  | SIsNull sql_expr
  | SIsNotNull sql_expr
  | SCall string "sql_expr list"
  | SCast sql_expr "sql_word list"

definition comparison_words :: "string list" where
  "comparison_words = [''='', ''<>'', ''<'', ''<='', ''>'', ''>='']"

definition is_cmp :: "sql_word \<Rightarrow> bool" where
  "is_cmp w \<longleftrightarrow> w \<in> Wd ` set comparison_words"

definition reserved :: "string list" where
  "reserved = [''AND'', ''OR'', ''NOT'', ''IS'', ''NULL'', ''TRUE'', ''FALSE'', ''AS'', ''CAST'']"

text \<open>A number: an integer, or a decimal as its digits and how many of them follow the point.\<close>

definition decimal :: "bool \<Rightarrow> string \<Rightarrow> sql_expr option" where
  "decimal neg w =
     (case split_first (CHR ''.'') w of
        None \<Rightarrow> None
      | Some (a, b) \<Rightarrow> if a \<noteq> [] \<and> list_all isdigit a \<and> list_all isdigit b
                       then Some (SDec neg (digits_val (a @ b)) (length b)) else None)"

definition number :: "bool \<Rightarrow> string \<Rightarrow> sql_expr option" where
  "number neg w =
     (if w \<noteq> [] \<and> list_all isdigit w
      then Some (SInt (if neg then - int (digits_val w) else int (digits_val w)))
      else decimal neg w)"

definition atom :: "sql_word list \<Rightarrow> sql_expr option" where
  "atom ws =
     (case ws of
        [WId n] \<Rightarrow> Some (SCol n)
      | [WStr s] \<Rightarrow> Some (SStr s)
      | [Wd w] \<Rightarrow> if w = ''TRUE'' then Some STrue else if w = ''FALSE'' then Some SFalse
                  else if w = ''NULL'' then Some SNull
                  else if w = ''?'' then Some SMark else number False w
      | [Wd m, Wd w] \<Rightarrow> if m = ''-'' then number True w else None
      | _ \<Rightarrow> None)"

text \<open>The inside of the parentheses that enclose a text.\<close>

definition inside :: "sql_word list \<Rightarrow> sql_word list option" where
  "inside ws =
     (case ws of
        w # r \<Rightarrow> if w = Wd ''('' \<and> r \<noteq> [] \<and> last r = Wd '')'' \<and> closed (butlast r)
                 then Some (butlast r) else None
      | [] \<Rightarrow> None)"

lemma inside_length: "inside ws = Some m \<Longrightarrow> length m < length ws"
  by (auto simp: inside_def split: list.splits if_splits)

text \<open>A call: the name before the parentheses and the text inside.\<close>

definition call_of :: "sql_word list \<Rightarrow> (string \<times> sql_word list) option" where
  "call_of ws = (case ws of Wd f # r \<Rightarrow> map_option (Pair f) (inside r) | _ \<Rightarrow> None)"

lemma call_of_length: "call_of ws = Some (f, m) \<Longrightarrow> length m < length ws"
  by (auto simp: call_of_def split: list.splits sql_word.splits dest!: inside_length)

lemma call_part_shorter: "call_of ws = Some (f, m) \<Longrightarrow> x \<in> set (splits p d m) \<Longrightarrow> length x < length ws"
  using splits_part_le [of x p d m] call_of_length [of ws f m] by simp

lemma call_pair_shorter:
  "call_of ws = Some (f, m) \<Longrightarrow> length (splits p d m) = 2 \<Longrightarrow> length (splits p d m ! 0) < length ws"
  using splits_pair(1) [of p d m] call_of_length [of ws f m] by simp

definition ends_with :: "sql_word list \<Rightarrow> sql_word list \<Rightarrow> sql_word list option" where
  "ends_with e ws =
     (if length e \<le> length ws \<and> drop (length ws - length e) ws = e
      then Some (take (length ws - length e) ws) else None)"

lemma ends_with_length: "ends_with e ws = Some a \<Longrightarrow> e \<noteq> [] \<Longrightarrow> length a < length ws"
  by (auto simp: ends_with_def split: if_splits simp flip: length_greater_0_conv)

lemma ends_with_append [simp]: "ends_with e (a @ e) = Some a"
  by (simp add: ends_with_def)

definition chain :: "(sql_expr \<Rightarrow> sql_expr \<Rightarrow> sql_expr) \<Rightarrow> sql_expr option list \<Rightarrow> sql_expr option" where
  "chain f ts = map_option (\<lambda>xs. foldl f (hd xs) (tl xs)) (those ts)"

lemma those_Some: "those (map f xs) = Some ys \<longleftrightarrow> list_all2 (\<lambda>x y. f x = Some y) xs ys"
proof (induction xs arbitrary: ys)
  case (Cons x xs)
  then show ?case by (cases ys) (auto split: option.split)
qed auto

text \<open>
  The reader. Its first argument is the level: 0 for OR, 1 for AND, 2 for NOT, 3 for the null tests,
  4 for the comparisons, 5 for the rest.
\<close>

abbreviation (input) sq_or where "sq_or \<equiv> (\<lambda>w. w = Wd ''OR'')"
abbreviation (input) sq_and where "sq_and \<equiv> (\<lambda>w. w = Wd ''AND'')"
abbreviation (input) sq_comma where "sq_comma \<equiv> (\<lambda>w. w = Wd '','')"
abbreviation (input) sq_as where "sq_as \<equiv> (\<lambda>w. w = Wd ''AS'')"

function sql_read :: "nat \<Rightarrow> sql_word list \<Rightarrow> sql_expr option" where
  "sql_read k ws =
     (if k = 0 then
        (if length (splits sq_or 0 ws) = 1 then sql_read 1 ws
         else chain SOr (map (sql_read 1) (splits sq_or 0 ws)))
      else if k = 1 then
        (if length (splits sq_and 0 ws) = 1 then sql_read 2 ws
         else chain SAnd (map (sql_read 2) (splits sq_and 0 ws)))
      else if k = 2 then
        (case ws of
           w # r \<Rightarrow> if w = Wd ''NOT'' then map_option SNot (sql_read 2 r) else sql_read 3 ws
         | [] \<Rightarrow> None)
      else if k = 3 then
        (case ends_with [Wd ''IS'', Wd ''NULL''] ws of
           Some a \<Rightarrow> map_option SIsNull (sql_read 3 a)
         | None \<Rightarrow>
             (case ends_with [Wd ''IS'', Wd ''NOT'', Wd ''NULL''] ws of
                Some a \<Rightarrow> map_option SIsNotNull (sql_read 3 a)
              | None \<Rightarrow> sql_read 4 ws))
      else if k = 4 then
        (if length (splits is_cmp 0 ws) = 1 then sql_read 5 ws
         else if length (splits is_cmp 0 ws) = 2 then
           (case (ws ! length (splits is_cmp 0 ws ! 0),
                  sql_read 3 (splits is_cmp 0 ws ! 0), sql_read 5 (splits is_cmp 0 ws ! 1)) of
              (Wd f, Some a, Some b) \<Rightarrow> Some (SCmp f a b)
            | _ \<Rightarrow> None)
         else None)
      else
        (case inside ws of
           Some m \<Rightarrow> sql_read 0 m
         | None \<Rightarrow>
             (case call_of ws of
                Some (f, m) \<Rightarrow>
                  if f = ''CAST'' then
                    (if length (splits sq_as 0 m) = 2
                     then map_option (\<lambda>x. SCast x (splits sq_as 0 m ! 1)) (sql_read 0 (splits sq_as 0 m ! 0))
                     else None)
                  else if f \<in> set reserved then None
                  else if m = [] then Some (SCall f [])
                  else map_option (SCall f) (those (map (sql_read 0) (splits sq_comma 0 m)))
              | None \<Rightarrow> atom ws)))"
  by pat_completeness auto
termination
  by (relation "measures [\<lambda>(k, ws). length ws, \<lambda>(k, ws). 6 - k]")
    (auto dest: splits_part_shorter inside_length call_of_length ends_with_length splits_pair
      call_part_shorter call_pair_shorter)

declare sql_read.simps [simp del]

definition sql_expression :: "string \<Rightarrow> sql_expr option" where
  "sql_expression sql = Option.bind (sql_lex sql) (\<lambda>ts. sql_read 0 (sql_words ts))"

end
