(* ===== verification/Sql_Reading.thy ===== *)
theory Sql_Reading
  imports Expression_Compiler Sql_Grammar
begin

text \<open>
  The text that \<open>Compile\<close> writes is read back, by the grammar of \<open>Sql_Grammar\<close>, as the expression
  it was written for. The lemmas follow the texts from the inside out: which words a piece has, at
  which level it is read, and that parentheses protect it.
\<close>

section \<open>Splitting\<close>

lemma splits_Cons_single:
  "splits p d (w # a) = [w # a] \<longleftrightarrow> \<not> (d = 0 \<and> p w) \<and> splits p (enter w d) a = [a]"
  using splits_not_Nil [of p "enter w d" a] by (cases "splits p (enter w d) a") (auto simp: grow_def)

lemma splits_append:
  assumes "depth d a = Some e" "splits p d a = [a]"
  shows "splits p d (a @ b) = (a @ hd (splits p e b)) # tl (splits p e b)"
  using assms
proof (induction a arbitrary: d)
  case (Cons w a)
  from Cons.prems(2) have top: "\<not> (d = 0 \<and> p w)" and sp: "splits p (enter w d) a = [a]"
    unfolding splits_Cons_single by blast+
  from Cons.prems(1) have "depth (enter w d) a = Some e"
    by (auto simp: enter_def split: if_splits nat.splits)
  from Cons.IH [OF this sp] top show ?case by (auto simp: grow_def)
qed simp

lemma splits_closed:
  "closed a \<Longrightarrow> splits p 0 a = [a] \<Longrightarrow> splits p 0 (a @ b) = (a @ hd (splits p 0 b)) # tl (splits p 0 b)"
  unfolding closed_def by (rule splits_append)

lemma depth_append: "depth d a = Some e \<Longrightarrow> depth d (a @ b) = depth e b"
  by (induction a arbitrary: d) (auto split: if_splits nat.splits)

lemma closed_append: "closed a \<Longrightarrow> closed b \<Longrightarrow> closed (a @ b)"
  by (simp add: closed_def depth_append)

lemma depth_inside: "depth d m = Some e \<Longrightarrow> depth (Suc d) m = Some (Suc e) \<and> splits p (Suc d) m = [m]"
proof (induction m arbitrary: d)
  case (Cons w m)
  then show ?case
    by (cases d) (auto simp: grow_def enter_def split: if_splits)
qed simp

lemma closed_parens: "closed m \<Longrightarrow> closed (Wd ''('' # m @ [Wd '')''])"
  using depth_inside [of 0 m 0] by (auto simp: closed_def depth_append)

lemma splits_parens:
  assumes "closed m" "\<not> p (Wd ''('')"
  shows "splits p 0 (Wd ''('' # m @ [Wd '')'']) = [Wd ''('' # m @ [Wd '')'']]"
proof -
  have d: "depth (Suc 0) m = Some (Suc 0)" "splits p (Suc 0) m = [m]"
    using depth_inside [of 0 m 0 p] assms(1) by (simp_all add: closed_def)
  have "splits p (Suc 0) (m @ [Wd '')'']) = [m @ [Wd '')'']]"
    using splits_append [OF d, of "[Wd '')'']"] by (simp add: grow_def enter_def)
  then show ?thesis using assms(2) by (simp add: grow_def enter_def)
qed

lemma splits_mono: "(\<And>w. p w \<Longrightarrow> q w) \<Longrightarrow> splits q d ws = [ws] \<Longrightarrow> splits p d ws = [ws]"
proof (induction ws arbitrary: d)
  case (Cons w ws)
  from Cons.prems(2) have "\<not> (d = 0 \<and> q w)" "splits q (enter w d) ws = [ws]"
    unfolding splits_Cons_single by blast+
  with Cons.IH [OF Cons.prems(1), of "enter w d"] Cons.prems(1) show ?case
    by (auto simp: grow_def)
qed simp

lemma splits_at:
  "closed a \<Longrightarrow> splits p 0 a = [a] \<Longrightarrow> p w \<Longrightarrow> splits p 0 (a @ w # b) = a # splits p 0 b"
  using splits_closed [of a p "w # b"] by simp

lemma splits_word: "\<not> p w \<Longrightarrow> w \<notin> {Wd ''('', Wd '')''} \<Longrightarrow> splits p 0 (w # ws) = grow w (splits p 0 ws)"
  by (simp add: enter_def)

section \<open>Pieces\<close>

text \<open>
  \<open>bare ws\<close>: the parentheses are closed and no connective, comma, AS or word that starts a clause
  stands outside them.
\<close>

definition weak :: "sql_word \<Rightarrow> bool" where
  "weak w \<longleftrightarrow> w \<in> {Wd ''OR'', Wd ''AND'', Wd '','', Wd ''AS'',
     Wd ''FROM'', Wd ''WHERE'', Wd ''ORDER'', Wd ''LIMIT'', Wd ''OFFSET'',
     Wd ''VALUES'', Wd ''SET'', Wd ''RETURNING''}"

definition bare :: "sql_word list \<Rightarrow> bool" where
  "bare ws \<longleftrightarrow> ws \<noteq> [] \<and> hd ws \<noteq> Wd ''NOT'' \<and> closed ws \<and> splits weak 0 ws = [ws]"

lemma bare_splits:
  assumes "bare ws"
  shows "splits (\<lambda>w. w = Wd ''OR'') 0 ws = [ws]" "splits (\<lambda>w. w = Wd ''AND'') 0 ws = [ws]"
    "splits (\<lambda>w. w = Wd '','') 0 ws = [ws]" "splits (\<lambda>w. w = Wd ''AS'') 0 ws = [ws]"
  using assms splits_mono [of _ weak 0 ws] by (auto simp: bare_def weak_def)

lemma bare_closed: "bare ws \<Longrightarrow> closed ws"
  by (simp add: bare_def)

text \<open>A piece that is read at the level of the null tests, and one that is an operand of its own.\<close>

definition sql_reads :: "sql_word list \<Rightarrow> sql_expr \<Rightarrow> bool" where
  "sql_reads ws t \<longleftrightarrow> bare ws \<and> sql_read 3 ws = Some t"

definition prim :: "sql_word list \<Rightarrow> sql_expr \<Rightarrow> bool" where
  "prim ws t \<longleftrightarrow> bare ws \<and> splits is_cmp 0 ws = [ws] \<and> (last ws = Wd ''NULL'' \<longrightarrow> ws = [Wd ''NULL''])
     \<and> sql_read 5 ws = Some t"

lemma sql_reads_connective:
  assumes "sql_reads ws t"
  shows "sql_read 2 ws = Some t" "sql_read 1 ws = Some t" "sql_read 0 ws = Some t"
proof -
  show 2: "sql_read 2 ws = Some t"
    using assms by (subst sql_read.simps) (auto simp: sql_reads_def bare_def split: list.split)
  show 1: "sql_read 1 ws = Some t"
    using assms 2 bare_splits by (subst sql_read.simps) (simp add: sql_reads_def)
  show "sql_read 0 ws = Some t"
    using assms 1 bare_splits by (subst sql_read.simps) (simp add: sql_reads_def)
qed

lemma prim_reads:
  assumes "prim ws t"
  shows "sql_reads ws t"
proof -
  have l4: "sql_read 4 ws = Some t"
    using assms by (subst sql_read.simps) (simp add: prim_def)
  have "ends_with [Wd ''IS'', Wd ''NULL''] ws = None" "ends_with [Wd ''IS'', Wd ''NOT'', Wd ''NULL''] ws = None"
    using assms by (auto simp: prim_def ends_with_def last_drop dest!: arg_cong [of _ _ last])
  with l4 have "sql_read 3 ws = Some t"
    by (subst sql_read.simps) simp
  with assms show ?thesis by (simp add: sql_reads_def prim_def)
qed

lemma sql_reads_ne: "sql_reads ws t \<Longrightarrow> ws \<noteq> []"
  by (auto simp: sql_reads_def bare_def)

lemma bare_append:
  assumes "bare a" "closed b" "splits weak 0 b = [b]"
  shows "bare (a @ b)"
  using assms by (auto simp: bare_def closed_append splits_closed)

lemma sql_reads_is_null:
  assumes "sql_reads a t"
  shows "sql_reads (a @ [Wd ''IS'', Wd ''NULL'']) (SIsNull t)"
    "sql_reads (a @ [Wd ''IS'', Wd ''NOT'', Wd ''NULL'']) (SIsNotNull t)"
proof -
  have b: "bare (a @ [Wd ''IS'', Wd ''NULL''])" "bare (a @ [Wd ''IS'', Wd ''NOT'', Wd ''NULL''])"
    using assms by (auto simp: sql_reads_def weak_def closed_def grow_def enter_def intro!: bare_append)
  have "sql_read 3 (a @ [Wd ''IS'', Wd ''NULL'']) = Some (SIsNull t)"
    using assms by (subst sql_read.simps) (simp add: sql_reads_def)
  with b show "sql_reads (a @ [Wd ''IS'', Wd ''NULL'']) (SIsNull t)" by (simp add: sql_reads_def)
  have "ends_with [Wd ''IS'', Wd ''NULL''] (a @ [Wd ''IS'', Wd ''NOT'', Wd ''NULL'']) = None"
    by (simp add: ends_with_def)
  then have "sql_read 3 (a @ [Wd ''IS'', Wd ''NOT'', Wd ''NULL'']) = Some (SIsNotNull t)"
    using assms by (subst sql_read.simps) (simp add: sql_reads_def)
  with b show "sql_reads (a @ [Wd ''IS'', Wd ''NOT'', Wd ''NULL'']) (SIsNotNull t)" by (simp add: sql_reads_def)
qed

text \<open>A comparison, whose operands have no comparison outside parentheses.\<close>

lemma ends_with_after_op:
  assumes "prim b t" "\<not> w \<in> {Wd ''IS'', Wd ''NOT''}"
  shows "ends_with [Wd ''IS'', Wd ''NULL''] (a @ w # b) = None"
    "ends_with [Wd ''IS'', Wd ''NOT'', Wd ''NULL''] (a @ w # b) = None"
proof -
  have b: "b \<noteq> []" "last b = Wd ''NULL'' \<Longrightarrow> b = [Wd ''NULL'']"
    using assms(1) by (auto simp: prim_def bare_def)
  have no: "a @ w # b \<noteq> x @ e" if e: "e = [Wd ''IS'', Wd ''NULL''] \<or> e = [Wd ''IS'', Wd ''NOT'', Wd ''NULL'']" for x e
  proof
    assume eq: "a @ w # b = x @ e"
    then have "last b = last e" using b(1) e by (metis last_appendR list.distinct(1) last_ConsR append_is_Nil_conv)
    with b e have "b = [Wd ''NULL'']" by auto
    with eq assms(2) e show False by (auto simp: append_eq_append_conv2 Cons_eq_append_conv append_eq_Cons_conv)
  qed
  have "ends_with e (a @ w # b) = None" if "e = [Wd ''IS'', Wd ''NULL''] \<or> e = [Wd ''IS'', Wd ''NOT'', Wd ''NULL'']" for e
    using no [OF that] by (metis append_take_drop_id ends_with_def)
  then show "ends_with [Wd ''IS'', Wd ''NULL''] (a @ w # b) = None"
    "ends_with [Wd ''IS'', Wd ''NOT'', Wd ''NULL''] (a @ w # b) = None" by blast+
qed

lemma sql_reads_comparison:
  assumes a: "sql_reads a t" "splits is_cmp 0 a = [a]" and b: "prim b u" and f: "f \<in> set comparison_words"
  shows "sql_reads (a @ Wd f # b) (SCmp f t u)"
proof -
  have cmp: "is_cmp (Wd f)" using f by (simp add: is_cmp_def)
  have w: "\<not> weak (Wd f)" "Wd f \<notin> {Wd ''('', Wd '')''}" "Wd f \<notin> {Wd ''IS'', Wd ''NOT''}"
    using f by (auto simp: comparison_words_def weak_def)
  have s: "splits is_cmp 0 (a @ Wd f # b) = [a, b]"
    using a b cmp by (simp add: sql_reads_def bare_def splits_at prim_def)
  have "sql_read 4 (a @ Wd f # b) = Some (SCmp f t u)"
    using a b by (subst sql_read.simps) (simp add: s sql_reads_def prim_def)
  then have l3: "sql_read 3 (a @ Wd f # b) = Some (SCmp f t u)"
    using ends_with_after_op [OF b w(3)] by (subst sql_read.simps) simp
  have "closed (Wd f # b)" "splits weak 0 (Wd f # b) = [Wd f # b]"
    using b w by (auto simp: prim_def bare_def closed_def splits_word grow_def enter_def)
  with a have "bare (a @ Wd f # b)" by (intro bare_append) (simp_all add: sql_reads_def)
  with l3 show ?thesis by (simp add: sql_reads_def)
qed

text \<open>What stands in parentheses is an operand.\<close>

lemma bare_parens: "closed m \<Longrightarrow> bare (Wd ''('' # m @ [Wd '')''])"
  by (simp add: bare_def closed_parens splits_parens weak_def del: splits.simps)

lemma is_cmp_punct [simp]: "\<not> is_cmp (Wd ''('')" "\<not> is_cmp (Wd '')'')" "\<not> is_cmp (WId v)" "\<not> is_cmp (WStr v)"
  by (auto simp: is_cmp_def comparison_words_def)

lemma prim_parens:
  assumes "closed m" "sql_read 0 m = Some t"
  shows "prim (Wd ''('' # m @ [Wd '')'']) t"
proof -
  have "inside (Wd ''('' # m @ [Wd '')'']) = Some m" using assms(1) by (simp add: inside_def)
  then have "sql_read 5 (Wd ''('' # m @ [Wd '')'']) = Some t" using assms(2) by (subst sql_read.simps) simp
  then show ?thesis
    using assms(1) by (simp add: prim_def bare_parens splits_parens del: splits.simps)
qed

lemma prim_not:
  assumes "sql_reads a t"
  shows "prim (Wd ''('' # (Wd ''NOT'' # a) @ [Wd '')'']) (SNot t)"
proof (rule prim_parens)
  have c: "closed a" "splits weak 0 a = [a]" using assms by (simp_all add: sql_reads_def bare_def)
  then show "closed (Wd ''NOT'' # a)" by (simp add: closed_def)
  have "splits weak 0 (Wd ''NOT'' # a) = [Wd ''NOT'' # a]" using c by (simp add: weak_def enter_def grow_def)
  then have s: "splits p 0 (Wd ''NOT'' # a) = [Wd ''NOT'' # a]" if "\<And>w. p w \<Longrightarrow> weak w" for p
    using splits_mono [of p weak] that by blast
  have l2: "sql_read 2 (Wd ''NOT'' # a) = Some (SNot t)"
    using sql_reads_connective [OF assms] by (subst sql_read.simps) simp
  have l1: "sql_read 1 (Wd ''NOT'' # a) = Some (SNot t)"
    using l2 by (subst sql_read.simps) (simp add: s weak_def del: splits.simps)
  then show "sql_read 0 (Wd ''NOT'' # a) = Some (SNot t)"
    by (subst sql_read.simps) (simp add: s weak_def del: splits.simps)
qed

lemma prim_and:
  assumes "sql_reads a t" "sql_reads b u"
  shows "prim (Wd ''('' # (a @ Wd ''AND'' # b) @ [Wd '')'']) (SAnd t u)"
proof (rule prim_parens)
  have c: "closed a" "closed b" "bare a" "bare b" using assms by (simp_all add: sql_reads_def bare_def)
  then show "closed (a @ Wd ''AND'' # b)" by (auto simp: closed_def depth_append)
  have "splits (\<lambda>w. w = Wd ''AND'') 0 (a @ Wd ''AND'' # b) = [a, b]"
    using c by (simp add: splits_at bare_splits)
  then have l1: "sql_read 1 (a @ Wd ''AND'' # b) = Some (SAnd t u)"
    using sql_reads_connective [OF assms(1)] sql_reads_connective [OF assms(2)]
    by (subst sql_read.simps) (simp add: chain_def)
  have "splits (\<lambda>w. w = Wd ''OR'') 0 (a @ Wd ''AND'' # b) = [a @ Wd ''AND'' # b]"
    using c by (simp add: splits_closed bare_splits enter_def grow_def)
  with l1 show "sql_read 0 (a @ Wd ''AND'' # b) = Some (SAnd t u)"
    by (subst sql_read.simps) simp
qed

lemma prim_or:
  assumes "sql_reads a t" "sql_reads b u"
  shows "prim (Wd ''('' # (a @ Wd ''OR'' # b) @ [Wd '')'']) (SOr t u)"
proof (rule prim_parens)
  have c: "closed a" "closed b" "bare a" "bare b" using assms by (simp_all add: sql_reads_def bare_def)
  then show "closed (a @ Wd ''OR'' # b)" by (auto simp: closed_def depth_append)
  have "splits (\<lambda>w. w = Wd ''OR'') 0 (a @ Wd ''OR'' # b) = [a, b]"
    using c by (simp add: splits_at bare_splits)
  then show "sql_read 0 (a @ Wd ''OR'' # b) = Some (SOr t u)"
    using sql_reads_connective [OF assms(1)] sql_reads_connective [OF assms(2)]
    by (subst sql_read.simps) (simp add: chain_def)
qed

section \<open>Literals\<close>

lemma sql_words_name: "w \<noteq> [] \<Longrightarrow> list_all name_char w \<Longrightarrow> sql_words (map Ch w) = [Wd w]"
proof (induction w)
  case (Cons c w)
  have c: "c \<noteq> CHR '' ''" using Cons.prems(2) sep_char_alone [of "CHR '' ''"] by (auto simp: sep_char_def)
  show ?case
  proof (cases w)
    case Nil
    with c show ?thesis by simp
  next
    case (Cons d v)
    with c Cons.prems Cons.IH show ?thesis by (auto simp: put_char_def)
  qed
qed simp

definition quiet :: "sql_word \<Rightarrow> bool" where
  "quiet w \<longleftrightarrow> w \<notin> {Wd ''('', Wd '')'', Wd ''NOT''} \<and> \<not> weak w \<and> \<not> is_cmp w"

lemma quiet_simps [simp]:
  "quiet (WId v)" "quiet (WStr v)" "quiet (Wd ''TRUE'')" "quiet (Wd ''FALSE'')" "quiet (Wd ''NULL'')" "quiet (Wd ''-'')"
  by (auto simp: quiet_def weak_def is_cmp_def comparison_words_def)

lemma quiet_number: "isdigit (hd w) \<Longrightarrow> w \<noteq> [] \<Longrightarrow> quiet (Wd w)"
  by (auto simp: quiet_def weak_def is_cmp_def comparison_words_def isdigit_def char_class)

lemma prim_word:
  assumes "atom [x] = Some t" "quiet x"
  shows "prim [x] t"
proof -
  have "inside [x] = None" "call_of [x] = None"
    using assms(2) by (auto simp: inside_def call_of_def quiet_def split: sql_word.split)
  then have "sql_read 5 [x] = Some t" using assms(1) by (subst sql_read.simps) simp
  then show ?thesis using assms(2)
    by (auto simp: prim_def bare_def quiet_def closed_def grow_def enter_def)
qed

lemma prim_minus:
  assumes "number True w = Some t" "isdigit (hd w)" "w \<noteq> []"
  shows "prim [Wd ''-'', Wd w] t"
proof -
  have q: "quiet (Wd w)" using assms(2,3) by (rule quiet_number)
  then have "inside [Wd ''-'', Wd w] = None" "call_of [Wd ''-'', Wd w] = None"
    by (auto simp: inside_def call_of_def quiet_def)
  then have "sql_read 5 [Wd ''-'', Wd w] = Some t"
    using assms(1) by (subst sql_read.simps) (simp add: atom_def)
  moreover have "w \<noteq> ''NULL''" using assms(2) by (auto simp: isdigit_def char_class)
  moreover have "quiet (Wd ''-'')" by simp
  ultimately show ?thesis using q unfolding quiet_def
    by (auto simp: prim_def bare_def closed_def grow_def enter_def)
qed

lemma prim_number:
  assumes "number neg w = Some t" "isdigit (hd w)" "w \<noteq> []"
  shows "prim ((if neg then [Wd ''-''] else []) @ [Wd w]) t"
proof (cases neg)
  case True
  with assms prim_minus show ?thesis by simp
next
  case False
  have "w \<notin> {''TRUE'', ''FALSE'', ''NULL'', ''?''}" using assms(2) by (auto simp: isdigit_def char_class)
  with assms False show ?thesis using quiet_number by (auto simp: atom_def intro: prim_word)
qed

lemma spells_number:
  assumes "w \<noteq> []" "list_all (\<lambda>c. isdigit c \<or> c = CHR ''.'') w"
  shows "spells ((if neg then ''-'' else []) @ w) ((if neg then [Wd ''-''] else []) @ [Wd w])"
proof -
  have c: "name_char c \<and> plain_char c" if "isdigit c \<or> c = CHR ''.''" for c
    using that by (auto simp: name_char_def plain_char_def isalnum_def)
  then have n: "list_all name_char w" and p: "plain_text w"
    using assms(2) unfolding plain_text_def list_all_iff by blast+
  have w: "sql_words (map Ch w) = [Wd w]" using assms(1) n by (rule sql_words_name)
  have "\<not> joins (CHR ''-'') (map Ch w)"
    by (cases w) (auto simp: name_char_def op_char_def isalnum_def char_class)
  then have "sql_words (map Ch (CHR ''-'' # w)) = [Wd ''-'', Wd w]" using w by simp
  with w show ?thesis
    using spells_plain [OF p] spellsI [OF lexes_negative [OF p assms(1)]] by auto
qed

lemma digits_val_append: "digits_val (a @ b) = digits_val a * 10 ^ length b + digits_val b"
  by (induction b rule: rev_induct) (simp_all add: algebra_simps flip: append_assoc)

lemma digit_step: "(n div (10 * k)) * 10 + n div k mod 10 = (n div k :: nat)"
  by (simp add: div_mult2_eq mult.commute [of 10 k])

lemma digits_val_pad6: "n < 1000000 \<Longrightarrow> digits_val (pad6 n) = n"
proof -
  assume n: "n < 1000000"
  have d: "digit_val (digit_char (n div 10 ^ k mod 10)) = n div 10 ^ k mod 10" for k by simp
  have "digits_val (pad6 n) = ((((n div 100000 mod 10 * 10 + n div 10000 mod 10) * 10 + n div 1000 mod 10) * 10
      + n div 100 mod 10) * 10 + n div 10 mod 10) * 10 + n mod 10"
    using d [of 0] d [of 1] d [of 2] d [of 3] d [of 4] d [of 5] by (simp add: pad6_def digits_val_def)
  also have "n div 100000 mod 10 = n div 100000" using n by simp
  also have "((((n div 100000 * 10 + n div 10000 mod 10) * 10 + n div 1000 mod 10) * 10
      + n div 100 mod 10) * 10 + n div 10 mod 10) * 10 + n mod 10 = n"
    using digit_step [of n 10000] digit_step [of n 1000] digit_step [of n 100] digit_step [of n 10]
      digit_step [of n 1] by simp
  finally show ?thesis .
qed

definition negative :: "double \<Rightarrow> bool" where
  "negative d = (case d of Fin neg _ _ \<Rightarrow> neg | NaN neg \<Rightarrow> neg | Infty neg \<Rightarrow> neg)"

definition millionths :: "double \<Rightarrow> nat" where
  "millionths d = (case d of Fin _ m e \<Rightarrow> fixed6 m e | _ \<Rightarrow> 0)"

lemma sql_reads_real_literal:
  assumes "is_finite d"
  shows "\<exists>ws. spells (real_literal d) ws \<and> prim ws (SDec (negative d) (millionths d) 6)"
proof -
  from assms obtain neg m e where d: "d = Fin neg m e" by (cases d) auto
  define N where "N = fixed6 m e"
  define w where "w = nat_to_string (N div 1000000) @ ''.'' @ pad6 (N mod 1000000)"
  have s: "to_string_double d = (if neg then ''-'' else []) @ w"
    by (simp only: d to_string_double.simps w_def N_def) simp
  have lit: "real_literal d = (if neg then ''-'' else []) @ w"
    unfolding real_literal_def s by (simp add: w_def)
  have dig: "list_all isdigit (nat_to_string k)" "list_all isdigit (pad6 k)" for k
    by (auto simp: list_all_iff dest: nat_to_string_digits pad6_digits)
  have hd: "isdigit (hd w)"
    using nat_to_string_digits [of "hd (nat_to_string (N div 1000000))" "N div 1000000"] by (simp add: w_def)
  have w: "w \<noteq> []" "list_all (\<lambda>c. isdigit c \<or> c = CHR ''.'') w"
    using dig by (auto simp: w_def list_all_iff)
  have nd: "\<not> isdigit (CHR ''.'')" by (simp add: isdigit_def char_class)
  then have "CHR ''.'' \<notin> set (nat_to_string k)" for k using nat_to_string_digits by blast
  then have sp: "split_first (CHR ''.'') w = Some (nat_to_string (N div 1000000), pad6 (N mod 1000000))"
    by (simp add: w_def)
  have "digits_val (nat_to_string (N div 1000000) @ pad6 (N mod 1000000)) = N"
    by (simp add: digits_val_append digits_val_pad6)
  then have dec: "decimal neg w = Some (SDec neg N 6)"
    using dig by (simp add: decimal_def sp)
  have "\<not> list_all isdigit w" using nd by (simp add: w_def)
  with dec have "number neg w = Some (SDec neg N 6)" by (simp add: number_def)
  from prim_number [OF this hd w(1)] spells_number [OF w, of neg] lit show ?thesis
    by (auto simp: negative_def millionths_def d N_def)
qed

lemma sql_reads_to_string: "\<exists>ws. spells (to_string i) ws \<and> prim ws (SInt i)"
proof -
  define w where "w = nat_to_string (nat \<bar>i\<bar>)"
  have lit: "to_string i = (if i < 0 then ''-'' else []) @ w"
    by (auto simp: to_string_def w_def)
  have dig: "list_all isdigit w" "isdigit (hd w)" "w \<noteq> []"
    using nat_to_string_digits [of _ "nat \<bar>i\<bar>"] by (auto simp: w_def list_all_iff)
  have "number (i < 0) w = Some (SInt i)"
    using dig by (simp add: number_def w_def)
  from prim_number [OF this dig(2,3)] spells_number [of w "i < 0"] dig lit show ?thesis
    by (auto simp: list_all_iff)
qed

end
