(* ===== verification/Compiled_Filter.thy ===== *)
theory Compiled_Filter
  imports Sql_Reading
begin

text \<open>
  The SQL expression a filter stands for, \<open>sql_of\<close>, and the proof that the text of \<open>Compile\<close> is
  read as that expression. \<open>flat\<close> excludes what the code writes without parentheses although it
  needs them: a comparison as an operand of a comparison, and a null test on its right.
\<close>

section \<open>Casts and calls\<close>

definition type_words :: "string \<Rightarrow> sql_word list" where
  "type_words ty = sql_words (map Ch ty)"

definition sound_type :: "string \<Rightarrow> bool" where
  "sound_type ty \<longleftrightarrow> plain_text ty \<and> closed (type_words ty)
     \<and> splits (\<lambda>w. w = Wd ''AS'') 0 (type_words ty) = [type_words ty]"

lemma prim_call_shape:
  assumes "quiet (Wd f)" "closed m" "sql_read 5 (Wd f # Wd ''('' # m @ [Wd '')'']) = Some t"
  shows "prim (Wd f # Wd ''('' # m @ [Wd '')'']) t"
proof -
  have s: "splits p 0 (Wd ''('' # m @ [Wd '')'']) = [Wd ''('' # m @ [Wd '')'']]" if "\<not> p (Wd ''('')" for p
    using assms(2) that by (rule splits_parens)
  have q: "\<not> weak (Wd f)" "\<not> is_cmp (Wd f)" "Wd f \<notin> {Wd ''('', Wd '')'', Wd ''NOT''}"
    using assms(1) by (auto simp: quiet_def)
  have "closed (Wd f # Wd ''('' # m @ [Wd '')''])"
    using closed_parens [OF assms(2)] q(3) by (simp add: closed_def)
  moreover have "splits weak 0 (Wd f # Wd ''('' # m @ [Wd '')'']) = [Wd f # Wd ''('' # m @ [Wd '')'']]"
    "splits is_cmp 0 (Wd f # Wd ''('' # m @ [Wd '')'']) = [Wd f # Wd ''('' # m @ [Wd '')'']]"
    using q s [of weak] s [of is_cmp] by (simp_all add: splits_word grow_def weak_def del: splits.simps)
  ultimately show ?thesis
    using assms(3) q(3) by (simp add: prim_def bare_def del: splits.simps)
qed

lemma call_of_call: "f \<noteq> ''('' \<Longrightarrow> closed m \<Longrightarrow> inside (Wd f # Wd ''('' # m @ [Wd '')'']) = None
    \<and> call_of (Wd f # Wd ''('' # m @ [Wd '')'']) = Some (f, m)"
  by (simp add: inside_def call_of_def)

lemma prim_cast:
  assumes "sound_type ty" "atom [x] = Some t" "quiet x" "x \<noteq> Wd ''AS''"
  shows "prim (Wd ''CAST'' # Wd ''('' # ([x, Wd ''AS''] @ type_words ty) @ [Wd '')'']) (SCast t (type_words ty))"
proof (rule prim_call_shape)
  let ?m = "[x, Wd ''AS''] @ type_words ty"
  have x: "x \<notin> {Wd ''('', Wd '')''}" using assms(3) by (auto simp: quiet_def)
  then show c: "closed ?m" using assms(1) by (simp add: sound_type_def closed_def)
  have "splits (\<lambda>w. w = Wd ''AS'') 0 ?m = [[x], type_words ty]"
    using assms(1,4) x by (simp add: sound_type_def grow_def enter_def)
  moreover have "sql_read 0 [x] = Some t"
    using sql_reads_connective(3) [OF prim_reads [OF prim_word [OF assms(2,3)]]] .
  ultimately show "sql_read 5 (Wd ''CAST'' # Wd ''('' # ?m @ [Wd '')'']) = Some (SCast t (type_words ty))"
    using call_of_call [OF _ c, of "''CAST''"] by (subst sql_read.simps) simp
qed (simp add: quiet_def weak_def is_cmp_def comparison_words_def)

lemma type_tail:
  assumes "sound_type ty"
  shows "sql_words (map Ch ('' AS '' @ ty @ '')'')) = Wd ''AS'' # type_words ty @ [Wd '')'']"
    "plain_text ('' AS '' @ ty @ '')'')"
proof -
  have g: "sep_end '' AS ''" "sep_start '')''" by (simp_all add: sep_start_def sep_end_def sep_char_def)
  have "sql_words (map Ch ('' AS '' @ ty @ '')'')) = sql_words (map Ch '' AS '') @ sql_words (map Ch ty @ map Ch '')'')"
    by (simp only: sql_words_end [OF g(1)] map_append)
  also have "sql_words (map Ch ty @ map Ch '')'') = type_words ty @ sql_words (map Ch '')'')"
    by (simp only: sql_words_start [OF g(2)] type_words_def)
  also have "sql_words (map Ch '' AS '') = [Wd ''AS'']" by code_simp
  also have "sql_words (map Ch '')'') = [Wd '')'']" by code_simp
  finally show "sql_words (map Ch ('' AS '' @ ty @ '')'')) = Wd ''AS'' # type_words ty @ [Wd '')'']" by simp
  show "plain_text ('' AS '' @ ty @ '')'')" using assms by (simp add: sound_type_def plain_char_def)
qed

lemma sql_reads_cast:
  assumes "sound_type ty"
  shows "\<exists>ws. spells (''CAST('' @ QuoteStringLiteral s @ '' AS '' @ ty @ '')'') ws
    \<and> prim ws (SCast (SStr s) (type_words ty))"
proof -
  let ?g = "'' AS '' @ ty @ '')''"
  have g: "glue_after ?g" "sep_start ?g" "glue ''CAST(''" "sep_end ''CAST(''"
    using type_tail(2) [OF assms]
    by (simp_all add: glue_def glue_after_def plain_char_def boundary_char_def word_char_def
        sep_start_def sep_end_def sep_char_def)
  have spelt: "spells (''CAST('' @ (QuoteStringLiteral s @ ?g)) (sql_words (map Ch ''CAST('') @ ([WStr s] @ sql_words (map Ch ?g)))"
    by (intro spells_before spells_after spells_string g)
  have pre: "sql_words (map Ch ''CAST('') = [Wd ''CAST'', Wd ''('']" by code_simp
  from spelt [unfolded type_tail(1) [OF assms] pre]
  have "spells (''CAST('' @ (QuoteStringLiteral s @ ?g)) (Wd ''CAST'' # Wd ''('' # ([WStr s, Wd ''AS''] @ type_words ty) @ [Wd '')''])"
    by (simp only: append_Cons append_Nil append_assoc)
  moreover have "atom [WStr s] = Some (SStr s)" by (simp add: atom_def)
  ultimately show ?thesis using prim_cast [OF assms, of "WStr s" "SStr s"] by auto
qed

text \<open>Pieces with a word between them: the comma of a list, the AND of a chain.\<close>

fun between :: "string \<Rightarrow> sql_word list list \<Rightarrow> sql_word list" where
  "between sep [] = []"
| "between sep [ws] = ws"
| "between sep (ws # wss) = ws @ Wd sep # between sep wss"

abbreviation commas where "commas \<equiv> between '',''"

lemma spells_between:
  assumes "list_all2 spells xs wss" "xs \<noteq> []"
    and g: "glue_after g" "glue g" "sep_start g" "sep_end g" "sql_words (map Ch g) = [Wd sep]"
  shows "spells (join_with g xs) (between sep wss)"
  using assms(1,2)
proof (induction xs wss rule: list_all2_induct)
  case (Cons x xs ws wss)
  show ?case
  proof (cases "xs = []")
    case True
    with Cons show ?thesis by auto
  next
    case False
    with spells_append [OF Cons.hyps(1) Cons.IH [OF False] g(1-4)] g(5) Cons.hyps(2) show ?thesis
      by (cases xs; cases wss) auto
  qed
qed simp

lemma spells_commas:
  "list_all2 spells xs wss \<Longrightarrow> xs \<noteq> [] \<Longrightarrow> spells (join_with '', '' xs) (commas wss)"
proof (rule spells_between)
  show "sql_words (map Ch '', '') = [Wd '','']" by code_simp
qed (simp_all add: glue_def glue_after_def plain_char_def boundary_char_def word_char_def
      sep_start_def sep_end_def sep_char_def)

lemma between_split:
  assumes "list_all bare wss" "wss \<noteq> []" "sep \<in> {'','', ''AND''}"
  shows "closed (between sep wss) \<and> splits (\<lambda>w. w = Wd sep) 0 (between sep wss) = wss"
  using assms
proof (induction sep wss rule: between.induct)
  case (3 sep' ws v wss)
  then show ?case
    by (auto simp: splits_at bare_splits bare_closed depth_append closed_def bare_def)
qed (auto simp: bare_closed bare_splits)

lemmas commas_split = between_split [of _ "'',''", simplified]

lemma between_free:
  assumes "list_all bare wss" "wss \<noteq> []" "\<And>w. p w \<Longrightarrow> weak w" "\<not> p (Wd sep)" "sep \<in> {'','', ''AND''}"
  shows "splits p 0 (between sep wss) = [between sep wss]"
  using assms
proof (induction sep wss rule: between.induct)
  case (2 sep' ws)
  then show ?case using splits_mono [of p weak 0 ws] by (simp add: bare_def)
next
  case (3 sep' ws v wss)
  then have "splits p 0 ws = [ws]" using splits_mono [of p weak 0 ws] by (simp add: bare_def)
  with 3 show ?case by (auto simp: splits_closed bare_closed grow_def enter_def)
qed simp

lemma commas_nonempty: "list_all bare wss \<Longrightarrow> wss \<noteq> [] \<Longrightarrow> commas wss \<noteq> []"
  by (cases "('','', wss)" rule: between.cases) (auto simp: bare_def)

definition function_name :: "string \<Rightarrow> bool" where
  "function_name f \<longleftrightarrow> glue (f @ ''('') \<and> sql_words (map Ch (f @ ''('')) = [Wd f, Wd ''('']
     \<and> quiet (Wd f) \<and> f \<notin> set reserved"

lemma function_names: "list_all (\<lambda>(a, f, lo, hi). function_name f) GetFunctionMap"
  unfolding GetFunctionMap_def function_name_def glue_def plain_text_def word_char_def plain_char_def quiet_def weak_def
  by code_simp

lemma sql_reads_call:
  assumes "function_name f" "list_all2 spells xs wss" "list_all2 sql_reads wss ts" "xs \<noteq> []"
  shows "\<exists>ws. spells (f @ ''('' @ join_with '', '' xs @ '')'') ws \<and> prim ws (SCall f ts)"
proof -
  let ?m = "commas wss"
  have ne: "wss \<noteq> []" using assms(2,4) by auto
  have bare: "list_all bare wss"
    using assms(3) by (auto simp: list_all_iff sql_reads_def list_all2_conv_all_nth in_set_conv_nth)
  have g: "glue_after '')''" "sep_start '')''" "sep_end (f @ ''('')"
    by (simp_all add: glue_after_def plain_char_def boundary_char_def sep_start_def sep_end_def sep_char_def)
  have "sql_words (map Ch '')'') = [Wd '')'']" by code_simp
  with spells_before [OF spells_after [OF spells_commas [OF assms(2,4)] g(1,2)] _ g(3)] assms(1)
  have sp: "spells ((f @ ''('') @ (join_with '', '' xs @ '')'')) (Wd f # Wd ''('' # ?m @ [Wd '')''])"
    by (simp add: function_name_def)
  have "map (sql_read 0) wss = map Some ts"
    using assms(3) by (induction rule: list_all2_induct) (simp_all add: sql_reads_connective)
  moreover have "those (map Some ts) = Some ts" by (induction ts) auto
  ultimately have args: "those (map (sql_read 0) (splits (\<lambda>w. w = Wd '','') 0 ?m)) = Some ts"
    using commas_split [OF bare ne] by simp
  have f: "f \<notin> set reserved" "f \<noteq> ''CAST''" "f \<noteq> ''(''" "quiet (Wd f)"
    using assms(1) by (auto simp: function_name_def reserved_def quiet_def)
  have "sql_read 5 (Wd f # Wd ''('' # ?m @ [Wd '')'']) = Some (SCall f ts)"
    using call_of_call [OF f(3)] commas_split [OF bare ne] args f(1,2) commas_nonempty [OF bare ne]
    by (subst sql_read.simps) (simp del: splits.simps)
  from prim_call_shape [OF f(4) _ this] commas_split [OF bare ne] sp show ?thesis by auto
qed

lemma sql_reads_now: "\<exists>ws. spells ''now()'' ws \<and> prim ws (SCall ''now'' [])"
proof -
  have "spells ''now()'' (sql_words (map Ch ''now()''))"
    by (rule spells_plain) (simp add: plain_char_def)
  moreover have "sql_words (map Ch ''now()'') = Wd ''now'' # Wd ''('' # [] @ [Wd '')'']" by code_simp
  moreover have "prim (Wd ''now'' # Wd ''('' # [] @ [Wd '')'']) (SCall ''now'' [])"
  proof (rule prim_call_shape)
    show "quiet (Wd ''now'')" by (simp add: quiet_def weak_def is_cmp_def comparison_words_def)
    show "sql_read 5 (Wd ''now'' # Wd ''('' # [] @ [Wd '')'']) = Some (SCall ''now'' [])"
      using call_of_call [of "''now''" "[]"] by (subst sql_read.simps) (simp add: reserved_def closed_def)
  qed (simp add: closed_def)
  ultimately show ?thesis by auto
qed

section \<open>The expression of a filter\<close>

fun literal_sql :: "LiteralExpr \<Rightarrow> string \<Rightarrow> sql_expr" where
  "literal_sql NullLit ty = SNull"
| "literal_sql (BooleanLit b) ty = (if b then STrue else SFalse)"
| "literal_sql (IntegerLit i) ty = SInt i"
| "literal_sql (FloatLit d) ty = SDec (negative d) (millionths d) 6"
| "literal_sql (StringLit s) ty =
     (if BaseTypeOf ty = [] \<or> IsStringBase (BaseTypeOf ty) then SStr s else SCast (SStr s) (type_words ty))"

text \<open>\<open>eq null\<close> and \<open>ne null\<close>: the first operand is the null literal.\<close>

definition null_form :: "BinaryOp \<Rightarrow> Expr \<Rightarrow> Expr \<Rightarrow> bool" where
  "null_form op n e \<longleftrightarrow> IsNullLit n \<and> \<not> is_literal e \<and> op \<in> {BinaryOp.EQ, BinaryOp.NE}"

definition null_sql :: "BinaryOp \<Rightarrow> sql_expr \<Rightarrow> sql_expr" where
  "null_sql op x = (if op = BinaryOp.EQ then SIsNull x else SIsNotNull x)"

definition op_sql :: "BinaryOp \<Rightarrow> sql_expr \<Rightarrow> sql_expr \<Rightarrow> sql_expr" where
  "op_sql op x y =
     (case op of
        BinaryOp.AND \<Rightarrow> SAnd x y | BinaryOp.OR \<Rightarrow> SOr x y
      | BinaryOp.EQ \<Rightarrow> SCmp ''='' x y | BinaryOp.NE \<Rightarrow> SCmp ''<>'' x y
      | BinaryOp.GT \<Rightarrow> SCmp ''>'' x y | BinaryOp.GE \<Rightarrow> SCmp ''>='' x y
      | BinaryOp.LT \<Rightarrow> SCmp ''<'' x y | BinaryOp.LE \<Rightarrow> SCmp ''<='' x y)"

definition column_sql :: "EdmEntity \<Rightarrow> string \<Rightarrow> sql_expr" where
  "column_sql ent name =
     (case property_index ent (ToLower name) of Some p \<Rightarrow> SCol (p_name p) | None \<Rightarrow> SNull)"

definition function_sql :: "string \<Rightarrow> string" where
  "function_sql name = (case find_function (ToLower name) of Some (a, f, lo, hi) \<Rightarrow> f | None \<Rightarrow> name)"

text \<open>A literal next to an operator has the type of the other operand.\<close>

fun sql_of :: "EdmEntity \<Rightarrow> Expr \<Rightarrow> sql_expr" where
  "sql_of ent (PropertyExpr name) = column_sql ent name"
| "sql_of ent (Literal lit) = literal_sql lit []"
| "sql_of ent (UnaryExpr op e) = SNot (sql_of ent e)"
| "sql_of ent (BinaryExpr op l r) =
     (if null_form op l r then null_sql op (sql_of ent r)
      else if null_form op r l then null_sql op (sql_of ent l)
      else op_sql op
        (case l of Literal lit \<Rightarrow> literal_sql lit (ResolveLiteralType ent r) | _ \<Rightarrow> sql_of ent l)
        (case r of Literal lit \<Rightarrow> literal_sql lit (ResolveLiteralType ent l) | _ \<Rightarrow> sql_of ent r))"
| "sql_of ent (FunctionCallExpr name args) = SCall (function_sql name) (map (sql_of ent) args)"

definition operand_sql :: "EdmEntity \<Rightarrow> Expr \<Rightarrow> Expr \<Rightarrow> sql_expr" where
  "operand_sql ent e other =
     (case e of Literal lit \<Rightarrow> literal_sql lit (ResolveLiteralType ent other) | _ \<Rightarrow> sql_of ent e)"

text \<open>
  Whether a comparison sign, or a null test, stands in the text outside parentheses.
\<close>

fun open_comparison :: "Expr \<Rightarrow> bool" where
  "open_comparison (BinaryExpr op l r) =
     (if op \<in> {BinaryOp.AND, BinaryOp.OR} then False
      else if null_form op l r then open_comparison r
      else if null_form op r l then open_comparison l else True)"
| "open_comparison _ = False"

fun open_null_test :: "Expr \<Rightarrow> bool" where
  "open_null_test (BinaryExpr op l r) \<longleftrightarrow> null_form op l r \<or> null_form op r l"
| "open_null_test _ = False"

fun flat :: "Expr \<Rightarrow> bool" where
  "flat (BinaryExpr op l r) \<longleftrightarrow> flat l \<and> flat r
     \<and> (op \<in> {BinaryOp.AND, BinaryOp.OR} \<or> null_form op l r \<or> null_form op r l
        \<or> \<not> open_comparison l \<and> \<not> open_comparison r \<and> \<not> open_null_test r)"
| "flat (UnaryExpr op e) \<longleftrightarrow> flat e"
| "flat (FunctionCallExpr name args) \<longleftrightarrow> list_all flat args"
| "flat _ \<longleftrightarrow> True"

fun finite_floats :: "Expr \<Rightarrow> bool" where
  "finite_floats (Literal (FloatLit d)) \<longleftrightarrow> is_finite d"
| "finite_floats (BinaryExpr op l r) \<longleftrightarrow> finite_floats l \<and> finite_floats r"
| "finite_floats (UnaryExpr op e) \<longleftrightarrow> finite_floats e"
| "finite_floats (FunctionCallExpr name args) \<longleftrightarrow> list_all finite_floats args"
| "finite_floats _ \<longleftrightarrow> True"

definition sound_types :: "EdmEntity \<Rightarrow> bool" where
  "sound_types ent \<longleftrightarrow>
     list_all (\<lambda>p. p_edm_type p \<noteq> UNSUPPORTED \<longrightarrow> sound_type (p_duckdb_type p)) (e_properties ent)"

section \<open>The text is read as the expression\<close>

lemma sound_ResolveLiteralType: "sound_types ent \<Longrightarrow> sound_type (ResolveLiteralType ent e)"
proof -
  assume s: "sound_types ent"
  have names: "sound_type []" "sound_type ''BIGINT''" "sound_type ''VARCHAR''" "sound_type ''BOOLEAN''"
    unfolding sound_type_def plain_text_def plain_char_def by code_simp+
  have p: "sound_type (p_duckdb_type p)" if "property_index ent l = Some p" "p_edm_type p \<noteq> UNSUPPORTED" for p l
    using s that property_index_Some [OF that(1)] by (auto simp: sound_types_def list_all_iff)
  show ?thesis
    by (cases "(ent, e)" rule: ResolveLiteralType.cases) (auto simp: names Let_def p split: option.split)
qed

text \<open>What is shown of the text \<open>sql\<close> of the expression \<open>e\<close> with reading \<open>t\<close>.\<close>

definition written :: "Expr \<Rightarrow> string \<Rightarrow> sql_expr \<Rightarrow> bool" where
  "written e sql t \<longleftrightarrow>
     (\<exists>ws. spells sql ws \<and> sql_reads ws t \<and> (\<not> open_comparison e \<longrightarrow> splits is_cmp 0 ws = [ws])
        \<and> (\<not> open_comparison e \<and> \<not> open_null_test e \<longrightarrow> prim ws t))"

lemma prim_single: "prim ws t \<Longrightarrow> splits is_cmp 0 ws = [ws]"
  by (simp add: prim_def)

lemma written_prim: "\<exists>ws. spells sql ws \<and> prim ws t \<Longrightarrow> written e sql t"
  unfolding written_def using prim_reads prim_single by blast

lemma written_sql: "written e sql t \<Longrightarrow> sql_expression sql = Some t"
  by (auto simp: written_def spells_def sql_expression_def dest!: lexes_sql_lex sql_reads_connective(3))

lemma written_literal:
  assumes "sound_type ty" "finite_floats (Literal lit)"
  shows "\<exists>ws. spells (CompileLiteral lit ty) ws \<and> prim ws (literal_sql lit ty)"
proof -
  have w: "\<exists>ws. spells w ws \<and> prim ws t"
    if "plain_text w" "w \<noteq> []" "list_all name_char w" "atom [Wd w] = Some t" "quiet (Wd w)" for w t
    using spells_plain [OF that(1)] sql_words_name [OF that(2,3)] prim_word [OF that(4,5)] by auto
  have str: "\<exists>ws. spells (QuoteStringLiteral s) ws \<and> prim ws (SStr s)" for s
    using spells_string prim_word [of "WStr s" "SStr s"] by (auto simp: atom_def)
  show ?thesis
  proof (cases lit)
    case NullLit
    then show ?thesis by (auto intro!: w simp: plain_char_def name_char_def atom_def)
  next
    case (BooleanLit b)
    then show ?thesis
      by (cases b) (auto intro!: w simp: plain_char_def name_char_def atom_def)
  next
    case (StringLit s)
    then show ?thesis using str sql_reads_cast [OF assms(1)] by (simp add: Let_def)
  qed (use assms(2) sql_reads_to_string sql_reads_real_literal in auto)
qed

text \<open>An operand of a binary operator.\<close>

lemma written_operand:
  assumes "sound_types ent" "finite_floats e" "operand ent e other = Inr sql"
    and "\<And>sql. Compile ent e = Inr sql \<Longrightarrow> written e sql (sql_of ent e)"
  shows "written e sql (operand_sql ent e other)"
proof (cases e)
  case (Literal lit)
  with assms(3) show ?thesis
    using written_prim [OF written_literal [OF sound_ResolveLiteralType [OF assms(1)]]] assms(2)
    by (auto simp: operand_def operand_sql_def)
qed (use assms(3,4) in \<open>auto simp: operand_def operand_sql_def\<close>)

lemma written_null:
  assumes "written e sql t" "op \<in> {BinaryOp.EQ, BinaryOp.NE}"
  shows "\<exists>ws. spells (sql @ the (null_test op)) ws \<and> sql_reads ws (null_sql op t)
    \<and> (\<not> open_comparison e \<longrightarrow> splits is_cmp 0 ws = [ws])"
proof -
  from assms(1) obtain ws where ws: "spells sql ws" "sql_reads ws t"
    "\<not> open_comparison e \<longrightarrow> splits is_cmp 0 ws = [ws]" by (auto simp: written_def)
  have g: "glue_after '' IS NULL''" "sep_start '' IS NULL''" "glue_after '' IS NOT NULL''" "sep_start '' IS NOT NULL''"
    by (simp_all add: glue_after_def plain_char_def boundary_char_def sep_start_def sep_char_def)
  have w: "sql_words (map Ch '' IS NULL'') = [Wd ''IS'', Wd ''NULL'']"
    "sql_words (map Ch '' IS NOT NULL'') = [Wd ''IS'', Wd ''NOT'', Wd ''NULL'']"
    by code_simp+
  have c: "closed ws" using ws(2) by (simp add: sql_reads_def bare_def)
  have n: "\<not> is_cmp (Wd ''IS'')" "\<not> is_cmp (Wd ''NULL'')" "\<not> is_cmp (Wd ''NOT'')"
    by (auto simp: is_cmp_def comparison_words_def)
  have s: "splits is_cmp 0 (ws @ v) = [ws @ v]" if "splits is_cmp 0 ws = [ws]" "v \<in> {[Wd ''IS'', Wd ''NULL''], [Wd ''IS'', Wd ''NOT'', Wd ''NULL'']}" for v
    using that n by (auto simp: splits_closed [OF c] grow_def enter_def)
  from assms(2) show ?thesis
    using spells_after [OF ws(1) g(1,2), unfolded w] spells_after [OF ws(1) g(3,4), unfolded w]
      sql_reads_is_null [OF ws(2)] s ws(3)
    by (auto simp: null_test_def null_sql_def)
qed

lemma sql_op_words:
  "sql_words (map Ch ('' '' @ sql_op op @ '' '')) = [Wd (sql_op op)]"
  "glue_after ('' '' @ sql_op op @ '' '')" "glue ('' '' @ sql_op op @ '' '')"
  "sep_start ('' '' @ sql_op op @ '' '')" "sep_end ('' '' @ sql_op op @ '' '')"
proof -
  show "sql_words (map Ch ('' '' @ sql_op op @ '' '')) = [Wd (sql_op op)]"
    by (cases op; hypsubst; code_simp)
qed (cases op; simp add: sql_op_def glue_def glue_after_def plain_char_def boundary_char_def word_char_def
    sep_start_def sep_end_def sep_char_def)+

lemma spells_parens: "spells a ws \<Longrightarrow> spells (''('' @ a @ '')'') (Wd ''('' # ws @ [Wd '')''])"
proof -
  assume a: "spells a ws"
  have g: "glue_after '')''" "sep_start '')''" "glue ''(''" "sep_end ''(''"
    by (simp_all add: glue_def glue_after_def plain_char_def boundary_char_def word_char_def
        sep_start_def sep_end_def sep_char_def)
  have w: "sql_words (map Ch ''('') = [Wd ''('']" "sql_words (map Ch '')'') = [Wd '')'']" by code_simp+
  from spells_before [OF spells_after [OF a g(1,2)] g(3,4), unfolded w] show ?thesis by simp
qed

lemma written_join:
  assumes "written l x t" "written r y u"
    and "op \<in> {BinaryOp.AND, BinaryOp.OR} \<or> \<not> open_comparison l \<and> \<not> open_comparison r \<and> \<not> open_null_test r"
  shows "\<exists>ws. spells (join_operands op x y) ws \<and> sql_reads ws (op_sql op t u)
    \<and> (op \<in> {BinaryOp.AND, BinaryOp.OR} \<longrightarrow> prim ws (op_sql op t u))"
proof -
  from assms(1,2) obtain v w where vw: "spells x v" "sql_reads v t" "spells y w" "sql_reads w u"
    "\<not> open_comparison l \<longrightarrow> splits is_cmp 0 v = [v]" "\<not> open_comparison r \<and> \<not> open_null_test r \<longrightarrow> prim w u"
    by (auto simp: written_def)
  from spells_append [OF vw(1,3) sql_op_words(2-5) [of op], unfolded sql_op_words(1)]
  have base: "spells (x @ '' '' @ sql_op op @ '' '' @ y) (v @ Wd (sql_op op) # w)" by simp
  show ?thesis
  proof (cases "op \<in> {BinaryOp.AND, BinaryOp.OR}")
    case True
    have "prim (Wd ''('' # (v @ Wd (sql_op op) # w) @ [Wd '')'']) (op_sql op t u)"
      using True prim_and [OF vw(2,4)] prim_or [OF vw(2,4)] by (auto simp: sql_op_def op_sql_def)
    with True spells_parens [OF base] prim_reads show ?thesis by (auto simp: join_operands_def)
  next
    case False
    then have p: "prim w u" "splits is_cmp 0 v = [v]" using assms(3) vw(5,6) by auto
    have "sql_op op \<in> set comparison_words" "op_sql op t u = SCmp (sql_op op) t u"
      using False by (cases op; simp add: sql_op_def comparison_words_def op_sql_def)+
    with False base sql_reads_comparison [OF vw(2) p(2,1)] show ?thesis
      by (auto simp: join_operands_def)
  qed
qed

lemma null_form_test: "null_form op n e \<longleftrightarrow> IsNullLit n \<and> \<not> is_literal e \<and> null_test op \<noteq> None"
  by (cases op) (auto simp: null_form_def null_test_def)

lemma find_functionD:
  assumes "find_function lower = Some (a, f, lo, hi)"
  shows "function_name f" "lower \<noteq> ''now'' \<Longrightarrow> 0 < lo" "lower = ''now'' \<Longrightarrow> f = ''now'' \<and> hi = 0"
proof -
  from assms have m: "(a, f, lo, hi) \<in> set GetFunctionMap" and a: "a = lower"
    unfolding find_function_def find_Some_iff by (metis nth_mem, metis fst_conv)
  show "function_name f" using m function_names by (auto simp: list_all_iff)
  show "lower \<noteq> ''now'' \<Longrightarrow> 0 < lo" using m a by (auto simp: GetFunctionMap_def)
  show "lower = ''now'' \<Longrightarrow> f = ''now'' \<and> hi = 0" using m a by (auto simp: GetFunctionMap_def)
qed

lemma written_call:
  assumes "Compile ent (FunctionCallExpr name args) = Inr sql"
    and IH: "\<And>e x. e \<in> set args \<Longrightarrow> Compile ent e = Inr x \<Longrightarrow> written e x (sql_of ent e)"
  shows "\<exists>ws. spells sql ws \<and> prim ws (sql_of ent (FunctionCallExpr name args))"
proof -
  from assms(1) obtain a f lo hi where f: "find_function (ToLower name) = Some (a, f, lo, hi)"
    "lo \<le> length args" "length args \<le> hi"
    by (auto simp: Let_def split: option.splits prod.splits if_splits)
  have fs: "function_sql name = f" using f(1) by (simp add: function_sql_def)
  show ?thesis
  proof (cases "ToLower name = ''now''")
    case True
    with assms(1) f sql_reads_now find_functionD(3) [OF f(1)] fs show ?thesis
      by (auto simp: Let_def split: if_splits)
  next
    case False
    then have ne: "args \<noteq> []" using f(2) find_functionD(2) [OF f(1)] by auto
    from assms(1) f False obtain xs where xs: "mapE (Compile ent) args = Inr xs"
      and sql: "sql = f @ ''('' @ join_with '', '' xs @ '')''"
      by (auto simp: Let_def bindE_Inr_iff split: if_splits)
    have l: "length xs = length args" using mapE_Inr_length [OF xs] .
    have "\<exists>ws. spells (xs ! i) ws \<and> sql_reads ws (sql_of ent (args ! i))" if "i < length args" for i
      using that xs IH [of "args ! i" "xs ! i"]
      by (auto simp: mapE_Inr_list_all2 list_all2_conv_all_nth written_def)
    then obtain g where g: "\<And>i. i < length args \<Longrightarrow> spells (xs ! i) (g i) \<and> sql_reads (g i) (sql_of ent (args ! i))"
      by metis
    have "list_all2 spells xs (map g [0..<length args])"
      "list_all2 sql_reads (map g [0..<length args]) (map (sql_of ent) args)"
      using g l by (auto simp: list_all2_conv_all_nth)
    moreover have "xs \<noteq> []" using ne l by auto
    ultimately show ?thesis using sql_reads_call [OF find_functionD(1) [OF f(1)]] sql fs by simp
  qed
qed

theorem Compile_written:
  assumes "sound_types ent" "Compile ent e = Inr sql" "flat e" "finite_floats e"
  shows "written e sql (sql_of ent e)"
  using assms(2-4)
proof (induction e arbitrary: sql)
  case (PropertyExpr name)
  then obtain p where "property_index ent (ToLower name) = Some p" "sql = QuoteIdentifier (p_name p)"
    by (auto simp: ResolveProperty_def split: option.splits)
  then show ?case
    using spells_ident prim_word [of "WId (p_name p)"]
    by (auto simp: column_sql_def atom_def intro!: written_prim)
next
  case (Literal lit)
  then show ?case
    using written_literal [of "[]" lit] sound_ResolveLiteralType [OF assms(1), of "Literal lit"]
    by (auto intro!: written_prim)
next
  case (UnaryExpr op e)
  then obtain x where x: "Compile ent e = Inr x" "sql = ''('' @ (''NOT '' @ x) @ '')''"
    by (auto simp: bindE_Inr_iff)
  with UnaryExpr obtain ws where ws: "spells x ws" "sql_reads ws (sql_of ent e)" by (auto simp: written_def)
  have g: "glue ''NOT ''" "sep_end ''NOT ''"
    by (simp_all add: glue_def plain_char_def word_char_def sep_end_def sep_char_def)
  have "sql_words (map Ch ''NOT '') = [Wd ''NOT'']" by code_simp
  then have "spells (''NOT '' @ x) (Wd ''NOT'' # ws)" using spells_before [OF ws(1) g] by simp
  from spells_parens [OF this] prim_not [OF ws(2)] x(2) show ?case by (intro written_prim) auto
next
  case (BinaryExpr op l r)
  have f: "finite_floats l" "finite_floats r" "flat l" "flat r" using BinaryExpr.prems by auto
  note IH = BinaryExpr.IH(1) [OF _ f(3,1)] BinaryExpr.IH(2) [OF _ f(4,2)]
  have eq: "op \<in> {BinaryOp.EQ, BinaryOp.NE}" if "null_form op x y" for x y using that by (simp add: null_form_def)
  consider (1) "null_form op l r" | (2) "\<not> null_form op l r" "null_form op r l"
    | (3) "\<not> null_form op l r" "\<not> null_form op r l" by blast
  then show ?case
  proof cases
    case 1
    with BinaryExpr.prems(1) obtain x where "Compile ent r = Inr x" "sql = x @ the (null_test op)"
      by (auto simp: Compile_Binary null_form_test bindE_Inr_iff)
    with written_null [OF IH(2) eq [OF 1]] 1 eq [OF 1] show ?thesis by (auto simp: written_def)
  next
    case 2
    with BinaryExpr.prems(1) obtain x where "Compile ent l = Inr x" "sql = x @ the (null_test op)"
      by (auto simp: Compile_Binary null_form_test bindE_Inr_iff split: if_splits)
    with written_null [OF IH(1) eq [OF 2(2)]] 2 eq [OF 2(2)] show ?thesis by (auto simp: written_def)
  next
    case 3
    with BinaryExpr.prems(1) obtain x y where xy: "operand ent l r = Inr x" "operand ent r l = Inr y"
      "sql = join_operands op x y"
      by (auto simp: Compile_Binary null_form_test bindE_Inr_iff split: if_splits)
    have "op \<in> {BinaryOp.AND, BinaryOp.OR} \<or> \<not> open_comparison l \<and> \<not> open_comparison r \<and> \<not> open_null_test r"
      using BinaryExpr.prems(2) 3 by simp
    from written_join [OF written_operand [OF assms(1) f(1) xy(1) IH(1)] written_operand [OF assms(1) f(2) xy(2) IH(2)] this]
    obtain ws where ws: "spells sql ws" "sql_reads ws (op_sql op (operand_sql ent l r) (operand_sql ent r l))"
      "op \<in> {BinaryOp.AND, BinaryOp.OR} \<Longrightarrow> prim ws (op_sql op (operand_sql ent l r) (operand_sql ent r l))"
      using xy(3) by auto
    have "sql_of ent (BinaryExpr op l r) = op_sql op (operand_sql ent l r) (operand_sql ent r l)"
      using 3 by (simp add: operand_sql_def)
    moreover have "splits is_cmp 0 ws = [ws]" if "op \<in> {BinaryOp.AND, BinaryOp.OR}"
      using ws(3) [OF that] by (rule prim_single)
    ultimately show ?thesis using ws 3 unfolding written_def
      by (intro exI [of _ ws]) (simp split: if_splits)
  qed
next
  case (FunctionCallExpr name args)
  have "written e x (sql_of ent e)" if "e \<in> set args" "Compile ent e = Inr x" for e x
    using that FunctionCallExpr by (auto simp: list_all_iff)
  from written_call [OF FunctionCallExpr.prems(1) this] show ?case by (rule written_prim)
qed

end
