(* ===== verification/Sql_Statement.thy ===== *)
theory Sql_Statement
  imports Sql_Reading
begin

text \<open>
  The SELECT statements that the compiler writes, read clause by clause: what is selected, from
  which table, under which condition, in which order, and which part of the rows. A clause is found
  by its keyword outside parentheses, the last clause first, so clauses out of order have no reading.
\<close>

datatype select_items = All_Columns | Columns "string list" | Count_As string

record select_statement =
  ss_items :: select_items
  ss_table :: "string list"
  ss_where :: "sql_expr option"
  ss_order :: "(string \<times> bool) list"
  ss_limit :: "int option"
  ss_offset :: "int option"

section \<open>The reader\<close>

text \<open>The text before a keyword and, when it occurs, the text after it; it may occur only once.\<close>

definition cut :: "string \<Rightarrow> sql_word list \<Rightarrow> (sql_word list \<times> sql_word list option) option" where
  "cut key ws =
     (case splits (\<lambda>w. w = Wd key) 0 ws of
        [a] \<Rightarrow> Some (a, None) | [a, b] \<Rightarrow> Some (a, Some b) | _ \<Rightarrow> None)"

definition read_name :: "sql_word list \<Rightarrow> string option" where
  "read_name ws = (case ws of [WId n] \<Rightarrow> Some n | _ \<Rightarrow> None)"

definition comma_list :: "(sql_word list \<Rightarrow> 'a option) \<Rightarrow> sql_word list \<Rightarrow> 'a list option" where
  "comma_list f ws = those (map f (splits (\<lambda>w. w = Wd '','') 0 ws))"

definition read_items :: "sql_word list \<Rightarrow> select_items option" where
  "read_items ws =
     (if ws = [Wd ''*''] then Some All_Columns
      else case ws of
        [Wd f, Wd a, Wd star, Wd b, Wd as_word, Wd n] \<Rightarrow>
          if [f, a, star, b, as_word] = [''COUNT'', ''('', ''*'', '')'', ''AS''] then Some (Count_As n) else None
      | _ \<Rightarrow> map_option Columns (comma_list read_name ws))"

fun read_table :: "sql_word list \<Rightarrow> string list option" where
  "read_table [WId n] = Some [n]"
| "read_table (WId n # Wd p # ws) = (if p = ''.'' then map_option ((#) n) (read_table ws) else None)"
| "read_table _ = None"

definition read_term :: "sql_word list \<Rightarrow> (string \<times> bool) option" where
  "read_term ws =
     (case ws of
        [WId n, Wd d] \<Rightarrow> if d = ''DESC'' then Some (n, True) else if d = ''ASC'' then Some (n, False) else None
      | _ \<Rightarrow> None)"

definition read_order :: "sql_word list \<Rightarrow> (string \<times> bool) list option" where
  "read_order ws = (case ws of w # r \<Rightarrow> if w = Wd ''BY'' then comma_list read_term r else None | [] \<Rightarrow> None)"

definition read_count :: "sql_word list \<Rightarrow> int option" where
  "read_count ws = (case sql_read 0 ws of Some (SInt n) \<Rightarrow> if 0 \<le> n then Some n else None | _ \<Rightarrow> None)"

text \<open>A clause that may be absent.\<close>

definition clause_value :: "(sql_word list \<Rightarrow> 'a option) \<Rightarrow> sql_word list option \<Rightarrow> 'a option option" where
  "clause_value f c = (case c of None \<Rightarrow> Some None | Some ws \<Rightarrow> map_option Some (f ws))"

definition read_select :: "sql_word list \<Rightarrow> select_statement option" where
  "read_select ws =
     (case ws of [] \<Rightarrow> None
      | w # r \<Rightarrow>
        if w \<noteq> Wd ''SELECT'' then None else
        Option.bind (cut ''FROM'' r) (\<lambda>(items, from_part).
        Option.bind from_part (\<lambda>rest.
        Option.bind (cut ''OFFSET'' rest) (\<lambda>(a1, offset_part).
        Option.bind (cut ''LIMIT'' a1) (\<lambda>(a2, limit_part).
        Option.bind (cut ''ORDER'' a2) (\<lambda>(a3, order_part).
        Option.bind (cut ''WHERE'' a3) (\<lambda>(table, where_part).
        Option.bind (read_items items) (\<lambda>si.
        Option.bind (read_table table) (\<lambda>st.
        Option.bind (clause_value (sql_read 0) where_part) (\<lambda>sw.
        Option.bind (clause_value read_order order_part) (\<lambda>so.
        Option.bind (clause_value read_count limit_part) (\<lambda>sl.
        Option.bind (clause_value read_count offset_part) (\<lambda>sk.
          Some \<lparr>ss_items = si, ss_table = st, ss_where = sw,
                ss_order = (case so of None \<Rightarrow> [] | Some ts \<Rightarrow> ts),
                ss_limit = sl, ss_offset = sk\<rparr>)))))))))))))"

definition sql_statement :: "string \<Rightarrow> select_statement option" where
  "sql_statement sql = Option.bind (sql_lex sql) (\<lambda>ts. read_select (sql_words ts))"

section \<open>Reading a statement that is put together from clauses\<close>

text \<open>A text in which no clause word stands outside parentheses.\<close>

definition clause_word :: "sql_word \<Rightarrow> bool" where
  "clause_word w \<longleftrightarrow> w \<in> {Wd ''FROM'', Wd ''WHERE'', Wd ''ORDER'', Wd ''LIMIT'', Wd ''OFFSET'',
     Wd ''VALUES'', Wd ''SET'', Wd ''RETURNING''}"

definition segment :: "sql_word list \<Rightarrow> bool" where
  "segment ws \<longleftrightarrow> closed ws \<and> splits clause_word 0 ws = [ws]"

lemma bare_segment: "bare ws \<Longrightarrow> segment ws"
  using splits_mono [of clause_word weak 0 ws] by (auto simp: bare_def segment_def clause_word_def weak_def)

lemma segment_append: "segment a \<Longrightarrow> segment b \<Longrightarrow> segment (a @ b)"
  by (simp add: segment_def closed_append splits_closed)

lemma segment_word: "\<not> clause_word w \<Longrightarrow> w \<notin> {Wd ''('', Wd '')''} \<Longrightarrow> segment [w]"
  by (simp add: segment_def closed_def grow_def enter_def)

definition opt_clause :: "string \<Rightarrow> sql_word list option \<Rightarrow> sql_word list" where
  "opt_clause key c = (case c of None \<Rightarrow> [] | Some ws \<Rightarrow> Wd key # ws)"

text \<open>\<open>without key ws\<close>: closed, and the keyword is not outside parentheses.\<close>

definition without :: "string \<Rightarrow> sql_word list \<Rightarrow> bool" where
  "without key ws \<longleftrightarrow> closed ws \<and> splits (\<lambda>w. w = Wd key) 0 ws = [ws]"

lemma without_segment: "segment ws \<Longrightarrow> clause_word (Wd key) \<Longrightarrow> without key ws"
  using splits_mono [of "\<lambda>w. w = Wd key" clause_word 0 ws] by (auto simp: segment_def without_def)

lemma without_append: "without key a \<Longrightarrow> without key b \<Longrightarrow> without key (a @ b)"
  by (simp add: without_def closed_append splits_closed)

lemma without_opt:
  assumes "\<And>ws. c = Some ws \<Longrightarrow> segment ws" "key' \<noteq> key" "clause_word (Wd key)" "clause_word (Wd key')"
  shows "without key (opt_clause key' c)"
proof (cases c)
  case None
  then show ?thesis by (simp add: opt_clause_def without_def closed_def)
next
  case (Some ws)
  have k: "Wd key' \<notin> {Wd ''('', Wd '')''}" using assms(4) by (auto simp: clause_word_def)
  then have "without key [Wd key']" using assms(2) by (simp add: without_def closed_def grow_def enter_def)
  from without_append [OF this without_segment [OF assms(1) [OF Some] assms(3)]] Some show ?thesis
    by (simp add: opt_clause_def)
qed

lemma cut_opt:
  assumes "without key a" "\<And>ws. c = Some ws \<Longrightarrow> without key ws"
  shows "cut key (a @ opt_clause key c) = Some (a, c)"
  using assms by (cases c) (auto simp: cut_def opt_clause_def without_def splits_at)

lemma read_select_clauses:
  assumes items: "segment items" "read_items items = Some si"
    and table: "segment table" "read_table table = Some st"
    and wh: "\<And>ws. wh = Some ws \<Longrightarrow> segment ws" "clause_value (sql_read 0) wh = Some sw"
    and ord: "\<And>ws. ord = Some ws \<Longrightarrow> segment ws" "clause_value read_order ord = Some so"
    and lim: "\<And>ws. lim = Some ws \<Longrightarrow> segment ws" "clause_value read_count lim = Some sl"
    and off: "\<And>ws. off = Some ws \<Longrightarrow> segment ws" "clause_value read_count off = Some sk"
  shows "read_select (Wd ''SELECT'' # items @ Wd ''FROM'' # table @ opt_clause ''WHERE'' wh
      @ opt_clause ''ORDER'' ord @ opt_clause ''LIMIT'' lim @ opt_clause ''OFFSET'' off)
    = Some \<lparr>ss_items = si, ss_table = st, ss_where = sw,
        ss_order = (case so of None \<Rightarrow> [] | Some ts \<Rightarrow> ts), ss_limit = sl, ss_offset = sk\<rparr>"
proof -
  have k: "clause_word (Wd ''FROM'')" "clause_word (Wd ''WHERE'')" "clause_word (Wd ''ORDER'')"
    "clause_word (Wd ''LIMIT'')" "clause_word (Wd ''OFFSET'')" by (simp_all add: clause_word_def)
  let ?w = "opt_clause ''WHERE'' wh" and ?o = "opt_clause ''ORDER'' ord"
    and ?l = "opt_clause ''LIMIT'' lim" and ?k = "opt_clause ''OFFSET'' off"
  have wo: "without key ?w" if "clause_word (Wd key)" "key \<noteq> ''WHERE''" for key
    by (rule without_opt [OF wh(1)]) (use that k in auto)
  have oo: "without key ?o" if "clause_word (Wd key)" "key \<noteq> ''ORDER''" for key
    by (rule without_opt [OF ord(1)]) (use that k in auto)
  have lo: "without key ?l" if "clause_word (Wd key)" "key \<noteq> ''LIMIT''" for key
    by (rule without_opt [OF lim(1)]) (use that k in auto)
  have ko: "without key ?k" if "clause_word (Wd key)" "key \<noteq> ''OFFSET''" for key
    by (rule without_opt [OF off(1)]) (use that k in auto)
  have to: "without key table" if "clause_word (Wd key)" for key
    using without_segment [OF table(1) that] .
  have g: "without ''FROM'' (table @ ?w @ ?o @ ?l @ ?k)"
    by (simp add: without_append to wo oo lo ko k)
  have f: "cut ''FROM'' (items @ opt_clause ''FROM'' (Some (table @ ?w @ ?o @ ?l @ ?k)))
      = Some (items, Some (table @ ?w @ ?o @ ?l @ ?k))"
    by (rule cut_opt) (use g without_segment [OF items(1) k(1)] in auto)
  have "cut ''OFFSET'' ((table @ ?w @ ?o @ ?l) @ ?k) = Some (table @ ?w @ ?o @ ?l, off)"
    by (rule cut_opt) (simp_all add: without_append to wo oo lo k without_segment [OF off(1)])
  moreover have "cut ''LIMIT'' ((table @ ?w @ ?o) @ ?l) = Some (table @ ?w @ ?o, lim)"
    by (rule cut_opt) (simp_all add: without_append to wo oo k without_segment [OF lim(1)])
  moreover have "cut ''ORDER'' ((table @ ?w) @ ?o) = Some (table @ ?w, ord)"
    by (rule cut_opt) (simp_all add: without_append to wo k without_segment [OF ord(1)])
  moreover have "cut ''WHERE'' (table @ ?w) = Some (table, wh)"
    by (rule cut_opt) (simp_all add: to k without_segment [OF wh(1)])
  ultimately show ?thesis
    using f items table wh ord lim off by (simp add: read_select_def opt_clause_def [of "''FROM''"])
qed

end
