(* ===== verification/Compiled_Statement.thy ===== *)
theory Compiled_Statement
  imports Sql_Compiler Compiled_Filter Sql_Statement
begin

text \<open>
  The statements of \<open>CompileCollection\<close>, \<open>CompileCount\<close> and \<open>CompileByKey\<close> are read, clause by
  clause, as what the query asks for.
\<close>

section \<open>Clauses\<close>

definition spells_clause :: "string \<Rightarrow> string \<Rightarrow> sql_word list option \<Rightarrow> bool" where
  "spells_clause key sql c \<longleftrightarrow>
     (case c of None \<Rightarrow> sql = [] | Some ws \<Rightarrow> \<exists>b. sql = ('' '' @ key @ '' '') @ b \<and> spells b ws)"

lemma keyword_glue:
  assumes "key \<in> {''FROM'', ''WHERE'', ''ORDER'', ''LIMIT'', ''OFFSET'', ''AND'', ''SET'', ''RETURNING''}"
  shows "glue_after ('' '' @ key @ '' '')" "glue ('' '' @ key @ '' '')" "sep_start ('' '' @ key @ '' '')"
    "sep_end ('' '' @ key @ '' '')" "sql_words (map Ch ('' '' @ key @ '' '')) = [Wd key]"
proof -
  show "sql_words (map Ch ('' '' @ key @ '' '')) = [Wd key]"
    using assms by (elim insertE emptyE; hypsubst; code_simp)
qed (use assms in \<open>auto simp: glue_simps sep_start_def sep_end_def sep_char_def\<close>)

lemma spells_keyword:
  "spells a wa \<Longrightarrow> spells b wb \<Longrightarrow> key \<in> {''FROM'', ''WHERE'', ''ORDER'', ''LIMIT'', ''OFFSET'', ''AND'', ''SET'', ''RETURNING''} \<Longrightarrow>
     spells (a @ ('' '' @ key @ '' '') @ b) (wa @ Wd key # wb)"
  using spells_append [OF _ _ keyword_glue(1-4), of a wa b wb key, unfolded keyword_glue(5)] keyword_glue(5) [of key]
  by simp

lemma spells_add_clause:
  assumes "spells a wa" "spells_clause key t c" "key \<in> {''WHERE'', ''ORDER'', ''LIMIT'', ''OFFSET''}"
  shows "spells (a @ t) (wa @ opt_clause key c)"
proof (cases c)
  case None
  with assms show ?thesis by (simp add: spells_clause_def opt_clause_def)
next
  case (Some ws)
  with assms(2) obtain b where b: "t = ('' '' @ key @ '' '') @ b" "spells b ws" by (auto simp: spells_clause_def)
  have "key \<in> {''FROM'', ''WHERE'', ''ORDER'', ''LIMIT'', ''OFFSET'', ''AND'', ''SET'', ''RETURNING''}" using assms(3) by auto
  from spells_keyword [OF assms(1) b(2) this] b(1) Some show ?thesis by (simp add: opt_clause_def)
qed

lemma spells_nonempty: "spells sql ws \<Longrightarrow> ws \<noteq> [] \<Longrightarrow> sql \<noteq> []"
  by (auto simp: spells_def dest!: lexes_sql_lex)

section \<open>Lists of columns\<close>

lemma bare_word: "quiet x \<Longrightarrow> bare [x]"
  by (auto simp: bare_def quiet_def closed_def grow_def enter_def)

lemma segment_between:
  "list_all bare wss \<Longrightarrow> wss \<noteq> [] \<Longrightarrow> sep \<in> {'','', ''AND''} \<Longrightarrow> segment (between sep wss)"
  using between_split between_free [of wss clause_word sep]
  by (auto simp: segment_def clause_word_def weak_def)

lemma spells_columns:
  assumes "ns \<noteq> []"
  shows "\<exists>ws. spells (join_with '', '' (map QuoteIdentifier ns)) ws \<and> segment ws \<and> read_items ws = Some (Columns ns)"
proof -
  let ?wss = "map (\<lambda>n. [WId n]) ns"
  have b: "list_all bare ?wss" by (simp add: list_all_iff bare_word)
  have "spells (join_with '', '' (map QuoteIdentifier ns)) (commas ?wss)"
    using assms by (intro spells_commas) (auto simp: list_all2_conv_all_nth spells_ident)
  moreover have "those (map read_name ?wss) = Some ns"
    by (induction ns) (auto simp: read_name_def)
  then have "comma_list read_name (commas ?wss) = Some ns"
    using commas_split [OF b] assms by (simp add: comma_list_def)
  moreover have "read_items (WId n # r) = map_option Columns (comma_list read_name (WId n # r))" for n r
    by (simp add: read_items_def)
  moreover obtain n r where "commas ?wss = WId n # r" using assms by (cases ns rule: remdups_adj.cases) auto
  ultimately have "read_items (commas ?wss) = Some (Columns ns)" by simp
  with \<open>spells _ _\<close> show ?thesis using segment_between [OF b, of "'',''"] assms by simp blast
qed

lemma spells_select_text:
  "\<exists>ws. spells (select_text ps) ws \<and> segment ws
    \<and> read_items ws = Some (if ps = [] then All_Columns else Columns (map p_name ps))"
proof (cases "ps = []")
  case True
  have "spells ''*'' (sql_words (map Ch ''*''))" by (rule spells_plain) (simp add: plain_char_def)
  moreover have "segment [Wd ''*'']" by (rule segment_word) (auto simp: clause_word_def)
  ultimately show ?thesis using True
    by (auto simp: select_text_def read_items_def intro!: exI [of _ "[Wd ''*'']"])
next
  case False
  with spells_columns [of "map p_name ps"] show ?thesis
    by (simp add: select_text_def comp_def)
qed

section \<open>The table\<close>

definition table_path :: "EdmEntity \<Rightarrow> string list" where
  "table_path ent =
     (if e_catalog ent \<noteq> [] \<and> e_schema ent \<noteq> [] then [e_catalog ent, e_schema ent, e_table ent]
      else if e_schema ent \<noteq> [] then [e_schema ent, e_table ent] else [e_table ent])"

lemma spells_dot:
  assumes "lexes b (Id n # tb)"
  shows "lexes (QuoteIdentifier m @ ''.'' @ b) (Id m # Ch (CHR ''.'') # Id n # tb)"
  using lexes_append [OF lexes_ident _ _ assms, of "''.''" m] by (simp add: glue_simps)

lemma spells_qualified:
  "spells (QuoteIdentifier c @ ''.'' @ QuoteIdentifier a @ ''.'' @ QuoteIdentifier b)
     [WId c, Wd ''.'', WId a, Wd ''.'', WId b]"
  "segment [WId c, Wd ''.'', WId a, Wd ''.'', WId b]"
  by (rule spellsI [OF spells_dot [OF spells_dot [OF lexes_ident]]], simp)
     (simp add: segment_def closed_def clause_word_def grow_def enter_def)

lemma spells_table:
  "\<exists>ws. spells (QuotedTable ent) ws \<and> segment ws \<and> read_table ws = Some (table_path ent)"
proof -
  have i: "lexes (QuoteIdentifier a) [Id a]" for a by (rule lexes_ident)
  have d: "segment [Wd ''.'']" "segment [WId a]" for a
    by (rule segment_word; simp add: clause_word_def)+
  have two: "spells (QuoteIdentifier a @ ''.'' @ QuoteIdentifier b) [WId a, Wd ''.'', WId b]" for a b
    by (rule spellsI [OF spells_dot [OF i]]) simp
  have seg: "segment [WId a, Wd ''.'', WId b]" for a b
    by (simp add: segment_def closed_def clause_word_def grow_def enter_def)
  consider "table_path ent = [e_catalog ent, e_schema ent, e_table ent]"
      "QuotedTable ent = QuoteIdentifier (e_catalog ent) @ ''.'' @ QuoteIdentifier (e_schema ent) @ ''.'' @ QuoteIdentifier (e_table ent)"
    | "table_path ent = [e_schema ent, e_table ent]"
      "QuotedTable ent = QuoteIdentifier (e_schema ent) @ ''.'' @ QuoteIdentifier (e_table ent)"
    | "table_path ent = [e_table ent]" "QuotedTable ent = QuoteIdentifier (e_table ent)"
    by (cases "e_schema ent = []"; cases "e_catalog ent = []") (auto simp: table_path_def QuotedTable_def)
  then show ?thesis
  proof cases
    case 1
    with spells_qualified show ?thesis by (intro exI [of _ "[WId (e_catalog ent), Wd ''.'', WId (e_schema ent), Wd ''.'', WId (e_table ent)]"]) simp
  next
    case 2
    with two seg show ?thesis by (intro exI [of _ "[WId (e_schema ent), Wd ''.'', WId (e_table ent)]"]) simp
  next
    case 3
    with spells_ident d(2) show ?thesis by (intro exI [of _ "[WId (e_table ent)]"]) simp
  qed
qed

section \<open>Condition, order and limits\<close>

definition filter_ok :: "(Expr \<Rightarrow> bool) \<Rightarrow> ODataQuery \<Rightarrow> bool" where
  "filter_ok P q = (case q_filter q of None \<Rightarrow> True | Some f \<Rightarrow> P f)"

lemma clause_where_reads:
  assumes "sound_types ent" "CompileFilterText q ent = Inr wh"
    and "filter_ok flat q" "filter_ok finite_floats q"
  shows "\<exists>c. spells_clause ''WHERE'' (where_clause wh) c \<and> (\<forall>ws. c = Some ws \<longrightarrow> segment ws)
    \<and> clause_value (sql_read 0) c = Some (map_option (sql_of ent) (q_filter q))"
proof (cases "q_filter q")
  case None
  with assms(2) show ?thesis
    by (intro exI [of _ None]) (simp add: CompileFilterText_def where_clause_def spells_clause_def clause_value_def)
next
  case (Some f)
  with assms have "written f wh (sql_of ent f)"
    by (intro Compile_written) (simp_all add: CompileFilterText_def filter_ok_def)
  then obtain ws where ws: "spells wh ws" "sql_reads ws (sql_of ent f)" by (auto simp: written_def)
  have "where_clause wh = ('' '' @ ''WHERE'' @ '' '') @ wh"
    using spells_nonempty [OF ws(1) sql_reads_ne [OF ws(2)]] by (simp add: where_clause_def)
  with ws Some show ?thesis
    by (intro exI [of _ "Some ws"])
       (auto simp: spells_clause_def clause_value_def sql_reads_connective sql_reads_def intro: bare_segment)
qed

definition term_words :: "OrderByTerm \<Rightarrow> sql_word list" where
  "term_words t = [WId (ob_property t), Wd (if ob_order t = DESC then ''DESC'' else ''ASC'')]"

lemma bare_term: "bare (term_words t)"
  by (auto simp: term_words_def bare_def closed_def grow_def enter_def weak_def)

lemma order_term_spells: "order_term ent t = Inr s \<Longrightarrow> spells s (term_words t)"
proof -
  have w: "sql_words (map Ch '' DESC'') = [Wd ''DESC'']" "sql_words (map Ch '' ASC'') = [Wd ''ASC'']"
    by code_simp+
  have g: "glue_after '' DESC''" "sep_start '' DESC''" "glue_after '' ASC''" "sep_start '' ASC''"
    by (simp_all add: glue_simps sep_start_def sep_char_def)
  note spells_after [OF spells_ident g(1,2), unfolded w] spells_after [OF spells_ident g(3,4), unfolded w]
  then show "order_term ent t = Inr s \<Longrightarrow> spells s (term_words t)"
    by (auto simp: order_term_def term_words_def split: option.splits SortOrder.splits)
qed

lemma clause_order_reads:
  assumes "mapE (order_term ent) ts = Inr terms"
  shows "\<exists>c so. spells_clause ''ORDER'' (order_clause terms) c \<and> (\<forall>ws. c = Some ws \<longrightarrow> segment ws)
    \<and> clause_value read_order c = Some so
    \<and> (case so of None \<Rightarrow> [] | Some us \<Rightarrow> us) = map (\<lambda>t. (ob_property t, ob_order t = DESC)) ts"
proof (cases "ts = []")
  case True
  with assms show ?thesis
    by (intro exI [of _ None]) (simp add: order_clause_def spells_clause_def clause_value_def)
next
  case False
  let ?wss = "map term_words ts"
  have b: "list_all bare ?wss" by (simp add: list_all_iff bare_term)
  have terms: "list_all2 spells terms ?wss"
    using assms order_term_spells by (auto simp: mapE_Inr_list_all2 list_all2_conv_all_nth)
  then have ne: "terms \<noteq> []" using False by auto
  have g: "glue ''BY ''" "sep_end ''BY ''" "sql_words (map Ch ''BY '') = [Wd ''BY'']"
    by (simp_all add: glue_simps sep_end_def sep_char_def) code_simp
  have sp: "spells (''BY '' @ join_with '', '' terms) (Wd ''BY'' # commas ?wss)"
    using spells_before [OF spells_commas [OF terms ne] g(1,2), unfolded g(3)] by simp
  have "segment [Wd ''BY'']" by (rule segment_word) (auto simp: clause_word_def)
  from segment_append [OF this segment_between [OF b]] False have seg: "segment (Wd ''BY'' # commas ?wss)" by simp
  have "those (map read_term ?wss) = Some (map (\<lambda>t. (ob_property t, ob_order t = DESC)) ts)"
    by (induction ts) (auto simp: read_term_def term_words_def)
  then have rd: "read_order (Wd ''BY'' # commas ?wss) = Some (map (\<lambda>t. (ob_property t, ob_order t = DESC)) ts)"
    using commas_split [OF b] False by (simp add: read_order_def comma_list_def)
  have "order_clause terms = ('' '' @ ''ORDER'' @ '' '') @ ''BY '' @ join_with '', '' terms"
    using ne by (simp add: order_clause_def)
  with sp seg rd show ?thesis
    by (intro exI [of _ "Some (Wd ''BY'' # commas ?wss)"]) (auto simp: spells_clause_def clause_value_def)
qed

lemma clause_count_reads:
  assumes "sql = (if 0 \<le> n then ('' '' @ key @ '' '') @ to_string n else [])"
  shows "\<exists>c. spells_clause key sql c \<and> (\<forall>ws. c = Some ws \<longrightarrow> segment ws)
    \<and> clause_value read_count c = Some (if 0 \<le> n then Some n else None)"
proof (cases "0 \<le> n")
  case True
  obtain ws where ws: "spells (to_string n) ws" "prim ws (SInt n)" using sql_reads_to_string by blast
  from sql_reads_connective(3) [OF prim_reads [OF ws(2)]] have "read_count ws = Some n"
    using True by (simp add: read_count_def)
  with ws True assms show ?thesis
    by (intro exI [of _ "Some ws"]) (auto simp: spells_clause_def clause_value_def prim_def intro: bare_segment)
next
  case False
  with assms show ?thesis by (intro exI [of _ None]) (simp add: spells_clause_def clause_value_def)
qed

section \<open>What a query asks for\<close>

definition column_name :: "EdmEntity \<Rightarrow> string \<Rightarrow> string" where
  "column_name ent n = (case find (same_name n) (e_properties ent) of Some p \<Rightarrow> p_name p | None \<Rightarrow> n)"

definition selected_columns :: "ODataQuery \<Rightarrow> EdmEntity \<Rightarrow> string list" where
  "selected_columns q ent =
     (if q_select q = [] then map p_name (e_properties ent) else map (column_name ent) (q_select q))"

definition selected_items :: "ODataQuery \<Rightarrow> EdmEntity \<Rightarrow> select_items" where
  "selected_items q ent =
     (if selected_columns q ent = [] then All_Columns else Columns (selected_columns q ent))"

definition order_keys :: "ODataQuery \<Rightarrow> (string \<times> bool) list" where
  "order_keys q = map (\<lambda>t. (ob_property t, ob_order t = DESC)) (q_order_by q)"

definition at_least_zero :: "int \<Rightarrow> int option" where
  "at_least_zero n = (if 0 \<le> n then Some n else None)"

definition query_statement :: "ODataQuery \<Rightarrow> EdmEntity \<Rightarrow> int \<Rightarrow> select_statement" where
  "query_statement q ent max_top =
     \<lparr>ss_items = selected_items q ent, ss_table = table_path ent,
      ss_where = map_option (sql_of ent) (q_filter q), ss_order = order_keys q,
      ss_limit = at_least_zero (effective_top q max_top), ss_offset = at_least_zero (q_skip q)\<rparr>"

definition count_statement :: "ODataQuery \<Rightarrow> EdmEntity \<Rightarrow> select_statement" where
  "count_statement q ent =
     \<lparr>ss_items = Count_As ''__odata_count'', ss_table = table_path ent,
      ss_where = map_option (sql_of ent) (q_filter q), ss_order = [], ss_limit = None, ss_offset = None\<rparr>"

text \<open>The filters the texts of which say what they mean.\<close>

definition clear_filter :: "ODataQuery \<Rightarrow> bool" where
  "clear_filter q \<longleftrightarrow> filter_ok flat q \<and> filter_ok finite_floats q"

lemma select_list_reads:
  assumes "CompileSelectList q ent = Inr s"
  shows "\<exists>ws. spells s ws \<and> segment ws \<and> read_items ws = Some (selected_items q ent)"
proof -
  have c: "map p_name ps = map (column_name ent) ns" if "mapE (select_property ent) ns = Inr ps" for ns ps
    using that by (induction ns arbitrary: ps)
      (auto simp: bindE_Inr_iff select_property_def column_name_def split: option.splits)
  from assms obtain ps where "s = select_text ps" "map p_name ps = selected_columns q ent"
    by (auto simp: CompileSelectList_def bindE_Inr_iff selected_columns_def c split: if_splits)
  moreover from this have "ps = [] \<longleftrightarrow> selected_columns q ent = []" by auto
  ultimately show ?thesis
    using spells_select_text [of ps] by (cases "ps = []") (simp_all add: selected_items_def)
qed

text \<open>The text of a statement, clause by clause.\<close>

lemma statement_reads:
  assumes items: "spells it iw" "segment iw" "read_items iw = Some si"
    and wh: "spells_clause ''WHERE'' wt wc" "\<forall>ws. wc = Some ws \<longrightarrow> segment ws" "clause_value (sql_read 0) wc = Some sw"
    and ord: "spells_clause ''ORDER'' ot oc" "\<forall>ws. oc = Some ws \<longrightarrow> segment ws" "clause_value read_order oc = Some so"
    and lim: "spells_clause ''LIMIT'' lt lc" "\<forall>ws. lc = Some ws \<longrightarrow> segment ws" "clause_value read_count lc = Some sl"
    and off: "spells_clause ''OFFSET'' kt kc" "\<forall>ws. kc = Some ws \<longrightarrow> segment ws" "clause_value read_count kc = Some sk"
  shows "sql_statement (''SELECT '' @ it @ '' FROM '' @ QuotedTable ent @ wt @ ot @ lt @ kt)
    = Some \<lparr>ss_items = si, ss_table = table_path ent, ss_where = sw,
        ss_order = (case so of None \<Rightarrow> [] | Some ts \<Rightarrow> ts), ss_limit = sl, ss_offset = sk\<rparr>"
proof -
  obtain tw where tw: "spells (QuotedTable ent) tw" "segment tw" "read_table tw = Some (table_path ent)"
    using spells_table by blast
  have s: "glue ''SELECT ''" "sep_end ''SELECT ''" "sql_words (map Ch ''SELECT '') = [Wd ''SELECT'']"
    by (simp_all add: glue_simps sep_end_def sep_char_def) code_simp
  have "spells (((((it @ ('' '' @ ''FROM'' @ '' '') @ QuotedTable ent) @ wt) @ ot) @ lt) @ kt)
      (((((iw @ Wd ''FROM'' # tw) @ opt_clause ''WHERE'' wc) @ opt_clause ''ORDER'' oc)
        @ opt_clause ''LIMIT'' lc) @ opt_clause ''OFFSET'' kc)"
    by (intro spells_add_clause spells_keyword items tw wh ord lim off) simp_all
  from spells_before [OF this s(1,2), unfolded s(3)]
  have "spells (''SELECT '' @ it @ '' FROM '' @ QuotedTable ent @ wt @ ot @ lt @ kt)
      (Wd ''SELECT'' # iw @ Wd ''FROM'' # tw @ opt_clause ''WHERE'' wc @ opt_clause ''ORDER'' oc
        @ opt_clause ''LIMIT'' lc @ opt_clause ''OFFSET'' kc)"
    by simp
  moreover have "read_select (Wd ''SELECT'' # iw @ Wd ''FROM'' # tw @ opt_clause ''WHERE'' wc
      @ opt_clause ''ORDER'' oc @ opt_clause ''LIMIT'' lc @ opt_clause ''OFFSET'' kc)
    = Some \<lparr>ss_items = si, ss_table = table_path ent, ss_where = sw,
        ss_order = (case so of None \<Rightarrow> [] | Some ts \<Rightarrow> ts), ss_limit = sl, ss_offset = sk\<rparr>"
    using wh(2) ord(2) lim(2) off(2)
    by (intro read_select_clauses items tw wh ord lim off) simp_all
  ultimately show ?thesis
    by (auto simp: spells_def sql_statement_def dest!: lexes_sql_lex)
qed

lemma no_clause: "spells_clause key [] None" "clause_value f None = Some None"
  by (simp_all add: spells_clause_def clause_value_def)

lemma limit_text: "limit_clause n = (if 0 \<le> n then ('' '' @ ''LIMIT'' @ '' '') @ to_string n else [])"
  by (simp add: limit_clause_def)

lemma offset_text:
  "offset_clause q = (if 0 \<le> q_skip q then ('' '' @ ''OFFSET'' @ '' '') @ to_string (q_skip q) else [])"
  by (simp add: offset_clause_def)

lemma CompileCollection_reads:
  assumes "sound_types ent" "CompileCollection q ent max_top = Inr cq" "clear_filter q"
  shows "sql_statement (cq_sql cq) = Some (query_statement q ent max_top)"
proof -
  from assms(2) obtain sl wh terms where parts: "CompileSelectList q ent = Inr sl"
    "CompileFilterText q ent = Inr wh" "mapE (order_term ent) (q_order_by q) = Inr terms"
    and sql: "cq_sql cq = ''SELECT '' @ sl @ '' FROM '' @ QuotedTable ent @ where_clause wh @
        order_clause terms @ limit_clause (effective_top q max_top) @ offset_clause q"
    by (auto simp: CompileCollection_def bindE_Inr_iff)
  obtain iw where iw: "spells sl iw" "segment iw" "read_items iw = Some (selected_items q ent)"
    using select_list_reads [OF parts(1)] by blast
  obtain wc where wc: "spells_clause ''WHERE'' (where_clause wh) wc" "\<forall>ws. wc = Some ws \<longrightarrow> segment ws"
    "clause_value (sql_read 0) wc = Some (map_option (sql_of ent) (q_filter q))"
    using clause_where_reads [OF assms(1) parts(2)] assms(3) by (auto simp: clear_filter_def)
  obtain oc so where oc: "spells_clause ''ORDER'' (order_clause terms) oc" "\<forall>ws. oc = Some ws \<longrightarrow> segment ws"
    "clause_value read_order oc = Some so" "(case so of None \<Rightarrow> [] | Some us \<Rightarrow> us) = order_keys q"
    using clause_order_reads [OF parts(3)] by (auto simp: order_keys_def)
  obtain lc where lc: "spells_clause ''LIMIT'' (limit_clause (effective_top q max_top)) lc"
    "\<forall>ws. lc = Some ws \<longrightarrow> segment ws" "clause_value read_count lc = Some (at_least_zero (effective_top q max_top))"
    using clause_count_reads [OF limit_text] unfolding at_least_zero_def by blast
  obtain kc where kc: "spells_clause ''OFFSET'' (offset_clause q) kc" "\<forall>ws. kc = Some ws \<longrightarrow> segment ws"
    "clause_value read_count kc = Some (at_least_zero (q_skip q))"
    using clause_count_reads [OF offset_text] unfolding at_least_zero_def by blast
  from statement_reads [OF iw wc oc(1-3) lc kc, of ent] oc(4) show ?thesis
    by (simp add: sql query_statement_def)
qed

lemma CompileCount_reads:
  assumes "sound_types ent" "CompileCount q ent = Inr cq" "clear_filter q"
  shows "sql_statement (cq_sql cq) = Some (count_statement q ent)"
proof -
  from assms(2) obtain wh where wh: "CompileFilterText q ent = Inr wh"
    and sql: "cq_sql cq = ''SELECT '' @ ''COUNT(*) AS __odata_count'' @ '' FROM '' @ QuotedTable ent @ where_clause wh"
    by (auto simp: CompileCount_def bindE_Inr_iff)
  obtain wc where wc: "spells_clause ''WHERE'' (where_clause wh) wc" "\<forall>ws. wc = Some ws \<longrightarrow> segment ws"
    "clause_value (sql_read 0) wc = Some (map_option (sql_of ent) (q_filter q))"
    using clause_where_reads [OF assms(1) wh] assms(3) by (auto simp: clear_filter_def)
  have w: "sql_words (map Ch ''COUNT(*) AS __odata_count'')
      = [Wd ''COUNT'', Wd ''('', Wd ''*'', Wd '')'', Wd ''AS'', Wd ''__odata_count'']" by code_simp
  have items: "spells ''COUNT(*) AS __odata_count'' (sql_words (map Ch ''COUNT(*) AS __odata_count''))"
    by (rule spells_plain) (simp add: plain_char_def)
  have i: "segment (sql_words (map Ch ''COUNT(*) AS __odata_count''))"
    "read_items (sql_words (map Ch ''COUNT(*) AS __odata_count'')) = Some (Count_As ''__odata_count'')"
    unfolding w by (simp_all add: segment_def closed_def clause_word_def grow_def enter_def read_items_def)
  note n = no_clause
  have nn: "\<forall>ws. None = Some ws \<longrightarrow> segment ws" by simp
  from statement_reads [OF items i wc n(1) nn n(2) n(1) nn n(2) n(1) nn n(2), of ent] show ?thesis
    by (simp only: sql append_Nil2 count_statement_def option.case)
qed

section \<open>One entity\<close>

definition key_value_sql :: "EdmProperty \<Rightarrow> string \<Rightarrow> sql_expr" where
  "key_value_sql p raw =
     (if p_edm_type p \<in> {EdmType.STRING, GUID, BINARY} then SStr (key_value raw)
      else SCast (SStr (key_value raw)) (type_words (p_duckdb_type p)))"

definition key_sql :: "EdmProperty \<Rightarrow> string \<Rightarrow> sql_expr" where
  "key_sql p raw = SCmp ''='' (SCol (p_name p)) (key_value_sql p raw)"

definition key_statement :: "ODataQuery \<Rightarrow> EdmEntity \<Rightarrow> string list \<Rightarrow> select_statement" where
  "key_statement q ent vs =
     (let conds = map2 key_sql (filter p_is_key (e_properties ent)) vs
      in \<lparr>ss_items = selected_items q ent, ss_table = table_path ent,
          ss_where = Some (foldl SAnd (hd conds) (tl conds)), ss_order = [],
          ss_limit = Some 1, ss_offset = None\<rparr>)"

definition sound_keys :: "EdmEntity \<Rightarrow> bool" where
  "sound_keys ent \<longleftrightarrow> list_all (\<lambda>p. p_is_key p \<longrightarrow> sound_type (p_duckdb_type p)) (e_properties ent)"

lemma spells_key_condition:
  assumes "sound_type (p_duckdb_type p)"
  shows "\<exists>ws. spells (key_condition p v) ws \<and> sql_reads ws (key_sql p v)"
proof -
  have "\<exists>ws. spells (KeyLiteralSql p v) ws \<and> prim ws (key_value_sql p v)"
    using spells_string prim_word [of "WStr (key_value v)" "SStr (key_value v)"] sql_reads_cast [OF assms]
    by (auto simp: KeyLiteralSql_def key_value_sql_def atom_def)
  then obtain w where w: "spells (KeyLiteralSql p v) w" "prim w (key_value_sql p v)" by blast
  have c: "prim [WId (p_name p)] (SCol (p_name p))" by (rule prim_word) (simp_all add: atom_def)
  have g: "glue_after '' = ''" "glue '' = ''" "sep_start '' = ''" "sep_end '' = ''" "sql_words (map Ch '' = '') = [Wd ''='']"
    by (simp_all add: glue_simps sep_start_def sep_end_def sep_char_def) code_simp
  from spells_append [OF spells_ident w(1) g(1-4), unfolded g(5)]
  have "spells (key_condition p v) ([WId (p_name p)] @ Wd ''='' # w)" by (simp add: key_condition_def)
  moreover have "sql_reads ([WId (p_name p)] @ Wd ''='' # w) (key_sql p v)"
    unfolding key_sql_def
    by (rule sql_reads_comparison [OF prim_reads [OF c] prim_single [OF c] w(2)]) (simp add: comparison_words_def)
  ultimately show ?thesis by blast
qed

text \<open>A chain of conditions with AND between them, without parentheses.\<close>

lemma sql_reads_chain:
  assumes "list_all2 sql_reads wss ts" "wss \<noteq> []"
  shows "sql_read 0 (between ''AND'' wss) = Some (foldl SAnd (hd ts) (tl ts))"
proof -
  have bare: "list_all bare wss"
    using assms(1) by (auto simp: list_all_iff sql_reads_def list_all2_conv_all_nth in_set_conv_nth)
  have "splits (\<lambda>w. w = Wd ''OR'') 0 (between ''AND'' wss) = [between ''AND'' wss]"
    by (rule between_free [OF bare assms(2)]) (simp_all add: weak_def)
  then have 0: "sql_read 0 (between ''AND'' wss) = sql_read 1 (between ''AND'' wss)"
    by (subst sql_read.simps) simp
  have sp: "splits (\<lambda>w. w = Wd ''AND'') 0 (between ''AND'' wss) = wss"
    using between_split [OF bare assms(2), of "''AND''"] by simp
  have "sql_read 1 (between ''AND'' wss) = Some (foldl SAnd (hd ts) (tl ts))"
  proof (cases "length wss = 1")
    case True
    then obtain ws t where "wss = [ws]" "ts = [t]" "sql_reads ws t"
      using assms(1) by (cases wss; cases ts) auto
    then show ?thesis using sql_reads_connective(2) by simp
  next
    case False
    have "map (sql_read 2) wss = map Some ts"
      using assms(1) by (induction rule: list_all2_induct) (simp_all add: sql_reads_connective)
    moreover have "those (map Some ts) = Some ts" by (induction ts) auto
    ultimately show ?thesis using False by (subst sql_read.simps) (simp add: sp chain_def)
  qed
  with 0 show ?thesis by simp
qed

lemma key_conditions_read:
  assumes "\<And>p. p \<in> set keys \<Longrightarrow> sound_type (p_duckdb_type p)" "length vs = length keys" "keys \<noteq> []"
  shows "\<exists>ws. spells (join_with '' AND '' (map2 key_condition keys vs)) ws \<and> segment ws
    \<and> sql_read 0 ws = Some (foldl SAnd (hd (map2 key_sql keys vs)) (tl (map2 key_sql keys vs)))"
proof -
  have "\<exists>ws. spells (key_condition (keys ! i) (vs ! i)) ws \<and> sql_reads ws (key_sql (keys ! i) (vs ! i))" if "i < length keys" for i
    using that by (intro spells_key_condition assms(1)) simp
  then obtain g where g: "\<And>i. i < length keys \<Longrightarrow> spells (key_condition (keys ! i) (vs ! i)) (g i)
      \<and> sql_reads (g i) (key_sql (keys ! i) (vs ! i))"
    by metis
  define wss where "wss = map g [0..<length keys]"
  have w: "list_all2 spells (map2 key_condition keys vs) wss" "list_all2 sql_reads wss (map2 key_sql keys vs)" "wss \<noteq> []"
    using g assms(2,3) by (auto simp: list_all2_conv_all_nth wss_def)
  have bare: "list_all bare wss"
    using w(2) by (auto simp: list_all_iff sql_reads_def list_all2_conv_all_nth in_set_conv_nth)
  have "map2 key_condition keys vs \<noteq> []" using w(1,3) by auto
  then have "spells (join_with '' AND '' (map2 key_condition keys vs)) (between ''AND'' wss)"
    using keyword_glue [of "''AND''"] by (intro spells_between [OF w(1)]) simp_all
  with segment_between [OF bare w(3), of "''AND''"] sql_reads_chain [OF w(2,3)] show ?thesis by auto
qed

lemma CompileByKey_reads:
  assumes "sound_keys ent" "CompileByKey q ent vs = Inr cq"
  shows "sql_statement (cq_sql cq) = Some (key_statement q ent vs)"
proof -
  define keys where "keys = filter p_is_key (e_properties ent)"
  from assms(2) obtain sl where sl: "CompileSelectList q ent = Inr sl" "length vs = length keys" "keys \<noteq> []"
    and sql: "cq_sql cq = ''SELECT '' @ sl @ '' FROM '' @ QuotedTable ent @
        (('' '' @ ''WHERE'' @ '' '') @ join_with '' AND '' (map2 key_condition keys vs)) @ [] @ '' LIMIT 1'' @ []"
    by (auto simp: CompileByKey_def Let_def bindE_Inr_iff keys_def split: if_splits)
  have "sound_type (p_duckdb_type p)" if "p \<in> set keys" for p
    using that assms(1) by (auto simp: keys_def sound_keys_def list_all_iff)
  from key_conditions_read [OF this sl(2,3)] obtain ws where
    ws: "spells (join_with '' AND '' (map2 key_condition keys vs)) ws" "segment ws"
    "sql_read 0 ws = Some (foldl SAnd (hd (map2 key_sql keys vs)) (tl (map2 key_sql keys vs)))" by blast
  obtain iw where iw: "spells sl iw" "segment iw" "read_items iw = Some (selected_items q ent)"
    using select_list_reads [OF sl(1)] by blast
  have one: "'' LIMIT 1'' = (if 0 \<le> (1::int) then ('' '' @ ''LIMIT'' @ '' '') @ to_string 1 else [])"
    by code_simp
  obtain lc where lc: "spells_clause ''LIMIT'' '' LIMIT 1'' lc" "\<forall>ws. lc = Some ws \<longrightarrow> segment ws"
    "clause_value read_count lc = Some (Some 1)"
    using clause_count_reads [OF one] by auto
  have wc: "spells_clause ''WHERE'' (('' '' @ ''WHERE'' @ '' '') @ join_with '' AND '' (map2 key_condition keys vs)) (Some ws)"
    "\<forall>v. Some ws = Some v \<longrightarrow> segment v"
    "clause_value (sql_read 0) (Some ws) = Some (Some (foldl SAnd (hd (map2 key_sql keys vs)) (tl (map2 key_sql keys vs))))"
    using ws by (auto simp: spells_clause_def clause_value_def)
  have nn: "\<forall>ws. None = Some ws \<longrightarrow> segment ws" by simp
  from statement_reads [OF iw wc no_clause(1) nn no_clause(2) lc no_clause(1) nn no_clause(2), of ent]
  show ?thesis unfolding sql key_statement_def Let_def keys_def by simp
qed

end
