(* ===== verification/Query_Meaning.thy ===== *)
theory Query_Meaning
  imports "HOL-Library.Multiset" Compiled_Statement Odata_Server
begin

text \<open>
  What a query means, on a table whose rows are functions from lower-cased column names to values.
  DuckDB's comparison, functions, casts and sort order are parameters; the logic of AND, OR, NOT and
  of the null tests is that of SQL, with the third truth value for NULL. \<open>sql_value\<close> evaluates an
  expression read from SQL text (a mark has no value in a query), \<open>filter_value\<close> a filter of a request.
\<close>

type_synonym sql_row = "string \<Rightarrow> dvalue"

record sql_db =
  sd_columns :: "string list"
  sd_rows :: "sql_row list"
  sd_int :: "int \<Rightarrow> dvalue"
  sd_decimal :: "bool \<Rightarrow> nat \<Rightarrow> nat \<Rightarrow> dvalue"
  sd_string :: "string \<Rightarrow> dvalue"
  sd_bool :: "bool option \<Rightarrow> dvalue"
  sd_truth :: "dvalue \<Rightarrow> bool option"
  sd_compare :: "string \<Rightarrow> dvalue \<Rightarrow> dvalue \<Rightarrow> bool option"
  sd_call :: "string \<Rightarrow> dvalue list \<Rightarrow> dvalue"
  sd_cast :: "dvalue \<Rightarrow> sql_word list \<Rightarrow> dvalue"
  sd_key :: "bool \<Rightarrow> dvalue \<Rightarrow> int"

section \<open>Three-valued logic\<close>

definition not3 :: "bool option \<Rightarrow> bool option" where
  "not3 a = map_option Not a"

definition and3 :: "bool option \<Rightarrow> bool option \<Rightarrow> bool option" where
  "and3 a b = (if a = Some False \<or> b = Some False then Some False
     else if a = None \<or> b = None then None else Some True)"

definition or3 :: "bool option \<Rightarrow> bool option \<Rightarrow> bool option" where
  "or3 a b = not3 (and3 (not3 a) (not3 b))"

section \<open>Expressions\<close>

fun sql_value :: "sql_db \<Rightarrow> sql_row \<Rightarrow> sql_expr \<Rightarrow> dvalue" where
  "sql_value M r (SCol n) = r (ToLower n)"
| "sql_value M r (SStr s) = sd_string M s"
| "sql_value M r (SInt i) = sd_int M i"
| "sql_value M r (SDec neg n k) = sd_decimal M neg n k"
| "sql_value M r STrue = sd_bool M (Some True)"
| "sql_value M r SFalse = sd_bool M (Some False)"
| "sql_value M r SNull = sd_bool M None"
| "sql_value M r SMark = sd_bool M None"
| "sql_value M r (SNot a) = sd_bool M (not3 (sd_truth M (sql_value M r a)))"
| "sql_value M r (SAnd a b) = sd_bool M (and3 (sd_truth M (sql_value M r a)) (sd_truth M (sql_value M r b)))"
| "sql_value M r (SOr a b) = sd_bool M (or3 (sd_truth M (sql_value M r a)) (sd_truth M (sql_value M r b)))"
| "sql_value M r (SCmp f a b) = sd_bool M (sd_compare M f (sql_value M r a) (sql_value M r b))"
| "sql_value M r (SIsNull a) = sd_bool M (Some (dv_null (sql_value M r a)))"
| "sql_value M r (SIsNotNull a) = sd_bool M (Some (\<not> dv_null (sql_value M r a)))"
| "sql_value M r (SCall f args) = sd_call M f (map (sql_value M r) args)"
| "sql_value M r (SCast a ty) = sd_cast M (sql_value M r a) ty"

text \<open>The meaning of a filter: a literal next to an operator has the type of the other operand.\<close>

fun literal_value :: "sql_db \<Rightarrow> string \<Rightarrow> LiteralExpr \<Rightarrow> dvalue" where
  "literal_value M ty NullLit = sd_bool M None"
| "literal_value M ty (BooleanLit b) = sd_bool M (Some b)"
| "literal_value M ty (IntegerLit i) = sd_int M i"
| "literal_value M ty (FloatLit d) = sd_decimal M (negative d) (millionths d) 6"
| "literal_value M ty (StringLit s) =
     (if BaseTypeOf ty = [] \<or> IsStringBase (BaseTypeOf ty) then sd_string M s
      else sd_cast M (sd_string M s) (type_words ty))"

definition operator_value :: "sql_db \<Rightarrow> BinaryOp \<Rightarrow> dvalue \<Rightarrow> dvalue \<Rightarrow> bool option" where
  "operator_value M op x y =
     (if op = BinaryOp.AND then and3 (sd_truth M x) (sd_truth M y)
      else if op = BinaryOp.OR then or3 (sd_truth M x) (sd_truth M y)
      else sd_compare M (sql_op op) x y)"

fun filter_value :: "sql_db \<Rightarrow> EdmEntity \<Rightarrow> sql_row \<Rightarrow> Expr \<Rightarrow> dvalue" where
  "filter_value M ent r (PropertyExpr name) = r (ToLower name)"
| "filter_value M ent r (Literal lit) = literal_value M [] lit"
| "filter_value M ent r (UnaryExpr op e) = sd_bool M (not3 (sd_truth M (filter_value M ent r e)))"
| "filter_value M ent r (BinaryExpr op x y) =
     sd_bool M
       (if null_form op x y then Some (dv_null (filter_value M ent r y) = (op = BinaryOp.EQ))
        else if null_form op y x then Some (dv_null (filter_value M ent r x) = (op = BinaryOp.EQ))
        else operator_value M op
          (case x of Literal lit \<Rightarrow> literal_value M (ResolveLiteralType ent y) lit | _ \<Rightarrow> filter_value M ent r x)
          (case y of Literal lit \<Rightarrow> literal_value M (ResolveLiteralType ent x) lit | _ \<Rightarrow> filter_value M ent r y))"
| "filter_value M ent r (FunctionCallExpr name args) =
     sd_call M (function_sql name) (map (filter_value M ent r) args)"

lemma sql_value_literal: "sql_value M r (literal_sql lit ty) = literal_value M ty lit"
  by (cases lit) auto

lemma sql_value_op: "sql_value M r (op_sql op x y) = sd_bool M (operator_value M op (sql_value M r x) (sql_value M r y))"
  by (cases op) (simp_all add: op_sql_def operator_value_def sql_op_def)

lemma sql_value_sql_of:
  assumes "Compile ent e = Inr sql"
  shows "sql_value M r (sql_of ent e) = filter_value M ent r e"
  using assms
proof (induction e arbitrary: sql)
  case (PropertyExpr name)
  then show ?case
    by (auto simp: ResolveProperty_def column_sql_def split: option.splits dest: property_index_Some)
next
  case (UnaryExpr op e)
  then show ?case by (auto simp: bindE_Inr_iff)
next
  case (BinaryExpr op x y)
  have nf: "op = BinaryOp.EQ \<or> op = BinaryOp.NE" if "null_form op a b" for a b using that by (simp add: null_form_def)
  have opnd: "sql_value M r (case e of Literal lit \<Rightarrow> literal_sql lit ty | _ \<Rightarrow> sql_of ent e)
      = (case e of Literal lit \<Rightarrow> literal_value M ty lit | _ \<Rightarrow> filter_value M ent r e)"
    if "\<not> is_literal e \<Longrightarrow> sql_value M r (sql_of ent e) = filter_value M ent r e" for e ty
    using that by (cases e) (auto simp: sql_value_literal simp del: sql_of.simps filter_value.simps)
  from BinaryExpr.prems have sub: "\<not> is_literal x \<Longrightarrow> \<exists>s. Compile ent x = Inr s" "\<not> is_literal y \<Longrightarrow> \<exists>s. Compile ent y = Inr s"
    by (auto simp: Compile_Binary bindE_Inr_iff operand_nonliteral IsNullLit_def split: if_splits)
  then have IH: "\<not> is_literal x \<Longrightarrow> sql_value M r (sql_of ent x) = filter_value M ent r x"
    "\<not> is_literal y \<Longrightarrow> sql_value M r (sql_of ent y) = filter_value M ent r y"
    using BinaryExpr.IH by blast+
  have lits: "\<not> is_literal y" if "null_form op x y" using that by (simp add: null_form_def)
  have lits': "\<not> is_literal x" if "null_form op y x" using that by (simp add: null_form_def)
  show ?case
    using IH opnd [OF IH(1)] opnd [OF IH(2)] lits lits' nf
    by (auto simp: null_sql_def sql_value_op)
next
  case (FunctionCallExpr name args)
  from FunctionCallExpr.prems obtain a f lo hi where f: "find_function (ToLower name) = Some (a, f, lo, hi)"
    "lo \<le> length args" "length args \<le> hi"
    by (auto simp: Let_def split: option.splits prod.splits if_splits)
  have "\<exists>s. Compile ent e = Inr s" if "e \<in> set args" for e
  proof (cases "ToLower name = ''now''")
    case True
    with f find_functionD(3) [OF f(1)] that show ?thesis by auto
  next
    case False
    with FunctionCallExpr.prems f that show ?thesis
      by (auto simp: Let_def bindE_Inr_iff mapE_Inr_list_all2 list_all2_conv_all_nth in_set_conv_nth split: if_splits)
  qed
  with FunctionCallExpr.IH have "sql_value M r (sql_of ent e) = filter_value M ent r e" if "e \<in> set args" for e
    using that by blast
  then have "map (sql_value M r) (map (sql_of ent) args) = map (filter_value M ent r) args"
    by simp
  then show ?case by (simp only: sql_of.simps sql_value.simps filter_value.simps)
qed (simp add: sql_value_literal)

section \<open>Statements\<close>

text \<open>The rows of a condition; without one, all rows.\<close>

definition holds :: "sql_db \<Rightarrow> sql_row \<Rightarrow> sql_expr option \<Rightarrow> bool" where
  "holds M r c = (case c of None \<Rightarrow> True | Some e \<Rightarrow> sd_truth M (sql_value M r e) = Some True)"

text \<open>
  The order of two rows under a list of columns with their directions; \<open>sd_key\<close> ranks the values of
  a column, NULL included, for ascending or descending order.
\<close>

fun row_le :: "sql_db \<Rightarrow> (string \<times> bool) list \<Rightarrow> sql_row \<Rightarrow> sql_row \<Rightarrow> bool" where
  "row_le M [] r s = True"
| "row_le M ((n, desc) # ks) r s =
     (let a = sd_key M desc (r (ToLower n)); b = sd_key M desc (s (ToLower n))
      in if a = b then row_le M ks r s else a < b)"

text \<open>A part of some ordering of the rows that are kept; rows with equal keys may come in any order.\<close>

definition ordered_part :: "sql_db \<Rightarrow> (sql_row \<Rightarrow> bool) \<Rightarrow> (string \<times> bool) list \<Rightarrow> int option \<Rightarrow> int option \<Rightarrow> sql_row list \<Rightarrow> bool" where
  "ordered_part M keep keys limit offset rs \<longleftrightarrow>
     (\<exists>all. mset all = mset (filter keep (sd_rows M)) \<and> sorted_wrt (row_le M keys) all
        \<and> rs = (case limit of None \<Rightarrow> (\<lambda>xs. xs) | Some n \<Rightarrow> take (nat n))
                 (drop (nat (case offset of None \<Rightarrow> 0 | Some k \<Rightarrow> k)) all))"

definition project :: "string list \<Rightarrow> sql_row list \<Rightarrow> dvalue list list" where
  "project cs rs = map (\<lambda>r. map (\<lambda>c. r (ToLower c)) cs) rs"

definition item_columns :: "sql_db \<Rightarrow> select_items \<Rightarrow> string list" where
  "item_columns M items = (case items of Columns cs \<Rightarrow> cs | All_Columns \<Rightarrow> sd_columns M | Count_As n \<Rightarrow> [n])"

definition count_value :: "nat \<Rightarrow> dvalue \<Rightarrow> bool" where
  "count_value n v \<longleftrightarrow> \<not> dv_null v \<and> dv_type v = LT_BIGINT \<and> dv_text v = to_string (int n) \<and> dv_int64 v = Inr (int n)"

definition select_result :: "sql_db \<Rightarrow> select_statement \<Rightarrow> string list \<Rightarrow> dvalue list list \<Rightarrow> bool" where
  "select_result M stmt names rows \<longleftrightarrow>
     names = item_columns M (ss_items stmt)
     \<and> (case ss_items stmt of
          Count_As n \<Rightarrow> \<exists>v. rows = [[v]] \<and> count_value (length (filter (\<lambda>r. holds M r (ss_where stmt)) (sd_rows M))) v
        | _ \<Rightarrow> \<exists>rs. rows = project names rs
                \<and> ordered_part M (\<lambda>r. holds M r (ss_where stmt)) (ss_order stmt) (ss_limit stmt) (ss_offset stmt) rs)"

text \<open>
  \<open>obeys D ms M table\<close>: a statement on the table that can be read, and that the database executes
  without an error, has the result that its reading says. \<open>Fetch\<close> gives no empty chunk.
\<close>

definition obeys :: "'db duck \<Rightarrow> int \<Rightarrow> sql_db \<Rightarrow> string list \<Rightarrow> bool" where
  "obeys D ms M table \<longleftrightarrow>
     (\<forall>sql stmt s r s'. sql_statement sql = Some stmt \<longrightarrow> ss_table stmt = table \<longrightarrow>
        ExecuteQuery D sql ms s = (Inr r, s') \<longrightarrow> qr_error r = None \<longrightarrow>
        [] \<notin> set (qr_chunks r) \<and> select_result M stmt (qr_names r) (result_rows r))"

lemma obeysD:
  "obeys D ms M table \<Longrightarrow> sql_statement sql = Some stmt \<Longrightarrow> ss_table stmt = table \<Longrightarrow>
     ExecuteQuery D sql ms s = (Inr r, s') \<Longrightarrow> qr_error r = None \<Longrightarrow>
     [] \<notin> set (qr_chunks r) \<and> select_result M stmt (qr_names r) (result_rows r)"
  unfolding obeys_def by blast

text \<open>The rows that a query asks for.\<close>

definition matches :: "sql_db \<Rightarrow> EdmEntity \<Rightarrow> ODataQuery \<Rightarrow> sql_row \<Rightarrow> bool" where
  "matches M ent q r =
     (case q_filter q of None \<Rightarrow> True | Some f \<Rightarrow> sd_truth M (filter_value M ent r f) = Some True)"

lemma holds_matches:
  assumes "CompileFilterText q ent = Inr wh"
  shows "holds M r (map_option (sql_of ent) (q_filter q)) = matches M ent q r"
  using assms sql_value_sql_of
  by (auto simp: holds_def matches_def CompileFilterText_def split: option.splits)

end
