(* ===== verification/Parsed_Filters.thy ===== *)
theory Parsed_Filters
  imports Filter_Parser Compiled_Filter
begin

text \<open>
  The float literals of a filter that was parsed are finite numbers: the tokenizer takes them from
  \<open>std::stod\<close>, which raises an exception otherwise, and the parser makes no others.
\<close>

definition finite_tokens :: "Token list \<Rightarrow> bool" where
  "finite_tokens ts \<longleftrightarrow> list_all (\<lambda>t. is_finite (float_value t)) ts"

lemma finite_tokens_simps [simp]:
  "finite_tokens []" "finite_tokens (t # ts) \<longleftrightarrow> is_finite (float_value t) \<and> finite_tokens ts"
  "finite_tokens (us @ ts) \<longleftrightarrow> finite_tokens us \<and> finite_tokens ts"
  by (simp_all add: finite_tokens_def)

lemma finite_mk_token [simp]: "is_finite (float_value (mk_token t s ln))"
  by (simp add: mk_token_def)

lemma finite_word_token [simp]: "is_finite (float_value (word_token txt ln))"
  by (simp add: word_token_def Let_def)

lemma token_step_finite: "token_step ln c cs = Inr (us, ln', rest) \<Longrightarrow> finite_tokens us"
proof -
  have "is_finite (float_value t)" if "number_token w fl n = Inr t" for w fl n t
    using that stod_finite by (auto simp: number_token_def bindE_Inr_iff split: if_splits)
  then show "token_step ln c cs = Inr (us, ln', rest) \<Longrightarrow> finite_tokens us"
    by (auto simp: token_step_def bindE_Inr_iff split: if_splits option.splits prod.splits)
qed

lemma tokenize_finite: "tokenize_from ln s = Inr ts \<Longrightarrow> finite_tokens ts"
proof (induction ln s arbitrary: ts rule: tokenize_from_induct)
  case (Step ln c cs)
  then show ?case by (auto simp: tokenize_from_step bindE_Inr_iff dest: token_step_finite)
qed auto

section \<open>The parser\<close>

lemma Match_finite: "Match ty ts = Inr (b, r) \<Longrightarrow> finite_tokens ts \<Longrightarrow> finite_tokens r"
  by (cases ts) (auto simp: Match_def split: if_splits)

lemma Expect_finite: "Expect ty w ts = Inr r \<Longrightarrow> finite_tokens ts \<Longrightarrow> finite_tokens r"
  by (cases ts) (auto simp: Expect_def split: if_splits)

lemma Peek_finite: "Peek ts = Inr t \<Longrightarrow> finite_tokens ts \<Longrightarrow> is_finite (float_value t) \<and> finite_tokens (tl ts)"
  by (cases ts) (auto simp: Peek_def)

lemma literal_of_finite:
  "literal_of t = Some lit \<Longrightarrow> is_finite (float_value t) \<Longrightarrow> finite_floats (Literal lit)"
  by (auto simp: literal_of_def split: TokenType.splits)

text \<open>What a parsing function keeps: finite tokens in, a finite result and finite tokens out.\<close>

definition keeps_finite :: "('a \<Rightarrow> bool) \<Rightarrow> Token list \<Rightarrow> 'a parse_result \<Rightarrow> bool" where
  "keeps_finite P ts res \<longleftrightarrow>
     (finite_tokens ts \<longrightarrow> (case res of Inl e \<Rightarrow> True | Inr (x, r) \<Rightarrow> P x \<and> finite_tokens r))"

lemma keeps_finite_Inl [simp]: "keeps_finite P ts (Inl e)"
  by (simp add: keeps_finite_def)

lemma keeps_finite_Inr [simp]: "keeps_finite P ts (Inr (x, r)) \<longleftrightarrow> (finite_tokens ts \<longrightarrow> P x \<and> finite_tokens r)"
  by (simp add: keeps_finite_def)

lemma keeps_finite_bind:
  assumes "keeps_finite Q ts m"
    and "\<And>x r. m = Inr (x, r) \<Longrightarrow> Q x \<Longrightarrow> finite_tokens ts \<Longrightarrow> finite_tokens r \<Longrightarrow> keeps_finite P ts (f (x, r))"
  shows "keeps_finite P ts (bindE m f)"
  using assms by (cases m) (auto simp: keeps_finite_def)

lemma keeps_finite_rest: "keeps_finite P r res \<Longrightarrow> finite_tokens r \<Longrightarrow> keeps_finite P ts res"
  by (simp add: keeps_finite_def)

lemma keeps_Match: "keeps_finite (\<lambda>b. True) ts (Match ty ts)"
  by (auto simp: keeps_finite_def split: sum.splits dest: Match_finite)

lemma keeps_Peek:
  assumes "\<And>t. is_finite (float_value t) \<Longrightarrow> finite_tokens ts \<Longrightarrow> finite_tokens (tl ts) \<Longrightarrow> keeps_finite P us (f t)" "finite_tokens ts"
  shows "keeps_finite P us (bindE (Peek ts) f)"
  using assms by (cases "Peek ts") (auto dest: Peek_finite)

lemma keeps_Expect:
  assumes "\<And>r. finite_tokens r \<Longrightarrow> keeps_finite P us (f r)" "finite_tokens ts"
  shows "keeps_finite P us (bindE (Expect ty w ts) f)"
  using assms by (cases "Expect ty w ts") (auto dest: Expect_finite)

definition finite_at :: "nat \<Rightarrow> bool" where
  "finite_at n \<longleftrightarrow> (\<forall>ts. keeps_finite finite_floats ts (ParseOr n ts) \<and> keeps_finite finite_floats ts (ParseAnd n ts)
     \<and> keeps_finite finite_floats ts (ParseNot n ts) \<and> keeps_finite finite_floats ts (ParseComparison n ts)
     \<and> keeps_finite finite_floats ts (ParsePrimary n ts) \<and> keeps_finite (list_all finite_floats) ts (args_loop n ts)
     \<and> (\<forall>e. finite_floats e \<longrightarrow> keeps_finite finite_floats ts (or_loop n e ts) \<and> keeps_finite finite_floats ts (and_loop n e ts)))"

lemma finite_atD:
  assumes "finite_at n"
  shows "keeps_finite finite_floats ts (ParseOr n ts)" "keeps_finite finite_floats ts (ParseAnd n ts)"
    "keeps_finite finite_floats ts (ParseNot n ts)" "keeps_finite finite_floats ts (ParseComparison n ts)"
    "keeps_finite finite_floats ts (ParsePrimary n ts)" "keeps_finite (list_all finite_floats) ts (args_loop n ts)"
    "finite_floats e \<Longrightarrow> keeps_finite finite_floats ts (or_loop n e ts)"
    "finite_floats e \<Longrightarrow> keeps_finite finite_floats ts (and_loop n e ts)"
  using assms unfolding finite_at_def by blast+

lemmas finite_calls = finite_atD [THEN keeps_finite_rest]

lemma finite_not_assumed: "(finite_tokens ts \<Longrightarrow> keeps_finite P ts res) \<Longrightarrow> keeps_finite P ts res"
  by (auto simp: keeps_finite_def)

lemma finite_at_all: "finite_at n"
proof (induction n)
  case (Suc n)
  note c = finite_calls [OF Suc]
  have or_loop: "keeps_finite finite_floats ts (or_loop (Suc n) e ts)"
    and and_loop: "keeps_finite finite_floats ts (and_loop (Suc n) e ts)" if "finite_floats e" for e ts
    using that by (auto intro!: keeps_finite_bind [OF keeps_Match] keeps_finite_bind [OF c(2)] keeps_finite_bind [OF c(3)] c)
  have "keeps_finite finite_floats ts (ParseOr (Suc n) ts)" "keeps_finite finite_floats ts (ParseAnd (Suc n) ts)" for ts
    by (auto intro!: keeps_finite_bind [OF finite_atD(2) [OF Suc]] keeps_finite_bind [OF finite_atD(3) [OF Suc]] c)
  moreover have "keeps_finite finite_floats ts (ParseNot (Suc n) ts)" for ts
    by (auto intro!: keeps_finite_bind [OF keeps_Match] keeps_finite_bind [OF c(3)] c)
  moreover have "keeps_finite finite_floats ts (ParseComparison (Suc n) ts)" for ts
    by (auto intro!: keeps_finite_bind [OF finite_atD(5) [OF Suc]] keeps_Peek keeps_finite_bind [OF c(5)] split: option.split)
  moreover have "keeps_finite finite_floats ts (ParsePrimary (Suc n) ts)" for ts
    by (rule finite_not_assumed)
       (auto intro!: keeps_Peek keeps_finite_bind [OF c(1)] keeps_Expect keeps_finite_bind [OF keeps_finite_rest [OF keeps_Match]]
          keeps_finite_bind [OF c(6)] split: option.split, rule literal_of_finite)
  moreover have "keeps_finite (list_all finite_floats) ts (args_loop (Suc n) ts)" for ts
    by (auto intro!: keeps_finite_bind [OF finite_atD(1) [OF Suc]] keeps_finite_bind [OF keeps_finite_rest [OF keeps_Match]]
          keeps_Expect keeps_finite_bind [OF c(6)])
  ultimately show ?case using or_loop and_loop unfolding finite_at_def by blast
qed (simp add: finite_at_def)

lemma ParseFilter_finite: "ParseFilter flt = Inr e \<Longrightarrow> finite_floats e"
proof -
  assume "ParseFilter flt = Inr e"
  then obtain ts r where "Tokenize flt = Inr ts" "ParseOr (parse_fuel ts) ts = Inr (e, r)"
    by (auto simp: ParseFilter_def Parse_def bindE_Inr_iff split: if_splits)
  then show "finite_floats e"
    using finite_atD(1) [OF finite_at_all, of ts "parse_fuel ts"] tokenize_finite [of 1 flt ts]
    by (simp add: keeps_finite_def Tokenize_def)
qed

end
