(* ===== verification/Query_Answers.thy ===== *)
theory Query_Answers
  imports Query_Meaning Parsed_Filters Generated_Sql
begin

text \<open>
  A collection request answered with 200 holds the rows that the query asks for: on a database that
  executes statements as they are read, the body has the rows that match the filter, ordered and cut
  as asked, with the columns asked for, and the number of matching rows when it was asked for.
\<close>

section \<open>The parts of a collection response\<close>

lemma internal_error_status [simp]: "rs_status (internal_error e) = 500"
  by (simp add: internal_error_def MakeError_def MakeJson_def)

lemma bindD_InrE:
  assumes "bindD m f db = (Inr y, db'')"
  obtains (Bind) x db' where "m db = (Inr x, db')" "f x db' = (Inr y, db'')"
  using assms by (auto simp: bindD_eq_Inr)

definition count_member :: "sql_db \<Rightarrow> EdmEntity \<Rightarrow> ODataQuery \<Rightarrow> string" where
  "count_member M ent q =
     (if q_count q
      then '',\"@odata.count\":'' @ to_string (int (length (filter (matches M ent q) (sd_rows M)))) else [])"

lemma count_value_json: "count_value n v \<Longrightarrow> ValueToJson v = to_string (int n)"
  by (simp add: count_value_def ValueToJson_def number_types_def)

lemma count_part_answers:
  assumes types: "sound_types ent" and clear: "clear_filter q"
    and db: "obeys D (st_query_timeout_ms st) M (table_path ent)"
    and count: "q_count q \<Longrightarrow> CompileCount q ent = Inr cc" and run: "count_part D st q (cq_sql cc) s = (Inr c, s')"
  shows "case c of Inl resp \<Rightarrow> rs_status resp = 500 | Inr (n, w) \<Rightarrow> w = count_member M ent q"
proof (cases "q_count q")
  case False
  with run show ?thesis by (auto simp: count_part_def count_member_def)
next
  case True
  from run True obtain r s1 where r: "ExecuteQuery D (cq_sql cc) (st_query_timeout_ms st) s = (Inr r, s1)"
    by (auto simp: count_part_def bindD_eq_Inr)
  show ?thesis
  proof (cases "qr_error r")
    case (Some e)
    with run True r show ?thesis by (auto simp: count_part_def bindD_Inr)
  next
    case None
    have wh: "\<exists>wh. CompileFilterText q ent = Inr wh"
      using count [OF True] by (auto simp: CompileCount_def bindE_Inr_iff)
    from obeysD [OF db CompileCount_reads [OF types count [OF True] clear] _ r None]
    have ch: "[] \<notin> set (qr_chunks r)" and "select_result M (count_statement q ent) (qr_names r) (result_rows r)"
      by (simp_all add: count_statement_def)
    then obtain v where v: "concat (qr_chunks r) = [[v]]"
      "count_value (length (filter (matches M ent q) (sd_rows M))) v"
      using wh by (auto simp: select_result_def count_statement_def result_rows_def holds_matches)
    then have "qr_chunks r = [[[v]]]"
      using ch by (cases "qr_chunks r") (auto simp: append_eq_Cons_conv concat_eq_Nil_conv, (metis list.set_intros(1) last_in_set)+)
    with run True r None v count_value_json [OF v(2)] show ?thesis
      by (auto simp: count_part_def bindD_Inr first_cell_def cell_def count_member_def count_value_def)
  qed
qed

lemma more_part_error: "more_part D st q ent paged n rows s = (Inr (Inl resp), s') \<Longrightarrow> rs_status resp = 500"
  by (auto simp: more_part_def bindD_eq_Inr liftD_def returnD_def split: if_splits option.splits sum.splits prod.splits)

lemma compiled_columns:
  assumes "CompileCollection q ent max_top = Inr cq"
  shows "\<exists>wh. CompileFilterText q ent = Inr wh"
  using assms by (auto simp: CompileCollection_def bindE_Inr_iff)

lemma collection_rows:
  assumes types: "sound_types ent" and clear: "clear_filter q"
    and db: "obeys D ms M (table_path ent)"
    and cq: "CompileCollection q ent max_top = Inr cq"
    and run: "ExecuteQuery D (cq_sql cq) ms s = (Inr r, s')" "qr_error r = None"
  shows "\<exists>rs. qr_names r = item_columns M (selected_items q ent)
    \<and> result_rows r = project (item_columns M (selected_items q ent)) rs
    \<and> ordered_part M (matches M ent q) (order_keys q) (at_least_zero (effective_top q max_top)) (at_least_zero (q_skip q)) rs"
proof -
  obtain wh where wh: "CompileFilterText q ent = Inr wh" using compiled_columns [OF cq] by blast
  from obeysD [OF db CompileCollection_reads [OF types cq clear] _ run]
  have "select_result M (query_statement q ent max_top) (qr_names r) (result_rows r)"
    by (simp add: query_statement_def)
  with wh show ?thesis
    by (auto simp: select_result_def query_statement_def selected_items_def holds_matches
        split: if_splits)
qed

text \<open>The query that is compiled: with server-driven paging, the page size is its $top.\<close>

definition page_query :: "ODataServerState \<Rightarrow> ODataQuery \<Rightarrow> ODataQuery" where
  "page_query st q = fst (paged_query st q)"

lemma page_query_simps [simp]:
  "q_filter (page_query st q) = q_filter q" "q_select (page_query st q) = q_select q"
  "q_order_by (page_query st q) = q_order_by q" "q_skip (page_query st q) = q_skip q"
  "q_count (page_query st q) = q_count q"
  by (simp_all add: page_query_def paged_query_def)

lemma page_query_same:
  "clear_filter (page_query st q) = clear_filter q" "matches M ent (page_query st q) = matches M ent q"
  "order_keys (page_query st q) = order_keys q" "selected_items (page_query st q) ent = selected_items q ent"
  "count_member M ent (page_query st q) = count_member M ent q"
  by (simp_all add: clear_filter_def filter_ok_def matches_def [abs_def] order_keys_def selected_items_def selected_columns_def
      count_member_def)

definition answered :: "sql_db \<Rightarrow> ODataServerState \<Rightarrow> EdmEntity \<Rightarrow> ODataQuery \<Rightarrow> string \<Rightarrow> bool" where
  "answered M st ent q body \<longleftrightarrow>
     (\<exists>rs link. ordered_part M (matches M ent q) (order_keys q)
          (at_least_zero (effective_top (page_query st q) (st_max_top st))) (at_least_zero (q_skip q)) rs
        \<and> (link = [] \<or> has_prefix '',\"@odata.nextLink\":'' link)
        \<and> body = context_text st ent False @ count_member M ent q @ link @ '',\"value\":['' @
            join_with '','' (map (row_json (item_columns M (selected_items q ent)))
              (project (item_columns M (selected_items q ent)) rs)) @ '']}'')"

lemma handle_collection_answers:
  assumes types: "sound_types ent" and clear: "clear_filter q"
    and db: "obeys D (st_query_timeout_ms st) M (table_path ent)"
    and run: "handle_collection D st rq q ent s = (Inr resp, s')" and ok: "rs_status resp = 200"
  shows "answered M st ent q (rs_body resp)"
proof -
  obtain q' paged where q': "paged_query st q = (q', paged)" "q' = page_query st q"
    by (cases "paged_query st q") (simp add: page_query_def)
  have status: "rs_status (MakeError n c m) = n" "rs_status (MakeJson n b) = n" "rs_body (MakeJson n b) = b" for n c m b
    by (simp_all add: MakeError_def MakeJson_def)
  have clear': "clear_filter q'" using clear by (simp add: q'(2) page_query_same)
  from run ok obtain cq cc where comp: "compile_collection st q' ent = Inr (cq, cc)"
    by (cases "compile_collection st q' ent")
       (auto simp: handle_collection_def q' attemptD_def bindD_def liftD_def returnD_def status split: exn.splits)
  have cq: "CompileCollection q' ent (st_max_top st) = Inr cq" "q_count q' \<Longrightarrow> CompileCount q' ent = Inr cc"
    using comp by (auto simp: compile_collection_def bindE_Inr_iff split: if_splits)
  have att: "attemptD (liftD (compile_collection st q' ent)) s = (Inr (Inr (cq, cc)), s)"
    by (simp add: attemptD_def liftD_def comp)
  have b_att: "bindD (attemptD (liftD (compile_collection st q' ent))) f s = f (Inr (cq, cc)) s" for f
    by (rule bindD_Inr) (rule att)
  note run1 = run [unfolded handle_collection_def Let_def q'(1) prod.case b_att sum.case]
  from run1 show ?thesis
  proof (cases rule: bindD_InrE)
    case (Bind c s1)
    note cm = count_part_answers [OF types clear' db cq(2) Bind(1)]
    with Bind(2) ok obtain n where c: "c = Inr (n, count_member M ent q')" by (cases c) auto
    from Bind(2) [unfolded c sum.case prod.case] show ?thesis
    proof (cases rule: bindD_InrE)
      case (Bind r s2)
      with ok have err: "qr_error r = None" by (cases "qr_error r") auto
      obtain rs where rs: "qr_names r = item_columns M (selected_items q' ent)"
        "result_rows r = project (item_columns M (selected_items q' ent)) rs"
        "ordered_part M (matches M ent q') (order_keys q') (at_least_zero (effective_top q' (st_max_top st))) (at_least_zero (q_skip q')) rs"
        using collection_rows [OF types clear' db cq(1) Bind(1) err] by blast
      let ?rows = "join_with '','' (map (row_json (qr_names r)) (result_rows r))"
      let ?m = "more_part D st q' ent paged n (length (result_rows r))"
      let ?link = "\<lambda>h. if h then '',\"@odata.nextLink\":\"'' @ JsonEscape (NextLink rq (current_skip q' + int (length (result_rows r)))) @ ''\"'' else []"
      from Bind(2) ok have "bindD ?m (case_sum returnD (\<lambda>h. returnD (MakeJson 200
          ((context_text st ent False @ count_member M ent q') @ ?link h @ '',\"value\":['' @ ?rows @ '']}'')))) s2 = (Inr resp, s')"
        by (auto simp: err SerializeRows_join status split: if_splits)
      then show ?thesis
      proof (cases rule: bindD_InrE)
        case (Bind m s3)
        with ok more_part_error [of D st q' ent paged n "length (result_rows r)" s2 _ s3] obtain h where h: "m = Inr h"
          by (cases m) auto
        define lk where "lk = ?link h"
        have "rs_body resp = context_text st ent False @ count_member M ent q' @ lk @ '',\"value\":['' @ ?rows @ '']}''"
          using Bind(2) h by (auto simp: status lk_def)
        moreover have "lk = [] \<or> has_prefix '',\"@odata.nextLink\":'' lk" by (simp add: has_prefix_def lk_def)
        ultimately show ?thesis
          using rs unfolding answered_def q'(2) page_query_same page_query_simps
          by (intro exI [of _ rs] exI [of _ lk] conjI) simp_all
      qed
    qed
  qed
qed

section \<open>From the request to the answer\<close>

text \<open>A GET request for the entity set of a binding, with the keys of its path.\<close>

definition asks_for :: "ODataServerState \<Rightarrow> HttpRequest \<Rightarrow> EntityBinding \<Rightarrow> string list \<Rightarrow> bool" where
  "asks_for st rq b keys \<longleftrightarrow>
     (let route = ParseRoute (st_base_path st) (rq_path rq)
      in rq_method rq = ''GET'' \<and> \<not> r_health route \<and> \<not> r_service_doc route \<and> \<not> r_metadata route
         \<and> r_entity route \<noteq> [] \<and> r_keys route = keys \<and> find_binding (st_bindings st) (r_entity route) = Some b)"

lemma status_simps [simp]:
  "rs_status (MakeError n c m) = n" "rs_status (MakeJson n w) = n" "rs_body (MakeJson n w) = w"
  by (simp_all add: MakeError_def MakeJson_def)

lemma HandleODataRequest_entity:
  assumes "asks_for st rq b keys" "HandleODataRequest D yyjson rq (st, db) = (Inr resp, s)"
    and "rs_status resp \<in> {200, 404}"
  shows "\<exists>db'. handle_entity D yyjson (add_active 1 st) rq (ParseRoute (st_base_path st) (rq_path rq)) b db = (Inr resp, db')
    \<and> \<not> is_writing rq"
proof -
  have bs: "st_bindings st \<noteq> []" using assms(1) by (auto simp: asks_for_def Let_def find_binding_def)
  from assms bs show ?thesis
    by (auto simp: HandleODataRequest_def asks_for_def Let_def is_writing_def with_slot_def
        split: if_splits prod.splits)
qed

lemma handle_entity_steps:
  assumes "handle_entity D yyjson st rq route b db = (Inr resp, db')" "\<not> is_writing rq"
    and "parse_options (st_max_filter_depth st) (b_name b) (rq_query rq) = Inr q"
    and "BuildEntity D b db = (Inr full, db1)" "rs_status resp \<in> {200, 404}"
  shows "(if r_keys route \<noteq> [] then handle_key D st q (ApplyColumnPolicy full b) (r_keys route)
     else handle_collection D st rq q (ApplyColumnPolicy full b)) db1 = (Inr resp, db')"
  using assms
  by (auto simp: handle_entity_def bindD_def attemptD_def liftD_def Let_def returnD_def split: option.splits)

lemma slot_fields [simp]:
  "st_max_top (add_active n st) = st_max_top st" "st_base_path (add_active n st) = st_base_path st"
  "st_query_timeout_ms (add_active n st) = st_query_timeout_ms st" "st_page_size (add_active n st) = st_page_size st"
  "st_max_filter_depth (add_active n st) = st_max_filter_depth st"
  by (simp_all add: add_active_def)

lemma answered_slot: "answered M (add_active n st) ent q w = answered M st ent q w"
  by (simp add: answered_def context_text_def page_query_def paged_query_def)

lemma policy_keeps:
  "sound_types full \<Longrightarrow> sound_types (ApplyColumnPolicy full b)" "sound_keys full \<Longrightarrow> sound_keys (ApplyColumnPolicy full b)"
  "table_path (ApplyColumnPolicy full b) = table_path full"
  by (auto simp: sound_types_def sound_keys_def list_all_iff ApplyColumnPolicy_def table_path_def Let_def)

text \<open>The filter of the options is one that was parsed.\<close>

lemma option_step_finite:
  "option_step d q kv = Inr q' \<Longrightarrow> filter_ok finite_floats q \<Longrightarrow> filter_ok finite_floats q'"
  by (auto simp: option_step_def Let_def bindE_Inr_iff ParseFilter_finite filter_ok_def split: if_splits)

lemma parse_options_finite: "parse_options d name opts = Inr q \<Longrightarrow> filter_ok finite_floats q"
proof -
  have "foldE (option_step d) q0 opts = Inr q \<Longrightarrow> filter_ok finite_floats q0
      \<Longrightarrow> filter_ok finite_floats q" for q0
    by (induction opts arbitrary: q0) (auto simp: bindE_Inr_iff dest: option_step_finite)
  then show "parse_options d name opts = Inr q \<Longrightarrow> filter_ok finite_floats q"
    by (simp add: parse_options_def empty_query_def filter_ok_def)
qed

lemma request_answered:
  assumes "asks_for st rq b []" "parse_options (st_max_filter_depth st) (b_name b) (rq_query rq) = Inr q"
    and "filter_ok flat q" "BuildEntity D b db = (Inr full, db1)" "sound_types full"
    and "obeys D (st_query_timeout_ms st) M (table_path full)"
    and "HandleODataRequest D yyjson rq (st, db) = (Inr resp, s)" "rs_status resp = 200"
  shows "answered M st (ApplyColumnPolicy full b) q (rs_body resp)"
proof -
  obtain db' where h: "handle_entity D yyjson (add_active 1 st) rq (ParseRoute (st_base_path st) (rq_path rq)) b db = (Inr resp, db')"
    "\<not> is_writing rq"
    using HandleODataRequest_entity [OF assms(1,7)] assms(8) by auto
  have keys: "r_keys (ParseRoute (st_base_path st) (rq_path rq)) = []"
    using assms(1) by (simp add: asks_for_def Let_def)
  have "handle_collection D (add_active 1 st) rq q (ApplyColumnPolicy full b) db1 = (Inr resp, db')"
    using handle_entity_steps [OF h, of q full db1] assms(2,4,8) keys by simp
  from handle_collection_answers [OF policy_keeps(1) [OF assms(5)] _ _ this assms(8), of M]
  show ?thesis
    using assms(3,6) parse_options_finite [OF assms(2)]
    by (simp add: clear_filter_def policy_keeps answered_slot)
qed

section \<open>One entity\<close>

definition key_constant :: "sql_db \<Rightarrow> EdmProperty \<Rightarrow> string \<Rightarrow> dvalue" where
  "key_constant M p raw =
     (if p_edm_type p \<in> {EdmType.STRING, EdmType.GUID, EdmType.BINARY} then sd_string M (key_value raw)
      else sd_cast M (sd_string M (key_value raw)) (type_words (p_duckdb_type p)))"

definition has_key :: "sql_db \<Rightarrow> EdmProperty \<Rightarrow> string \<Rightarrow> sql_row \<Rightarrow> bool" where
  "has_key M p raw r \<longleftrightarrow> sd_compare M ''='' (r (ToLower (p_name p))) (key_constant M p raw) = Some True"

text \<open>\<open>entity_body\<close> is the response for a row, \<open>entity_answered\<close> what a key request may be answered.\<close>

definition entity_body :: "sql_db \<Rightarrow> ODataServerState \<Rightarrow> EdmEntity \<Rightarrow> ODataQuery \<Rightarrow> sql_row \<Rightarrow> string" where
  "entity_body M st ent q r =
     (let cols = item_columns M (selected_items q ent)
      in context_text st ent True @ '','' @
         join_with '','' (map json_member (row_members cols (map (\<lambda>c. r (ToLower c)) cols))) @ ''}'')"

definition entity_answered :: "sql_db \<Rightarrow> ODataServerState \<Rightarrow> EdmEntity \<Rightarrow> ODataQuery \<Rightarrow> string \<Rightarrow> HttpResponse \<Rightarrow> bool" where
  "entity_answered M st ent q raw resp \<longleftrightarrow>
     (case filter p_is_key (e_properties ent) of
        [k] \<Rightarrow>
          if rs_status resp = 404 then filter (has_key M k raw) (sd_rows M) = []
          else \<exists>r \<in> set (sd_rows M). has_key M k raw r \<and> rs_body resp = entity_body M st ent q r
      | _ \<Rightarrow> False)"

lemma first_row_members:
  assumes "[] \<notin> set (qr_chunks res)"
  shows "SerializeFirstRowMembers res =
    (case result_rows res of [] \<Rightarrow> None
     | row # _ \<Rightarrow> Some (join_with '','' (map json_member (row_members (qr_names res) row))))"
  using assms
  by (auto simp: SerializeFirstRowMembers_def result_rows_def serialize_members_join split: list.splits)

lemma part_of_one:
  assumes "ordered_part M keep keys (Some 1) None rs"
  shows "case rs of [] \<Rightarrow> filter keep (sd_rows M) = [] | r # _ \<Rightarrow> r \<in> set (sd_rows M) \<and> keep r"
proof -
  from assms obtain xs where xs: "mset xs = mset (filter keep (sd_rows M))" "rs = take 1 xs"
    by (auto simp: ordered_part_def)
  then have "set xs = set (filter keep (sd_rows M))" by (metis set_mset_mset)
  with xs show ?thesis by (cases xs) auto
qed

lemma handle_key_answers:
  assumes keys: "sound_keys ent" and db: "obeys D (st_query_timeout_ms st) M (table_path ent)"
    and logic: "\<And>b. sd_truth M (sd_bool M b) = b"
    and run: "handle_key D st q ent [raw] s = (Inr resp, s')" and ok: "rs_status resp \<in> {200, 404}"
  shows "entity_answered M st ent q raw resp"
proof -
  from run ok have k: "e_has_key ent" by (auto simp: handle_key_def split: if_splits)
  from run ok k obtain cq where cq: "CompileByKey q ent [raw] = Inr cq"
    by (cases "CompileByKey q ent [raw]")
       (auto simp: handle_key_def attemptD_def bindD_def liftD_def returnD_def split: exn.splits)
  have "attemptD (liftD (CompileByKey q ent [raw])) s = (Inr (Inr cq), s)"
    by (simp add: attemptD_def liftD_def cq)
  then have b_att: "bindD (attemptD (liftD (CompileByKey q ent [raw]))) f s = f (Inr cq) s" for f
    by (rule bindD_Inr)
  from cq obtain p where p: "filter p_is_key (e_properties ent) = [p]"
    by (cases "filter p_is_key (e_properties ent)") (auto simp: CompileByKey_def Let_def split: if_splits)
  let ?cols = "item_columns M (selected_items q ent)"
  have run1: "bindD (ExecuteQuery D (cq_sql cq) (st_query_timeout_ms st)) (\<lambda>res.
      case qr_error res of Some e \<Rightarrow> returnD (internal_error e)
      | None \<Rightarrow> (case SerializeFirstRowMembers res of
          None \<Rightarrow> returnD (MakeError 404 ''NotFound'' ''entity with key not found'')
        | Some members \<Rightarrow> returnD (MakeJson 200 (context_text st ent True @ '','' @ members @ ''}'')))) s = (Inr resp, s')"
    using run k by (simp add: handle_key_def b_att)
  then show ?thesis
  proof (cases rule: bindD_InrE)
    case (Bind r s1)
    with ok have err: "qr_error r = None" by (cases "qr_error r") auto
    have stmt: "sql_statement (cq_sql cq) = Some (key_statement q ent [raw])"
      using CompileByKey_reads [OF keys cq] .
    have holds: "holds M r (ss_where (key_statement q ent [raw])) = has_key M p raw r" for r
      by (simp add: holds_def key_statement_def p key_sql_def logic has_key_def key_value_sql_def key_constant_def)
    from obeysD [OF db stmt _ Bind(1) err]
    have ch: "[] \<notin> set (qr_chunks r)" and "select_result M (key_statement q ent [raw]) (qr_names r) (result_rows r)"
      by (simp_all add: key_statement_def Let_def)
    then obtain rs where rs: "qr_names r = ?cols" "result_rows r = project ?cols rs"
      "ordered_part M (has_key M p raw) [] (Some 1) None rs"
      unfolding select_result_def holds
      by (auto simp: key_statement_def Let_def selected_items_def split: if_splits)
    note one = part_of_one [OF rs(3)]
    show ?thesis
    proof (cases rs)
      case Nil
      then have "resp = MakeError 404 ''NotFound'' ''entity with key not found''"
        using Bind(2) err rs first_row_members [OF ch] by (auto simp: project_def)
      with one Nil p show ?thesis by (simp add: entity_answered_def)
    next
      case (Cons x xs)
      then have "resp = MakeJson 200 (entity_body M st ent q x)"
        using Bind(2) err rs first_row_members [OF ch] by (auto simp: project_def entity_body_def Let_def)
      with one Cons p show ?thesis by (auto simp: entity_answered_def)
    qed
  qed
qed

lemma request_entity_answered:
  assumes "asks_for st rq b [raw]" "parse_options (st_max_filter_depth st) (b_name b) (rq_query rq) = Inr q"
    and "BuildEntity D b db = (Inr full, db1)" "sound_keys full"
    and "obeys D (st_query_timeout_ms st) M (table_path full)" "\<And>b. sd_truth M (sd_bool M b) = b"
    and "HandleODataRequest D yyjson rq (st, db) = (Inr resp, s)" "rs_status resp \<in> {200, 404}"
  shows "entity_answered M st (ApplyColumnPolicy full b) q raw resp"
proof -
  obtain db' where h: "handle_entity D yyjson (add_active 1 st) rq (ParseRoute (st_base_path st) (rq_path rq)) b db = (Inr resp, db')"
    "\<not> is_writing rq"
    using HandleODataRequest_entity [OF assms(1,7,8)] by auto
  have keys: "r_keys (ParseRoute (st_base_path st) (rq_path rq)) = [raw]"
    using assms(1) by (simp add: asks_for_def Let_def)
  have "handle_key D (add_active 1 st) q (ApplyColumnPolicy full b) [raw] db1 = (Inr resp, db')"
    using handle_entity_steps [OF h, of q full db1] assms(2,3,8) keys by simp
  from handle_key_answers [OF policy_keeps(2) [OF assms(4)] _ assms(6) this assms(8)]
  have "entity_answered M (add_active 1 st) (ApplyColumnPolicy full b) q raw resp"
    using assms(5) by (simp add: policy_keeps)
  moreover have "entity_body M (add_active 1 st) = entity_body M st"
    by (intro ext) (simp add: entity_body_def context_text_def)
  ultimately show ?thesis by (simp only: entity_answered_def)
qed

end
