(* ===== verification/Table_Database.thy ===== *)
theory Table_Database
  imports "HOL-Library.List_Lexorder" Query_Answers
begin

text \<open>
  A database that executes a SELECT statement by reading it and evaluating it on a table: it keeps
  the rows of the condition, sorts them, and cuts the part that is asked for. It obeys the meaning of
  \<open>Query_Meaning\<close> for every table. The theorems on answers are instantiated on it.
\<close>

definition row_keys :: "sql_db \<Rightarrow> (string \<times> bool) list \<Rightarrow> sql_row \<Rightarrow> int list" where
  "row_keys M ks r = map (\<lambda>(n, desc). sd_key M desc (r (ToLower n))) ks"

definition part_of :: "int option \<Rightarrow> int option \<Rightarrow> 'a list \<Rightarrow> 'a list" where
  "part_of limit offset xs =
     (case limit of None \<Rightarrow> (\<lambda>ys. ys) | Some n \<Rightarrow> take (nat n))
       (drop (nat (case offset of None \<Rightarrow> 0 | Some k \<Rightarrow> k)) xs)"

definition run_statement :: "sql_db \<Rightarrow> select_statement \<Rightarrow> qresult" where
  "run_statement M stmt =
     (let kept = filter (\<lambda>r. holds M r (ss_where stmt)) (sd_rows M);
          names = item_columns M (ss_items stmt);
          rows = (case ss_items stmt of
                    Count_As n \<Rightarrow> [[demo_int (int (length kept))]]
                  | _ \<Rightarrow> project names (part_of (ss_limit stmt) (ss_offset stmt) (sort_key (row_keys M (ss_order stmt)) kept)))
      in \<lparr>qr_error = None, qr_names = names, qr_chunks = (if rows = [] then [] else [rows])\<rparr>)"

definition table_answer :: "sql_db \<Rightarrow> string \<Rightarrow> qresult" where
  "table_answer M sql = (case sql_statement sql of Some stmt \<Rightarrow> run_statement M stmt | None \<Rightarrow> demo_answer sql)"

definition table_duck :: "sql_db \<Rightarrow> nat duck" where
  "table_duck M = demo_duck\<lparr>duck_query := \<lambda>sql n. (table_answer M sql, n + 1),
     duck_query_within := \<lambda>ms sql n. (table_answer M sql, n + 1)\<rparr>"

lemma row_le_keys: "row_le M ks r s \<longleftrightarrow> row_keys M ks r \<le> row_keys M ks s"
  by (induction M ks r s rule: row_le.induct) (auto simp: row_keys_def Let_def)

lemma sorted_rows: "sorted_wrt (row_le M ks) (sort_key (row_keys M ks) rs)"
  unfolding row_le_keys using sorted_sort_key [of "row_keys M ks" rs]
  by (simp only: sorted_map)

lemma run_statement_result:
  "select_result M stmt (qr_names (run_statement M stmt)) (result_rows (run_statement M stmt))"
proof -
  let ?kept = "filter (\<lambda>r. holds M r (ss_where stmt)) (sd_rows M)"
  have "ordered_part M (\<lambda>r. holds M r (ss_where stmt)) (ss_order stmt) (ss_limit stmt) (ss_offset stmt)
      (part_of (ss_limit stmt) (ss_offset stmt) (sort_key (row_keys M (ss_order stmt)) ?kept))"
    unfolding ordered_part_def part_of_def
    by (intro exI [of _ "sort_key (row_keys M (ss_order stmt)) ?kept"] conjI sorted_rows) simp_all
  moreover have "count_value n (demo_int (int n))" for n by (simp add: count_value_def demo_int_def)
  ultimately show ?thesis
    by (auto simp: select_result_def run_statement_def Let_def result_rows_def project_def split: select_items.split)
qed

lemma table_obeys: "obeys (table_duck M) ms M table"
  unfolding obeys_def
proof (intro allI impI)
  fix sql stmt s r s'
  assume "sql_statement sql = Some stmt" "ExecuteQuery (table_duck M) sql ms s = (Inr r, s')"
  then have r: "r = run_statement M stmt"
    by (auto simp: ExecuteQuery_def table_duck_def table_answer_def split: if_splits)
  have "[] \<notin> set (qr_chunks (run_statement M stmt))"
    by (simp add: run_statement_def Let_def)
  with r run_statement_result show "[] \<notin> set (qr_chunks r) \<and> select_result M stmt (qr_names r) (result_rows r)" by simp
qed

section \<open>A table\<close>

definition null_value :: dvalue where
  "null_value = (demo_text [])\<lparr>dv_null := True\<rparr>"

definition bool_value :: "bool option \<Rightarrow> dvalue" where
  "bool_value b = (case b of None \<Rightarrow> null_value
     | Some c \<Rightarrow> (demo_text [])\<lparr>dv_type := LT_BOOLEAN, dv_bool := c\<rparr>)"

definition compare_values :: "string \<Rightarrow> dvalue \<Rightarrow> dvalue \<Rightarrow> bool option" where
  "compare_values f x y =
     (if dv_null x \<or> dv_null y then None
      else case (dv_int64 x, dv_int64 y) of
        (Inr a, Inr b) \<Rightarrow> Some (if f = ''='' then a = b else if f = ''<>'' then a \<noteq> b else if f = ''<'' then a < b
            else if f = ''<='' then a \<le> b else if f = ''>'' then b < a else b \<le> a)
      | _ \<Rightarrow> Some (if f = ''='' then dv_text x = dv_text y else dv_text x \<noteq> dv_text y))"

definition demo_row :: "int \<Rightarrow> int \<Rightarrow> string \<Rightarrow> sql_row" where
  "demo_row i p s n = (if n = ''id'' then demo_int i else if n = ''pin'' then demo_int p
     else if n = ''name'' then demo_text s else null_value)"

definition demo_table :: sql_db where
  "demo_table =
     \<lparr>sd_columns = [''id'', ''pin'', ''name''],
      sd_rows = [demo_row 1 11 ''a'', demo_row 2 22 ''b'', demo_row 3 33 ''c''],
      sd_int = demo_int, sd_decimal = (\<lambda>neg n k. demo_int (int n)), sd_string = demo_text, sd_bool = bool_value,
      sd_truth = (\<lambda>v. if dv_null v then None else Some (dv_bool v)),
      sd_compare = compare_values, sd_call = (\<lambda>f args. if args = [] then null_value else hd args),
      sd_cast = (\<lambda>v ty. if ty = [Wd ''BIGINT''] then demo_int (int (digits_val (dv_text v))) else v),
      sd_key = (\<lambda>desc v. case dv_int64 v of Inr i \<Rightarrow> if desc then - i else i | Inl _ \<Rightarrow> 0)\<rparr>"

lemma demo_table_logic: "sd_truth demo_table (sd_bool demo_table b) = b"
  by (cases b) (simp_all add: demo_table_def bool_value_def null_value_def demo_text_def)

end
