(* ===== verification/Write_Reading.thy ===== *)
theory Write_Reading
  imports Compiled_Statement Write_Executor
begin

text \<open>
  The grammar of the three writing statements, and the proof that the statement of a write is read as
  what the request asks for: the values of the body for the columns it names, on the row with the key
  of the route.
\<close>

datatype write_action =
    Insert_Defaults
  | Insert_Values "(string \<times> sql_expr) list"
  | Update_Where "(string \<times> sql_expr) list" sql_expr
  | Delete_Where sql_expr

record write_statement =
  wr_table :: "string list"
  wr_action :: write_action
  wr_returning :: "string list"

section \<open>The reader\<close>

definition read_assignment :: "sql_word list \<Rightarrow> (string \<times> sql_expr) option" where
  "read_assignment ws =
     (case ws of WId n # Wd e # r \<Rightarrow> if e = ''='' then map_option (Pair n) (sql_read 0 r) else None | _ \<Rightarrow> None)"

text \<open>After INSERT INTO: a table and DEFAULT VALUES, or a table, its columns, VALUES and the values.\<close>

definition read_insert :: "sql_word list \<Rightarrow> (string list \<times> write_action) option" where
  "read_insert ws =
     Option.bind (cut ''VALUES'' ws) (\<lambda>(a, v).
     Option.bind v (\<lambda>vs.
       if vs = [] then
         Option.bind (ends_with [Wd ''DEFAULT''] a) (\<lambda>t.
         Option.bind (read_table t) (\<lambda>st. Some (st, Insert_Defaults)))
       else
         Option.bind (read_table (takeWhile (\<lambda>w. w \<noteq> Wd ''('') a)) (\<lambda>st.
         Option.bind (inside (dropWhile (\<lambda>w. w \<noteq> Wd ''('') a)) (\<lambda>names.
         Option.bind (comma_list read_name names) (\<lambda>ns.
         Option.bind (inside vs) (\<lambda>vals.
         Option.bind (comma_list (sql_read 0) vals) (\<lambda>es.
           if length ns = length es then Some (st, Insert_Values (zip ns es)) else None)))))))"

definition read_update :: "sql_word list \<Rightarrow> (string list \<times> write_action) option" where
  "read_update ws =
     Option.bind (cut ''WHERE'' ws) (\<lambda>(a, w).
     Option.bind w (\<lambda>cond.
     Option.bind (cut ''SET'' a) (\<lambda>(t, u).
     Option.bind u (\<lambda>asg.
     Option.bind (read_table t) (\<lambda>st.
     Option.bind (comma_list read_assignment asg) (\<lambda>es.
     Option.bind (sql_read 0 cond) (\<lambda>c. Some (st, Update_Where es c))))))))"

definition read_delete :: "sql_word list \<Rightarrow> (string list \<times> write_action) option" where
  "read_delete ws =
     Option.bind (cut ''WHERE'' ws) (\<lambda>(t, w).
     Option.bind w (\<lambda>cond.
     Option.bind (read_table t) (\<lambda>st.
     Option.bind (sql_read 0 cond) (\<lambda>c. Some (st, Delete_Where c)))))"

definition read_action :: "sql_word list \<Rightarrow> (string list \<times> write_action) option" where
  "read_action ws =
     (case ws of
        a # r \<Rightarrow>
          if a = Wd ''UPDATE'' then read_update r
          else (case r of
              b # r' \<Rightarrow> if a = Wd ''INSERT'' \<and> b = Wd ''INTO'' then read_insert r'
                       else if a = Wd ''DELETE'' \<and> b = Wd ''FROM'' then read_delete r' else None
            | [] \<Rightarrow> None)
      | [] \<Rightarrow> None)"

definition read_write :: "sql_word list \<Rightarrow> write_statement option" where
  "read_write ws =
     Option.bind (cut ''RETURNING'' ws) (\<lambda>(a, r).
     Option.bind r (\<lambda>ret.
     Option.bind (read_action a) (\<lambda>(t, act).
     Option.bind (comma_list read_name ret) (\<lambda>ns.
       Some \<lparr>wr_table = t, wr_action = act, wr_returning = ns\<rparr>))))"

definition sql_write :: "string \<Rightarrow> write_statement option" where
  "sql_write sql = Option.bind (sql_lex sql) (\<lambda>ts. read_write (sql_words ts))"

section \<open>The pieces\<close>

definition mark_value :: "EdmProperty \<Rightarrow> sql_expr" where
  "mark_value p = SCast SMark (type_words (p_duckdb_type p))"

definition mark_words :: "EdmProperty \<Rightarrow> sql_word list" where
  "mark_words p = Wd ''CAST'' # Wd ''('' # ([Wd ''?'', Wd ''AS''] @ type_words (p_duckdb_type p)) @ [Wd '')'']"

lemma prim_mark:
  assumes "sound_type (p_duckdb_type p)"
  shows "prim (mark_words p) (mark_value p)"
  unfolding mark_words_def mark_value_def
  by (rule prim_cast [OF assms])
     (auto simp: atom_def quiet_def weak_def is_cmp_def comparison_words_def)

lemma cast_mark_text: "cast_mark p = ''CAST(?'' @ '' AS '' @ p_duckdb_type p @ '')''"
  by (simp add: cast_mark_def)

lemma mark_text:
  assumes "sound_type (p_duckdb_type p)"
  shows "plain_text (cast_mark p)" "sql_words (map Ch (cast_mark p)) = mark_words p"
proof -
  show "plain_text (cast_mark p)"
    using type_tail(2) [OF assms] unfolding cast_mark_text by (simp add: plain_char_def)
  have "sep_start ('' AS '' @ p_duckdb_type p @ '')'')" by (simp add: sep_start_def sep_char_def)
  then have "sql_words (map Ch ''CAST(?'' @ map Ch ('' AS '' @ p_duckdb_type p @ '')''))
      = sql_words (map Ch ''CAST(?'') @ sql_words (map Ch ('' AS '' @ p_duckdb_type p @ '')''))"
    by (rule sql_words_start)
  also have "sql_words (map Ch ''CAST(?'') = [Wd ''CAST'', Wd ''('', Wd ''?'']" by code_simp
  also note type_tail(1) [OF assms]
  finally show "sql_words (map Ch (cast_mark p)) = mark_words p"
    unfolding cast_mark_text map_append mark_words_def by (simp only: append_Cons append_Nil append_assoc)
qed

lemma spells_mark: "sound_type (p_duckdb_type p) \<Longrightarrow> spells (cast_mark p) (mark_words p)"
  using spells_plain [OF mark_text(1)] mark_text(2) by metis

lemma spells_assignment:
  assumes "sound_type (p_duckdb_type p)"
  shows "spells (assignment p) (WId (p_name p) # Wd ''='' # mark_words p)"
proof -
  have "sql_words (Id (p_name p) # map Ch ''='' @ map Ch (cast_mark p)) = WId (p_name p) # Wd ''='' # mark_words p"
  proof -
    have "\<not> joins (CHR ''='') (map Ch (cast_mark p))"
      by (simp add: cast_mark_def joins_def name_char_def op_char_def isalnum_def char_class)
    then show ?thesis using mark_text(2) [OF assms] by simp
  qed
  with lexes_equals [OF lexes_plain [OF mark_text(1) [OF assms]]] show ?thesis
    unfolding assignment_def by (rule spellsI)
qed

lemma read_assignment_words:
  assumes "sound_type (p_duckdb_type p)"
  shows "read_assignment (WId (p_name p) # Wd ''='' # mark_words p) = Some (p_name p, mark_value p)"
    "bare (WId (p_name p) # Wd ''='' # mark_words p)"
proof -
  note m = prim_mark [OF assms]
  show "read_assignment (WId (p_name p) # Wd ''='' # mark_words p) = Some (p_name p, mark_value p)"
    using sql_reads_connective(3) [OF prim_reads [OF m]] by (simp add: read_assignment_def)
  have c: "prim [WId (p_name p)] (SCol (p_name p))" by (rule prim_word) (simp_all add: atom_def)
  have "sql_reads ([WId (p_name p)] @ Wd ''='' # mark_words p) (SCmp ''='' (SCol (p_name p)) (mark_value p))"
    by (rule sql_reads_comparison [OF prim_reads [OF c] prim_single [OF c] m]) (simp add: comparison_words_def)
  then show "bare (WId (p_name p) # Wd ''='' # mark_words p)" by (simp add: sql_reads_def)
qed

text \<open>Lists with a bare comma between the items.\<close>

lemma spells_list:
  assumes "\<And>x. x \<in> set xs \<Longrightarrow> spells (f x) (w x) \<and> bare (w x) \<and> rd (w x) = Some (v x)" "xs \<noteq> []"
  shows "spells (join_with '','' (map f xs)) (commas (map w xs))" "segment (commas (map w xs))"
    "closed (commas (map w xs))" "comma_list rd (commas (map w xs)) = Some (map v xs)" "commas (map w xs) \<noteq> []"
proof -
  have bare: "list_all bare (map w xs)" using assms(1) by (simp add: list_all_iff)
  have ne: "map w xs \<noteq> []" using assms(2) by simp
  have g: "glue_after '',''" "glue '',''" "sep_start '',''" "sep_end '',''" "sql_words (map Ch '','') = [Wd '','']"
    by (simp_all add: glue_simps sep_start_def sep_end_def sep_char_def)
  show "spells (join_with '','' (map f xs)) (commas (map w xs))"
    using assms by (intro spells_between [OF _ _ g]) (auto simp: list_all2_conv_all_nth)
  show "segment (commas (map w xs))" using segment_between [OF bare ne] by simp
  show "closed (commas (map w xs))" using commas_split [OF bare ne] by simp
  have "those (map rd (map w xs)) = Some (map v xs)"
    using assms(1) by (induction xs) auto
  then show "comma_list rd (commas (map w xs)) = Some (map v xs)"
    using commas_split [OF bare ne] by (simp add: comma_list_def)
  show "commas (map w xs) \<noteq> []" using commas_nonempty [OF bare ne] .
qed

lemma name_item: "spells (QuoteIdentifier (p_name p)) [WId (p_name p)] \<and> bare [WId (p_name p)]
    \<and> read_name [WId (p_name p)] = Some (p_name p)"
  by (simp add: spells_ident bare_word read_name_def)

lemma mark_item: "sound_type (p_duckdb_type p) \<Longrightarrow>
    spells (cast_mark p) (mark_words p) \<and> bare (mark_words p) \<and> sql_read 0 (mark_words p) = Some (mark_value p)"
  using sql_reads_connective(3) [OF prim_reads [OF prim_mark]] prim_mark by (auto simp: spells_mark prim_def)

lemma assignment_item: "sound_type (p_duckdb_type p) \<Longrightarrow>
    spells (assignment p) (WId (p_name p) # Wd ''='' # mark_words p) \<and> bare (WId (p_name p) # Wd ''='' # mark_words p)
    \<and> read_assignment (WId (p_name p) # Wd ''='' # mark_words p) = Some (p_name p, mark_value p)"
  by (simp add: spells_assignment read_assignment_words)

section \<open>The statements\<close>

definition table_words :: "EdmEntity \<Rightarrow> sql_word list" where
  "table_words ent = [WId (e_catalog ent), Wd ''.'', WId (e_schema ent), Wd ''.'', WId (e_table ent)]"

lemma table_words_facts:
  "spells (write_table ent) (table_words ent)" "segment (table_words ent)"
  "read_table (table_words ent) = Some [e_catalog ent, e_schema ent, e_table ent]"
  "Wd ''('' \<notin> set (table_words ent)"
  using spells_qualified by (simp_all add: write_table_def table_words_def)

lemma without_word: "w \<noteq> Wd key \<Longrightarrow> w \<notin> {Wd ''('', Wd '')''} \<Longrightarrow> without key [w]"
  by (simp add: without_def closed_def grow_def enter_def)

lemma without_parens: "closed m \<Longrightarrow> key \<noteq> ''('' \<Longrightarrow> without key (Wd ''('' # m @ [Wd '')''])"
  unfolding without_def by (intro conjI closed_parens splits_parens) simp_all

lemma cut_at: "without key a \<Longrightarrow> without key b \<Longrightarrow> cut key (a @ Wd key # b) = Some (a, Some b)"
  using cut_opt [of key a "Some b"] by (simp add: opt_clause_def)

lemma clause_words [simp]: "clause_word (Wd ''VALUES'')" "clause_word (Wd ''SET'')" "clause_word (Wd ''WHERE'')"
  "clause_word (Wd ''RETURNING'')"
  by (simp_all add: clause_word_def)

lemma write_words:
  "sql_words (map Ch ''INSERT INTO '') = [Wd ''INSERT'', Wd ''INTO'']"
  "sql_words (map Ch ''UPDATE '') = [Wd ''UPDATE'']"
  "sql_words (map Ch ''DELETE FROM '') = [Wd ''DELETE'', Wd ''FROM'']"
  "sql_words (map Ch '' DEFAULT VALUES'') = [Wd ''DEFAULT'', Wd ''VALUES'']"
  "sql_words (map Ch '' ('') = [Wd ''('']" "sql_words (map Ch '')'') = [Wd '')'']"
  "sql_words (map Ch '') VALUES ('') = [Wd '')'', Wd ''VALUES'', Wd ''('']"
  "sql_words (map Ch '' = '') = [Wd ''='']"
  by code_simp+

lemma write_glue:
  "glue ''INSERT INTO ''" "glue ''UPDATE ''" "glue ''DELETE FROM ''" "glue_after '' DEFAULT VALUES''"
  "glue '' (''" "glue_after '' (''" "glue_after '')''" "glue '') VALUES (''" "glue_after '') VALUES (''"
  "glue '' = ''" "glue_after '' = ''"
  by (simp_all add: glue_simps)

lemma write_seps:
  "sep_end ''INSERT INTO ''" "sep_end ''UPDATE ''" "sep_end ''DELETE FROM ''" "sep_start '' DEFAULT VALUES''"
  "sep_end '' (''" "sep_start '' (''" "sep_start '')''" "sep_end '') VALUES (''" "sep_start '') VALUES (''"
  "sep_end '' = ''" "sep_start '' = ''"
  by (simp_all add: sep_start_def sep_end_def sep_char_def)

text \<open>The part of a statement before RETURNING, and its reading.\<close>

definition action_reads :: "EdmEntity \<Rightarrow> string \<Rightarrow> write_action \<Rightarrow> bool" where
  "action_reads ent sql act \<longleftrightarrow>
     (\<exists>ws. spells sql ws \<and> without ''RETURNING'' ws
        \<and> read_action ws = Some ([e_catalog ent, e_schema ent, e_table ent], act))"

lemma action_insert_defaults: "action_reads ent (''INSERT INTO '' @ write_table ent @ '' DEFAULT VALUES'') Insert_Defaults"
proof -
  have sp: "spells (''INSERT INTO '' @ (write_table ent @ '' DEFAULT VALUES''))
      (Wd ''INSERT'' # Wd ''INTO'' # (table_words ent @ [Wd ''DEFAULT'']) @ [Wd ''VALUES''])"
    using spells_before [OF spells_after [OF table_words_facts(1) write_glue(4) write_seps(4)] write_glue(1) write_seps(1),
        unfolded write_words] by simp
  have w: "without key (table_words ent)" if "clause_word (Wd key)" for key
    using without_segment [OF table_words_facts(2) that] .
  have "without ''RETURNING'' ([Wd ''INSERT''] @ [Wd ''INTO''] @ (table_words ent @ [Wd ''DEFAULT'']) @ [Wd ''VALUES''])"
    by (intro without_append without_word w) simp_all
  moreover have "cut ''VALUES'' ((table_words ent @ [Wd ''DEFAULT'']) @ Wd ''VALUES'' # []) = Some (table_words ent @ [Wd ''DEFAULT''], Some [])"
    by (intro cut_at without_append without_word w) (simp_all add: without_def closed_def)
  then have "read_action (Wd ''INSERT'' # Wd ''INTO'' # (table_words ent @ [Wd ''DEFAULT'']) @ [Wd ''VALUES''])
      = Some ([e_catalog ent, e_schema ent, e_table ent], Insert_Defaults)"
    using ends_with_append [of "[Wd ''DEFAULT'']" "table_words ent"] by (simp add: read_action_def read_insert_def table_words_facts(3))
  ultimately show ?thesis using sp unfolding action_reads_def
    by (intro exI [of _ "Wd ''INSERT'' # Wd ''INTO'' # (table_words ent @ [Wd ''DEFAULT'']) @ [Wd ''VALUES'']"]) simp
qed

definition set_columns :: "EdmProperty list \<Rightarrow> (string \<times> sql_expr) list" where
  "set_columns ps = map (\<lambda>p. (p_name p, mark_value p)) ps"

lemma action_insert_values:
  assumes "\<And>p. p \<in> set ps \<Longrightarrow> sound_type (p_duckdb_type p)" "ps \<noteq> []"
  shows "action_reads ent (''INSERT INTO '' @ write_table ent @ '' ('' @ join_with '','' (map (\<lambda>p. QuoteIdentifier (p_name p)) ps)
    @ '') VALUES ('' @ join_with '','' (map cast_mark ps) @ '')'') (Insert_Values (set_columns ps))"
proof -
  let ?nw = "commas (map (\<lambda>p. [WId (p_name p)]) ps)" and ?vw = "commas (map mark_words ps)" and ?tw = "table_words ent"
  note n = spells_list [of ps "\<lambda>p. QuoteIdentifier (p_name p)" "\<lambda>p. [WId (p_name p)]" read_name p_name, OF name_item assms(2)]
  note v = spells_list [of ps cast_mark mark_words "sql_read 0" mark_value, OF mark_item [OF assms(1)] assms(2)]
  let ?body = "?tw @ Wd ''('' # ?nw @ [Wd '')'']" and ?vals = "Wd ''('' # ?vw @ [Wd '')'']"
  have "spells (''INSERT INTO '' @ (((write_table ent @ '' ('' @ join_with '','' (map (\<lambda>p. QuoteIdentifier (p_name p)) ps))
      @ '') VALUES ('' @ join_with '','' (map cast_mark ps)) @ '')''))
      ([Wd ''INSERT'', Wd ''INTO''] @ (((?tw @ [Wd ''(''] @ ?nw) @ [Wd '')'', Wd ''VALUES'', Wd ''('']  @ ?vw) @ [Wd '')'']))"
    using spells_before [OF spells_after [OF spells_append [OF spells_append [OF table_words_facts(1) n(1) write_glue(6,5) write_seps(6,5)] v(1)
        write_glue(9,8) write_seps(9,8)] write_glue(7) write_seps(7)] write_glue(1) write_seps(1), unfolded write_words] .
  then have sp: "spells (''INSERT INTO '' @ write_table ent @ '' ('' @ join_with '','' (map (\<lambda>p. QuoteIdentifier (p_name p)) ps)
      @ '') VALUES ('' @ join_with '','' (map cast_mark ps) @ '')'') (Wd ''INSERT'' # Wd ''INTO'' # ?body @ Wd ''VALUES'' # ?vals)"
    by simp
  have w: "without key ?tw" if "clause_word (Wd key)" for key
    using without_segment [OF table_words_facts(2) that] .
  have b: "without key ?body" if "clause_word (Wd key)" "key \<noteq> ''(''" for key
    using without_append [OF w [OF that(1)] without_parens [OF n(3) that(2)]] .
  have "without ''RETURNING'' ([Wd ''INSERT''] @ [Wd ''INTO''] @ ?body @ [Wd ''VALUES''] @ ?vals)"
    by (intro without_append without_word without_parens b v(3)) (simp_all add: w without_parens n(3))
  moreover have "cut ''VALUES'' (?body @ Wd ''VALUES'' # ?vals) = Some (?body, Some ?vals)"
    by (intro cut_at b without_parens v(3)) simp_all
  moreover have "takeWhile (\<lambda>w. w \<noteq> Wd ''('') ?body = ?tw" "dropWhile (\<lambda>w. w \<noteq> Wd ''('') ?body = Wd ''('' # ?nw @ [Wd '')'']"
    using table_words_facts(4) [of ent] by (auto simp: takeWhile_append dropWhile_append)
  moreover have "inside (Wd ''('' # m @ [Wd '')'']) = Some m" if "closed m" for m using that by (simp add: inside_def)
  moreover have "zip (map p_name ps) (map mark_value ps) = set_columns ps" by (induction ps) (auto simp: set_columns_def)
  ultimately have "read_action (Wd ''INSERT'' # Wd ''INTO'' # ?body @ Wd ''VALUES'' # ?vals)
      = Some ([e_catalog ent, e_schema ent, e_table ent], Insert_Values (set_columns ps))"
    using n(3,4) v(3,4) by (simp add: read_action_def read_insert_def table_words_facts(3))
  with sp \<open>without _ _\<close> show ?thesis unfolding action_reads_def by auto
qed

definition key_test :: "EdmProperty \<Rightarrow> sql_expr" where
  "key_test k = SCmp ''='' (SCol (p_name k)) (mark_value k)"

lemma key_where_words:
  assumes "sound_type (p_duckdb_type k)" "spells a wa"
  shows "spells (a @ key_where k) (wa @ Wd ''WHERE'' # WId (p_name k) # Wd ''='' # mark_words k)"
    "bare (WId (p_name k) # Wd ''='' # mark_words k)"
    "sql_read 0 (WId (p_name k) # Wd ''='' # mark_words k) = Some (key_test k)"
proof -
  note m = prim_mark [OF assms(1)]
  have c: "prim [WId (p_name k)] (SCol (p_name k))" by (rule prim_word) (simp_all add: atom_def)
  have r: "sql_reads ([WId (p_name k)] @ Wd ''='' # mark_words k) (key_test k)"
    unfolding key_test_def
    by (rule sql_reads_comparison [OF prim_reads [OF c] prim_single [OF c] m]) (simp add: comparison_words_def)
  then show "bare (WId (p_name k) # Wd ''='' # mark_words k)"
    "sql_read 0 (WId (p_name k) # Wd ''='' # mark_words k) = Some (key_test k)"
    using sql_reads_connective(3) [OF r] by (simp_all add: sql_reads_def)
  have "spells (QuoteIdentifier (p_name k) @ '' = '' @ cast_mark k) ([WId (p_name k)] @ Wd ''='' # mark_words k)"
    using spells_append [OF spells_ident spells_mark [OF assms(1)] write_glue(11,10) write_seps(11,10), unfolded write_words] by simp
  from spells_keyword [OF assms(2) this, of "''WHERE''"]
  show "spells (a @ key_where k) (wa @ Wd ''WHERE'' # WId (p_name k) # Wd ''='' # mark_words k)"
    by (simp add: key_where_def cast_mark_def)
qed

lemma action_update:
  assumes "\<And>p. p \<in> set ps \<Longrightarrow> sound_type (p_duckdb_type p)" "ps \<noteq> []" "sound_type (p_duckdb_type k)"
  shows "action_reads ent ((''UPDATE '' @ write_table ent @ '' SET '' @ join_with '','' (map assignment ps)) @ key_where k)
    (Update_Where (set_columns ps) (key_test k))"
proof -
  let ?aw = "commas (map (\<lambda>p. WId (p_name p) # Wd ''='' # mark_words p) ps)"
    and ?tw = "table_words ent" and ?kw = "WId (p_name k) # Wd ''='' # mark_words k"
  note v = spells_list [of ps assignment "\<lambda>p. WId (p_name p) # Wd ''='' # mark_words p" read_assignment
      "\<lambda>p. (p_name p, mark_value p)", OF assignment_item [OF assms(1)] assms(2)]
  have "spells (write_table ent @ ('' '' @ ''SET'' @ '' '') @ join_with '','' (map assignment ps)) (?tw @ Wd ''SET'' # ?aw)"
    using spells_keyword [OF table_words_facts(1) v(1), of "''SET''"] by simp
  from spells_before [OF this write_glue(2) write_seps(2), unfolded write_words]
  have "spells (''UPDATE '' @ write_table ent @ '' SET '' @ join_with '','' (map assignment ps)) (Wd ''UPDATE'' # ?tw @ Wd ''SET'' # ?aw)"
    by simp
  note kw = key_where_words [OF assms(3) this]
  have w: "without key ?tw" "without key ?aw" "without key ?kw" if "clause_word (Wd key)" for key
    using without_segment [OF table_words_facts(2) that] without_segment [OF v(2) that]
      without_segment [OF bare_segment [OF kw(2)] that] by simp_all
  have ret: "without ''RETURNING'' ([Wd ''UPDATE''] @ ?tw @ [Wd ''SET''] @ ?aw @ [Wd ''WHERE''] @ ?kw)"
    by (intro without_append without_word w) simp_all
  have "without ''WHERE'' (?tw @ [Wd ''SET''] @ ?aw)" by (intro without_append without_word w) simp_all
  then have "cut ''WHERE'' ((?tw @ [Wd ''SET''] @ ?aw) @ Wd ''WHERE'' # ?kw) = Some (?tw @ [Wd ''SET''] @ ?aw, Some ?kw)"
    using w(3) by (intro cut_at) simp_all
  moreover have "cut ''SET'' (?tw @ Wd ''SET'' # ?aw) = Some (?tw, Some ?aw)"
    using w(1,2) by (intro cut_at) simp_all
  ultimately have "read_action (Wd ''UPDATE'' # (?tw @ Wd ''SET'' # ?aw) @ Wd ''WHERE'' # ?kw)
      = Some ([e_catalog ent, e_schema ent, e_table ent], Update_Where (set_columns ps) (key_test k))"
    using v(4) kw(3) by (simp add: read_action_def read_update_def table_words_facts(3) set_columns_def)
  with kw(1) ret show ?thesis unfolding action_reads_def by auto
qed

lemma action_delete:
  assumes "sound_type (p_duckdb_type k)"
  shows "action_reads ent ((''DELETE FROM '' @ write_table ent) @ key_where k) (Delete_Where (key_test k))"
proof -
  let ?tw = "table_words ent" and ?kw = "WId (p_name k) # Wd ''='' # mark_words k"
  have "spells (''DELETE FROM '' @ write_table ent) (Wd ''DELETE'' # Wd ''FROM'' # ?tw)"
    using spells_before [OF table_words_facts(1) write_glue(3) write_seps(3), unfolded write_words] by simp
  note kw = key_where_words [OF assms this]
  have w: "without key ?tw" "without key ?kw" if "clause_word (Wd key)" for key
    using without_segment [OF table_words_facts(2) that] without_segment [OF bare_segment [OF kw(2)] that] by simp_all
  have ret: "without ''RETURNING'' ([Wd ''DELETE''] @ [Wd ''FROM''] @ ?tw @ [Wd ''WHERE''] @ ?kw)"
    by (intro without_append without_word w) simp_all
  have "cut ''WHERE'' (?tw @ Wd ''WHERE'' # ?kw) = Some (?tw, Some ?kw)"
    by (intro cut_at w) simp_all
  then have "read_action (Wd ''DELETE'' # Wd ''FROM'' # ?tw @ Wd ''WHERE'' # ?kw)
      = Some ([e_catalog ent, e_schema ent, e_table ent], Delete_Where (key_test k))"
    using kw(3) by (simp add: read_action_def read_delete_def table_words_facts(3))
  with kw(1) ret show ?thesis unfolding action_reads_def by auto
qed

section \<open>What a write asks for\<close>

definition write_meaning :: "HttpRequest \<Rightarrow> EdmEntity \<Rightarrow> EdmProperty \<Rightarrow> EdmProperty list \<Rightarrow> write_statement" where
  "write_meaning rq ent k ps =
     \<lparr>wr_table = [e_catalog ent, e_schema ent, e_table ent],
      wr_action =
        (if is_insert rq then (if ps = [] then Insert_Defaults else Insert_Values (set_columns ps))
         else if is_update rq then Update_Where (set_columns ps) (key_test k)
         else Delete_Where (key_test k)),
      wr_returning = map p_name (e_properties ent)\<rparr>"

lemma sql_write_returning:
  assumes "action_reads ent sql act" "e_properties ent \<noteq> []"
  shows "sql_write (sql @ returning ent)
    = Some \<lparr>wr_table = [e_catalog ent, e_schema ent, e_table ent], wr_action = act,
        wr_returning = map p_name (e_properties ent)\<rparr>"
proof -
  let ?rw = "commas (map (\<lambda>p. [WId (p_name p)]) (e_properties ent))"
  note n = spells_list [of "e_properties ent" "\<lambda>p. QuoteIdentifier (p_name p)" "\<lambda>p. [WId (p_name p)]" read_name p_name,
      OF name_item assms(2)]
  from assms(1) obtain ws where ws: "spells sql ws" "without ''RETURNING'' ws"
    "read_action ws = Some ([e_catalog ent, e_schema ent, e_table ent], act)"
    unfolding action_reads_def by blast
  have "spells (sql @ returning ent) (ws @ Wd ''RETURNING'' # ?rw)"
    using spells_keyword [OF ws(1) n(1), of "''RETURNING''"] by (simp add: returning_def)
  moreover have "cut ''RETURNING'' (ws @ Wd ''RETURNING'' # ?rw) = Some (ws, Some ?rw)"
    using ws(2) without_segment [OF n(2)] by (intro cut_at) simp_all
  then have "read_write (ws @ Wd ''RETURNING'' # ?rw)
      = Some \<lparr>wr_table = [e_catalog ent, e_schema ent, e_table ent], wr_action = act,
          wr_returning = map p_name (e_properties ent)\<rparr>"
    using ws(3) n(4) by (simp add: read_write_def)
  ultimately show ?thesis by (auto simp: spells_def sql_write_def dest!: lexes_sql_lex)
qed

lemma write_sql_reads:
  assumes "\<And>p. p \<in> set ps \<Longrightarrow> sound_type (p_duckdb_type p)" "sound_type (p_duckdb_type k)"
    and "is_update rq \<Longrightarrow> \<not> is_insert rq \<Longrightarrow> ps \<noteq> []" "e_properties ent \<noteq> []"
  shows "sql_write (write_sql rq ent k ps) = Some (write_meaning rq ent k ps)"
proof -
  have "action_reads ent
      (if is_insert rq then insert_sql ent ps
       else (if is_update rq then ''UPDATE '' @ write_table ent @ '' SET '' @ join_with '','' (map assignment ps)
             else ''DELETE FROM '' @ write_table ent) @ key_where k)
      (wr_action (write_meaning rq ent k ps))"
    using action_insert_defaults [of ent] action_insert_values [OF assms(1), of ps ent]
      action_update [OF assms(1), of ps k ent] action_delete [of k ent] assms(2,3)
    by (auto simp: write_meaning_def insert_sql_def)
  from sql_write_returning [OF this assms(4)] show ?thesis
    by (simp add: write_sql_def write_meaning_def)
qed

definition writable_types :: "EdmEntity \<Rightarrow> bool" where
  "writable_types ent \<longleftrightarrow> list_all (\<lambda>p. p_serializable p \<longrightarrow> sound_type (p_duckdb_type p)) (e_properties ent)"

lemma write_fields_sound:
  "writable_types ent \<Longrightarrow> write_fields ent upd seen fs = Inr xs \<Longrightarrow> p \<in> set (map fst xs) \<Longrightarrow> sound_type (p_duckdb_type p)"
proof (induction ent upd seen fs arbitrary: xs rule: write_fields.induct)
  case (2 ent upd seen field v fs)
  from 2(3) obtain q par rest where q: "ToLower field \<notin> set seen" "write_property ent field = Some q" "p_serializable q"
    "p_edm_type q \<noteq> EdmType.BINARY" "\<not> (upd \<and> p_is_key q)" "json_param q field v = Inr par"
    and rest: "write_fields ent upd (ToLower field # seen) fs = Inr rest" and xs: "xs = (q, par) # rest"
    by (auto simp: bindE_Inr_iff split: if_splits option.splits)
  have "q \<in> set (e_properties ent)" using q(2) by (auto simp: write_property_def dest: find_SomeD)
  then have "sound_type (p_duckdb_type q)" using q(3) 2(2) by (simp add: writable_types_def list_all_iff)
  moreover have "sound_type (p_duckdb_type p)" if "p \<in> set (map fst rest)"
    using 2(1) [OF q(1,2) _ q(5,6) 2(2) rest that] q(3,4) by simp
  ultimately show ?case using 2(4) xs by auto
qed auto

lemma prepare_write_reads:
  assumes "writable_types ent" "prepare_write yyjson rq ent keys = Inr plan"
  shows "\<exists>fs. body_fields yyjson rq ent = Inr fs
    \<and> filter p_is_key (e_properties ent) = [wp_key plan]
    \<and> sql_write (wp_sql plan) = Some (write_meaning rq ent (wp_key plan) (map fst fs))
    \<and> wp_values plan = map snd fs @ (if is_insert rq then [] else [ParamText (key_value (hd keys))])"
proof -
  from assms(2) obtain k fs where k: "write_key ent = Inr k" and fs: "body_fields yyjson rq ent = Inr fs"
    and plan: "plan = \<lparr>wp_key = k, wp_sql = write_sql rq ent k (map fst fs),
        wp_values = map snd fs @ (if is_insert rq then [] else [ParamText (key_value (hd keys))])\<rparr>"
    by (auto simp: prepare_write_def bindE_Inr_iff split: if_splits)
  have key: "filter p_is_key (e_properties ent) = [k]" "p_serializable k"
    using k by (auto simp: write_key_def split: list.splits if_splits)
  have "k \<in> set (filter p_is_key (e_properties ent))" by (simp add: key(1))
  then have mem: "k \<in> set (e_properties ent)" by simp
  with key(2) assms(1) have sk: "sound_type (p_duckdb_type k)" by (simp add: writable_types_def list_all_iff)
  have "fs = [] \<or> (\<exists>upd seen ms. write_fields ent upd seen ms = Inr fs)"
    using fs by (auto simp: body_fields_def bindE_Inr_iff split: if_splits option.splits yyval.splits)
  then have sp: "sound_type (p_duckdb_type p)" if "p \<in> set (map fst fs)" for p
    using that write_fields_sound [OF assms(1) _ that] by auto
  have ne: "map fst fs \<noteq> []" if "is_update rq" "\<not> is_insert rq"
    using fs that by (auto simp: body_fields_def bindE_Inr_iff split: if_splits option.splits yyval.splits)
  have "e_properties ent \<noteq> []" using mem by auto
  with sp sk ne have "sql_write (write_sql rq ent k (map fst fs)) = Some (write_meaning rq ent k (map fst fs))"
    by (intro write_sql_reads)
  with fs key(1) plan show ?thesis by auto
qed

end
