(* ===== verification/Served_Queries.thy ===== *)
theory Served_Queries
  imports Table_Database Write_Reading
begin

text \<open>
  Properties of requests as a whole: the SQL text of a filter, of a query and of a write says what the
  request asks for, and the answer has the rows that the request asks for.
\<close>

section \<open>The text of a filter\<close>




text \<open>
  C40. A null test as the right operand of a comparison is captured: the text of
  \<open>b eq (a eq null)\<close> is that of \<open>(b eq a) eq null\<close>, and it is read as the null test of the comparison.
\<close>

theorem null_test_captures_comparison:
  assumes "sound_types ent" "flat a" "flat b" "finite_floats a" "finite_floats b"
    and "\<not> is_literal a" "\<not> is_literal b" "\<not> open_comparison a" "\<not> open_comparison b" "\<not> open_null_test a"
    and "Compile ent (BinaryExpr BinaryOp.EQ b (BinaryExpr BinaryOp.EQ a (Literal NullLit))) = Inr sql"
  shows "sql_expression sql = Some (SIsNull (SCmp ''='' (sql_of ent b) (sql_of ent a)))"
proof -
  let ?e = "BinaryExpr BinaryOp.EQ (BinaryExpr BinaryOp.EQ b a) (Literal NullLit)"
  have nl: "\<not> IsNullLit a" "\<not> IsNullLit b" using assms(6,7) by (auto simp: IsNullLit_def)
  have "Compile ent ?e = Inr sql"
    using assms(6,7,11) nl
    by (cases "Compile ent a"; cases "Compile ent b")
       (simp_all add: Compile_Binary operand_nonliteral join_operands_def IsNullLit_def null_test_def)
  moreover have "flat ?e" "finite_floats ?e" using assms by (simp_all add: null_form_def IsNullLit_def)
  moreover have "(case e of Literal lit \<Rightarrow> x lit | _ \<Rightarrow> y) = y" if "\<not> is_literal e" for e x and y :: sql_expr
    using that by (cases e) auto
  then have "sql_of ent ?e = SIsNull (SCmp ''='' (sql_of ent b) (sql_of ent a))"
    using assms(6,7) nl by (simp add: null_form_def IsNullLit_def null_sql_def op_sql_def)
  ultimately show ?thesis using written_sql [OF Compile_written [OF assms(1)]] by metis
qed

theorem null_test_captures_comparison_witness:
  "\<exists>sql. Compile demo_entity (BinaryExpr BinaryOp.EQ (PropertyExpr ''pin'')
       (BinaryExpr BinaryOp.EQ (PropertyExpr ''id'') (Literal NullLit))) = Inr sql
     \<and> sql_expression sql = Some (SIsNull (SCmp ''='' (SCol ''pin'') (SCol ''id'')))"
proof -
  let ?e = "BinaryExpr BinaryOp.EQ (PropertyExpr ''pin'') (BinaryExpr BinaryOp.EQ (PropertyExpr ''id'') (Literal NullLit))"
  have "sound_types demo_entity" "case Compile demo_entity ?e of Inr s \<Rightarrow> True | Inl e \<Rightarrow> False"
    "sql_of demo_entity (PropertyExpr ''pin'') = SCol ''pin''" "sql_of demo_entity (PropertyExpr ''id'') = SCol ''id''"
    by code_simp+
  moreover from this obtain sql where "Compile demo_entity ?e = Inr sql" by (auto split: sum.splits)
  ultimately show ?thesis
    using null_test_captures_comparison [of demo_entity "PropertyExpr ''id''" "PropertyExpr ''pin''" sql] by simp
qed

section \<open>The text of a statement\<close>




text \<open>
  C26. The statement for one entity is read as the selection of one row whose key columns equal the
  values of the route, each value a string or a cast of it to the type of its column.
\<close>

theorem key_statement_reads_back:
  assumes "sound_keys ent" "CompileByKey q ent vs = Inr cq"
  shows "sql_statement (cq_sql cq) = Some (key_statement q ent vs)"
  using assms by (rule CompileByKey_reads)

theorem key_statement_reads_back_witness:
  "\<exists>cq. CompileByKey (empty_query ''c'') demo_entity [''1) OR (1=1''] = Inr cq
     \<and> sql_statement (cq_sql cq) = Some \<lparr>ss_items = Columns [''id'', ''pin'', ''name''], ss_table = [''db'', ''main'', ''c''],
          ss_where = Some (SCmp ''='' (SCol ''id'') (SCast (SStr ''1) OR (1=1'') [Wd ''BIGINT''])), ss_order = [],
          ss_limit = Some 1, ss_offset = None\<rparr>"
proof -
  have "sound_keys demo_entity"
    "case CompileByKey (empty_query ''c'') demo_entity [''1) OR (1=1''] of Inr s \<Rightarrow> True | Inl e \<Rightarrow> False"
    by code_simp+
  moreover from this obtain cq where "CompileByKey (empty_query ''c'') demo_entity [''1) OR (1=1''] = Inr cq"
    by (auto split: sum.splits)
  moreover have "key_statement (empty_query ''c'') demo_entity [''1) OR (1=1''] = \<lparr>ss_items = Columns [''id'', ''pin'', ''name''],
      ss_table = [''db'', ''main'', ''c''], ss_where = Some (SCmp ''='' (SCol ''id'') (SCast (SStr ''1) OR (1=1'') [Wd ''BIGINT''])),
      ss_order = [], ss_limit = Some 1, ss_offset = None\<rparr>"
    by code_simp
  ultimately show ?thesis using key_statement_reads_back [of demo_entity "empty_query ''c''" "[''1) OR (1=1'']" cq] by metis
qed

section \<open>The text of a write\<close>




section \<open>The answer to a request\<close>






end
