(* ===== verification/Paging.thy ===== *)
theory Paging
  imports Generated_Sql Query_Options
begin

text \<open>
  Server-driven paging. The database is described by what its documentation says of \<open>LIMIT\<close> and
  \<open>OFFSET\<close>: a select with both answers with that part of the rows that the select without them has,
  and a count answers with their number. Under it a collection is served page by page, each page with
  a link to the next one.
\<close>

definition page_result :: "string list \<Rightarrow> dvalue list list \<Rightarrow> qresult" where
  "page_result names rows = \<lparr>qr_error = None, qr_names = names, qr_chunks = [rows]\<rparr>"

text \<open>\<open>answers D ms sel cnt names rows\<close>: \<open>sel\<close> selects the rows and \<open>cnt\<close> counts them.\<close>

definition answers :: "'db duck \<Rightarrow> int \<Rightarrow> string \<Rightarrow> string \<Rightarrow> string list \<Rightarrow> dvalue list list \<Rightarrow> bool" where
  "answers D ms sel cnt names rows \<longleftrightarrow>
     (\<forall>n q s. 0 \<le> n \<longrightarrow> ExecuteQuery D (sel @ limit_clause n @ offset_clause q) ms s
        = (Inr (page_result names (take (nat n) (drop (nat (current_skip q)) rows))), s))
     \<and> (\<forall>s. \<exists>v. dv_int64 v = Inr (int (length rows)) \<and> ExecuteQuery D cnt ms s = (Inr (page_result [''__odata_count''] [[v]]), s))"

text \<open>The statements of a query without its limit and offset.\<close>

definition select_sql :: "EdmEntity \<Rightarrow> ODataQuery \<Rightarrow> string res" where
  "select_sql ent q = bindE (CompileCollection (q\<lparr>q_top := - 1, q_skip := - 1\<rparr>) ent 0) (\<lambda>cq. Inr (cq_sql cq))"

lemma CompileCollection_select:
  assumes "select_sql ent q = Inr sel"
  shows "CompileCollection (q\<lparr>q_top := n\<rparr>) ent m
    = Inr \<lparr>cq_sql = sel @ limit_clause (effective_top (q\<lparr>q_top := n\<rparr>) m) @ offset_clause q, cq_is_count = False\<rparr>"
  using assms
  by (auto simp: select_sql_def CompileCollection_def CompileSelectList_def CompileFilterText_def bindE_Inr_iff
      limit_clause_def effective_top_def offset_clause_def)

definition page_text :: "ODataServerState \<Rightarrow> HttpRequest \<Rightarrow> EdmEntity \<Rightarrow> string list \<Rightarrow> dvalue list list \<Rightarrow> int option \<Rightarrow> string" where
  "page_text st rq ent names rows next_skip =
     context_text st ent False @
     (case next_skip of None \<Rightarrow> [] | Some n \<Rightarrow> '',\"@odata.nextLink\":\"'' @ JsonEscape (NextLink rq n) @ ''\"'') @
     '',\"value\":['' @ join_with '','' (map (row_json names) rows) @ '']}''"

lemma more_part_run:
  assumes "CompileCount q ent = Inr cc" "0 < st_page_size st"
    and "answers D (st_query_timeout_ms st) sel (cq_sql cc) names rows"
  shows "more_part D st (q\<lparr>q_top := p\<rparr>) ent True (- 1) m s
    = (Inr (Inr (int m = p \<and> current_skip q + int m < int (length rows))), s)"
proof (cases "int m = p")
  case True
  obtain v where "dv_int64 v = Inr (int (length rows))"
    "ExecuteQuery D (cq_sql cc) (st_query_timeout_ms st) s = (Inr (page_result [''__odata_count''] [[v]]), s)"
    using assms(3) unfolding answers_def by blast
  moreover have "CompileCount (q\<lparr>q_top := p\<rparr>) ent = Inr cc"
    using assms(1) by (simp add: CompileCount_def CompileFilterText_def)
  ultimately show ?thesis
    using True
    by (simp add: more_part_def bindD_def liftD_def returnD_def page_result_def first_cell_def cell_def current_skip_def)
qed (simp add: more_part_def returnD_def)

text \<open>No page of at most \<open>p\<close> rows exceeds \<open>odata_max_response_bytes\<close> as the code estimates it.\<close>

definition pages_fit :: "ODataServerState \<Rightarrow> EdmEntity \<Rightarrow> string list \<Rightarrow> dvalue list list \<Rightarrow> nat \<Rightarrow> bool" where
  "pages_fit st ent names rows p \<longleftrightarrow>
     (\<forall>k. \<not> too_large st (length (context_text st ent False)
            + length (join_with '','' (map (row_json names) (take p (drop k rows)))) + 16))"

lemma handle_page:
  assumes page: "0 < st_page_size st" "0 \<le> st_max_top st" and q: "q_top q < 0" "\<not> q_count q"
    and sql: "select_sql ent q = Inr sel" "CompileCount q ent = Inr cc"
    and db: "answers D (st_query_timeout_ms st) sel (cq_sql cc) names rows"
    and size: "pages_fit st ent names rows (nat (min (st_page_size st) (st_max_top st)))"
  shows "handle_collection D st rq q ent s = (Inr (MakeJson 200 (page_text st rq ent names
      (take (nat (min (st_page_size st) (st_max_top st))) (drop (nat (current_skip q)) rows))
      (if st_page_size st \<le> st_max_top st \<and> current_skip q + st_page_size st < int (length rows)
       then Some (current_skip q + st_page_size st) else None))), s)"
proof -
  let ?p = "st_page_size st" and ?k = "current_skip q"
  let ?rows = "take (nat (min ?p (st_max_top st))) (drop (nat ?k) rows)"
  let ?q = "q\<lparr>q_top := ?p\<rparr>"
  have top: "effective_top ?q (st_max_top st) = min ?p (st_max_top st)"
    using effective_top_min [of "st_max_top st" ?q] page by simp
  let ?cq = "\<lparr>cq_sql = sel @ limit_clause (min ?p (st_max_top st)) @ offset_clause q, cq_is_count = False\<rparr>"
  have comp: "compile_collection st ?q ent = Inr (?cq, ?cq)"
    using q(2) CompileCollection_select [OF sql(1), of ?p "st_max_top st"] top by (simp add: compile_collection_def)
  have exec: "ExecuteQuery D (cq_sql ?cq) (st_query_timeout_ms st) s = (Inr (page_result names ?rows), s)"
    using db page unfolding answers_def by simp
  have ser: "SerializeRows (page_result names ?rows) = (join_with '','' (map (row_json names) ?rows), length ?rows)"
    by (simp add: SerializeRows_join page_result_def result_rows_def)
  have k: "0 \<le> ?k" by (simp add: current_skip_def)
  have full: "int (length ?rows) = ?p \<and> ?k + int (length ?rows) < int (length rows)
      \<longleftrightarrow> ?p \<le> st_max_top st \<and> ?k + ?p < int (length rows)"
    using page k by (auto simp: min_def)
  have skip: "current_skip ?q = ?k" by (simp add: current_skip_def)
  have more: "more_part D st ?q ent True (- 1) (length ?rows) s
      = (Inr (Inr (?p \<le> st_max_top st \<and> ?k + ?p < int (length rows))), s)"
    using more_part_run [OF sql(2) page(1) db, of ?p "length ?rows" s] full by simp
  have "handle_collection D st rq q ent s = (Inr (MakeJson 200
      (context_text st ent False @
       (if ?p \<le> st_max_top st \<and> ?k + ?p < int (length rows)
        then '',\"@odata.nextLink\":\"'' @ JsonEscape (NextLink rq (?k + int (length ?rows))) @ ''\"'' else []) @
       '',\"value\":['' @ join_with '','' (map (row_json names) ?rows) @ '']}'')), s)"
    unfolding handle_collection_def paged_query_def
    using page q comp exec ser more size skip
    by (simp add: attemptD_def liftD_def bindD_def returnD_def count_part_def pages_fit_def page_result_def)
  then show ?thesis using full by (auto simp: page_text_def)
qed

section \<open>Following the links\<close>








section \<open>A database that serves pages\<close>

definition sliced :: "string \<Rightarrow> dvalue list list \<Rightarrow> dvalue list list" where
  "sliced tail rows =
     (case split_on (CHR '' '') tail of
        [_, _, n] \<Rightarrow> take (digits_val n) rows
      | [_, _, n, _, k] \<Rightarrow> take (digits_val n) (drop (digits_val k) rows)
      | _ \<Rightarrow> rows)"

definition paging_duck :: "string \<Rightarrow> string \<Rightarrow> string list \<Rightarrow> dvalue list list \<Rightarrow> nat duck" where
  "paging_duck sel cnt names rows = demo_duck\<lparr>duck_query := \<lambda>sql s.
     (if sql = cnt then page_result [''__odata_count''] [[demo_int (int (length rows))]]
      else page_result names (sliced (drop (length sel) sql) rows), s)\<rparr>"

lemma no_blank: "0 \<le> v \<Longrightarrow> CHR '' '' \<notin> set (to_string v)"
  by (auto simp: char_class dest: to_string_nonneg)

lemma sliced_clauses:
  assumes "0 \<le> n"
  shows "sliced (limit_clause n @ offset_clause q) rows = take (nat n) (drop (nat (current_skip q)) rows)"
proof (cases "0 \<le> q_skip q")
  case True
  have "limit_clause n @ offset_clause q
      = join_with '' '' [[], ''LIMIT'', to_string n, ''OFFSET'', to_string (q_skip q)]"
    using assms True by (simp add: limit_clause_def offset_clause_def)
  moreover have "split_on (CHR '' '') (join_with '' '' [[], ''LIMIT'', to_string n, ''OFFSET'', to_string (q_skip q)])
      = [[], ''LIMIT'', to_string n, ''OFFSET'', to_string (q_skip q)]"
    using assms True by (intro split_on_join) (auto simp: no_blank)
  ultimately have "sliced (limit_clause n @ offset_clause q) rows
      = take (digits_val (to_string n)) (drop (digits_val (to_string (q_skip q))) rows)"
    by (simp only: sliced_def) simp
  with assms True show ?thesis by (simp add: to_string_def current_skip_def)
next
  case False
  have "limit_clause n @ offset_clause q = join_with '' '' [[], ''LIMIT'', to_string n]"
    using assms False by (simp add: limit_clause_def offset_clause_def)
  moreover have "split_on (CHR '' '') (join_with '' '' [[], ''LIMIT'', to_string n]) = [[], ''LIMIT'', to_string n]"
    using assms by (intro split_on_join) (auto simp: no_blank)
  ultimately have "sliced (limit_clause n @ offset_clause q) rows = take (digits_val (to_string n)) rows"
    by (simp only: sliced_def) simp
  with assms False show ?thesis by (simp add: to_string_def current_skip_def)
qed

lemma answers_paging:
  assumes "\<not> has_prefix sel cnt" "ms \<le> 0"
  shows "answers (paging_duck sel cnt names rows) ms sel cnt names rows"
proof -
  have "sel @ x \<noteq> cnt" for x using assms(1) by (auto simp: has_prefix_def)
  with assms(2) show ?thesis
    unfolding answers_def
    by (intro conjI allI impI exI [of _ "demo_int (int (length rows))"])
       (simp_all add: ExecuteQuery_def paging_duck_def sliced_clauses, simp_all add: demo_int_def)
qed

definition paging_state :: ODataServerState where
  "paging_state = demo_state\<lparr>st_page_size := 2, st_max_top := 10, st_max_response_bytes := 1000\<rparr>"

definition paging_rows :: "dvalue list list" where
  "paging_rows = [[demo_int 1], [demo_int 2], [demo_int 3]]"

lemma paging_fits: "st_max_response_bytes st = 1000 \<Longrightarrow> st_base_path st = ''/o'' \<Longrightarrow> pages_fit st demo_entity [''id''] paging_rows 2"
proof -
  assume st: "st_max_response_bytes st = 1000" "st_base_path st = ''/o''"
  have ctx: "length (context_text st demo_entity False) \<le> 200"
    by (simp add: context_text_def EntityContextUri_def st(2) demo_entity_def)
  have short: "length (join_with '','' (map (row_json [''id'']) (take 2 (drop k paging_rows)))) \<le> 500" for k
  proof (cases "k < 3")
    case True
    have "\<forall>k \<in> set [0, 1, 2 :: nat]. length (join_with '','' (map (row_json [''id'']) (take 2 (drop k paging_rows)))) \<le> 500"
      by code_simp
    with True show ?thesis by (auto simp: less_Suc_eq numeral_3_eq_3 numeral_2_eq_2)
  next
    case False
    then have "drop k paging_rows = []" by (simp add: paging_rows_def)
    then show ?thesis by simp
  qed
  show "pages_fit st demo_entity [''id''] paging_rows 2"
    unfolding pages_fit_def too_large_def
  proof (rule allI)
    fix k
    show "\<not> (0 \<le> st_max_response_bytes st \<and> st_max_response_bytes st
        < int (length (context_text st demo_entity False)
             + length (join_with '','' (map (row_json [''id'']) (take 2 (drop k paging_rows)))) + 16))"
      using ctx short [of k] st(1) by linarith
  qed
qed

lemma paging_witness:
  obtains sel cc where "select_sql demo_entity (empty_query ''c'') = Inr sel"
    "CompileCount (empty_query ''c'') demo_entity = Inr cc" "\<not> has_prefix sel (cq_sql cc)"
proof -
  have "case select_sql demo_entity (empty_query ''c'') of Inr sel \<Rightarrow>
      (case CompileCount (empty_query ''c'') demo_entity of Inr cc \<Rightarrow> \<not> has_prefix sel (cq_sql cc) | Inl e \<Rightarrow> False) | Inl e \<Rightarrow> False"
    by code_simp
  then show thesis using that by (auto split: sum.splits)
qed


text \<open>
  C39. With a page size above odata_max_top, a page is cut to odata_max_top rows and has no link: the
  rows after it are left out although nothing in the response says so.
\<close>

theorem page_is_cut_without_link:
  assumes "0 \<le> st_max_top st" "st_max_top st < st_page_size st" "pages_fit st ent names rows (nat (st_max_top st))"
    and "q_top q < 0" "\<not> q_count q" "q_skip q < 0"
    and "select_sql ent q = Inr sel" "CompileCount q ent = Inr cc"
    and "answers D (st_query_timeout_ms st) sel (cq_sql cc) names rows"
  shows "handle_collection D st rq q ent s
    = (Inr (MakeJson 200 (page_text st rq ent names (take (nat (st_max_top st)) rows) None)), s)"
proof -
  have "pages_fit st ent names rows (nat (min (st_page_size st) (st_max_top st)))"
    using assms(2,3) by simp
  from handle_page [OF _ assms(1,4,5,7-9) this, of rq s] assms(1,2,6) show ?thesis
    by (simp add: current_skip_def)
qed

theorem page_is_cut_without_link_witness:
  "\<exists>D :: nat duck. fst (handle_collection D (paging_state\<lparr>st_page_size := 20, st_max_top := 2\<rparr>)
       (demo_request ''GET'' ''/o/c'' []) (empty_query ''c'') demo_entity 0)
     = Inr (MakeJson 200 (page_text (paging_state\<lparr>st_page_size := 20, st_max_top := 2\<rparr>)
         (demo_request ''GET'' ''/o/c'' []) demo_entity [''id''] (take 2 paging_rows) None))"
proof -
  let ?st = "paging_state\<lparr>st_page_size := 20, st_max_top := 2\<rparr>"
  obtain sel cc where w: "select_sql demo_entity (empty_query ''c'') = Inr sel"
    "CompileCount (empty_query ''c'') demo_entity = Inr cc" "\<not> has_prefix sel (cq_sql cc)"
    by (rule paging_witness)
  have st: "pages_fit ?st demo_entity [''id''] paging_rows (nat (st_max_top ?st))" "st_query_timeout_ms ?st = 0"
    using paging_fits [of ?st] by (simp_all add: paging_state_def demo_state_def initial_state_def)
  have q: "q_top (empty_query ''c'') < 0" "\<not> q_count (empty_query ''c'')" "q_skip (empty_query ''c'') < 0"
    by (simp_all add: empty_query_def)
  show ?thesis
    using page_is_cut_without_link [OF _ _ st(1) q w(1,2) answers_paging [OF w(3)], where rq = "demo_request ''GET'' ''/o/c'' []" and s = 0] st(2)
    by (intro exI [of _ "paging_duck sel (cq_sql cc) [''id''] paging_rows"]) simp
qed

end
