(* ===== verification/Response_Headers.thy ===== *)
theory Response_Headers
  imports Json_Responses
begin

text \<open>
  The status and the headers of the responses: every response of the handler has one of twelve
  statuses, each with a reason phrase, and header values without a line break, so that what a client
  reads from the wire is what the handler answered. The only header made of data is \<open>Location\<close>,
  whose data is percent-encoded.
\<close>

definition statuses :: "int set" where
  "statuses = {200, 201, 204, 400, 401, 404, 405, 409, 413, 415, 500, 503}"

definition proper_reply :: "HttpResponse \<Rightarrow> bool" where
  "proper_reply r \<longleftrightarrow> rs_status r \<in> statuses \<and> clean_headers r"

lemma clean_map_put:
  "\<forall>(n, v) \<in> set m. no_crlf n \<and> no_crlf v \<Longrightarrow> no_crlf k \<Longrightarrow> no_crlf x \<Longrightarrow>
     \<forall>(n, v) \<in> set (map_put k x m). no_crlf n \<and> no_crlf v"
  by (induction m) (auto split: if_splits)

lemma proper_MakeError [simp]: "proper_reply (MakeError status c m) \<longleftrightarrow> status \<in> statuses"
  by (auto simp: proper_reply_def clean_headers_def MakeError_def intro!: clean_map_put del: ballI)

lemma proper_MakeJson [simp]: "proper_reply (MakeJson status b) \<longleftrightarrow> status \<in> statuses"
  by (auto simp: proper_reply_def clean_headers_def MakeJson_def intro!: clean_map_put del: ballI)

lemma proper_WriteError [simp]: "proper_reply (WriteError status m) \<longleftrightarrow> status \<in> statuses"
  by (auto simp: proper_reply_def clean_headers_def WriteError_def intro!: clean_map_put del: ballI)

lemma proper_internal_error [simp]: "proper_reply (internal_error e)"
  by (simp add: internal_error_def statuses_def)

lemma statuses_mem [simp]:
  "200 \<in> statuses" "201 \<in> statuses" "204 \<in> statuses" "400 \<in> statuses" "401 \<in> statuses" "404 \<in> statuses"
  "405 \<in> statuses" "409 \<in> statuses" "413 \<in> statuses" "415 \<in> statuses" "500 \<in> statuses" "503 \<in> statuses"
  by (simp_all add: statuses_def)

section \<open>Reads\<close>

lemma yields_handle_key_proper: "yields proper_reply (handle_key D st q ent keys)"
  unfolding handle_key_def
  by (auto intro!: yields_intro yields_bind_any [where m = "ExecuteQuery D sql ms" for sql ms]
      split: sum.splits option.splits)

definition early_reply :: "HttpResponse + 'a \<Rightarrow> bool" where
  "early_reply r = (case r of Inl resp \<Rightarrow> proper_reply resp | Inr x \<Rightarrow> True)"

lemma early_reply_simps [simp]: "early_reply (Inl resp) = proper_reply resp" "early_reply (Inr x)"
  by (simp_all add: early_reply_def)

lemma yields_count_proper: "yields early_reply (count_part D st q sql)"
  unfolding count_part_def
  by (auto intro!: yields_intro yields_bind_any [where m = "ExecuteQuery D sql ms" for sql ms]
      split: option.splits)

lemma yields_more_proper: "yields early_reply (more_part D st q ent paged n rows)"
proof -
  have inner: "yields early_reply
     (if 0 \<le> n then returnD (Inr n)
      else bindD (liftD (CompileCount q ent)) (\<lambda>cc.
             bindD (ExecuteQuery D (cq_sql cc) (st_query_timeout_ms st)) (\<lambda>res.
               case qr_error res of
                 Some e \<Rightarrow> returnD (Inl (internal_error e))
               | None \<Rightarrow> bindD (liftD (first_cell res)) (\<lambda>c.
                   case c of None \<Rightarrow> returnD (Inr n)
                   | Some v \<Rightarrow> bindD (liftD (dv_int64 v)) (\<lambda>n. returnD (Inr n))))))"
    by (auto intro!: yields_intro yields_bind_any [where m = "ExecuteQuery D sql ms" for sql ms] split: option.splits)
  show ?thesis
    unfolding more_part_def
    by (rule yields_if, rule yields_return, simp, rule yields_bind [OF inner])
       (auto intro!: yields_intro split: sum.splits)
qed

lemma yields_handle_collection_proper: "yields proper_reply (handle_collection D st rq q ent)"
  unfolding handle_collection_def Let_def
  by (auto intro!: yields_intro yields_bind [OF yields_count_proper] yields_bind [OF yields_more_proper]
      yields_bind_any [where m = "ExecuteQuery D sql ms" for sql ms] split: sum.splits option.splits prod.splits)

section \<open>Writes\<close>

text \<open>A path segment is made of letters, digits, \<open>-\<close>, \<open>_\<close> and \<open>%\<close>.\<close>

lemma EncodePath_chars: "x \<in> set (EncodePath s) \<Longrightarrow> isalnum x \<or> x \<in> {CHR ''-'', CHR ''_'', CHR ''%''}"
proof -
  have hex: "isalnum (path_hex d)" if "d < 16" for d
  proof -
    have "path_hex d \<in> set ''0123456789ABCDEF''" unfolding path_hex_def by (rule nth_mem) (use that in simp)
    then show ?thesis by (auto simp: char_class)
  qed
  have "code c div 16 < 16" for c using code_less [of c] by (simp only: less_mult_imp_div_less)
  then have "x \<in> set (encode_path_char c) \<Longrightarrow> isalnum x \<or> x \<in> {CHR ''-'', CHR ''_'', CHR ''%''}" for c
    using hex [of "code c div 16"] hex [of "code c mod 16"]
    by (auto simp: encode_path_char_def isalnum_def isalpha_def split: if_splits)
  then show "x \<in> set (EncodePath s) \<Longrightarrow> ?thesis" by (auto simp: EncodePath_def)
qed

lemma EncodePath_clean: "no_crlf (EncodePath s)"
  using EncodePath_chars [of "CHR 0x0D" s] by (auto simp: no_crlf_def char_class)

lemma location_clean: "no_crlf base \<Longrightarrow> no_crlf (location base ent k l)"
  by (simp add: location_def EncodePath_clean)

lemma created_location:
  "created_members base ent k chunk i ps = Inr (ms, Some l) \<Longrightarrow> \<exists>lit. l = location base ent k lit"
  by (induction ps arbitrary: i ms l)
     (auto simp: bindE_Inr_iff split: sum.splits if_splits prod.splits option.splits)

lemma write_headers_clean:
  "(\<And>l. loc = Some l \<Longrightarrow> no_crlf l) \<Longrightarrow> \<forall>(n, v) \<in> set (write_headers loc ins). no_crlf n \<and> no_crlf v"
  by (cases loc) (auto simp: write_headers_def Let_def intro!: clean_map_put del: ballI)

lemma fail_proper: "early_status f \<Longrightarrow> fail_result f = Inr r \<Longrightarrow> proper_reply r"
  by (cases f) (auto simp: fail_result_def early_status_def)

lemma written_response_proper:
  assumes "no_crlf base" "written_response ins base ent k chunks = Inr r"
  shows "proper_reply r"
proof -
  have "no_crlf l" if "created_members base ent k (hd chunks) 0 (e_properties ent) = Inr (ms, Some l)" for ms l
    using created_location [OF that] location_clean [OF assms(1)] by blast
  then have "\<forall>(n, v) \<in> set (rs_headers r). no_crlf n \<and> no_crlf v"
    using assms(2)
    by (auto simp: written_response_def bindE_Inr_iff split: if_splits intro!: write_headers_clean del: ballI)
  moreover have "rs_status r \<in> statuses"
    using written_response_status [OF assms(2)] by simp
  ultimately show ?thesis by (simp add: proper_reply_def clean_headers_def)
qed

lemma in_transaction_proper:
  assumes "no_crlf base" "in_transaction D plan ins base ent db = ((Inr r, cm), db')"
  shows "proper_reply r"
  using assms
  by (auto simp: in_transaction_def split: prod.splits option.splits sum.splits
      dest: written_response_proper intro: fail_proper [OF written_response_fail])

lemma yields_ExecuteWrite_proper:
  "no_crlf base \<Longrightarrow> yields proper_reply (ExecuteWrite D yyjson rq ent keys base)"
  by (auto simp: yields_def ExecuteWrite_def liftD_def split: sum.splits prod.splits if_splits
      dest: in_transaction_proper intro: fail_proper [OF prepare_write_fail])

section \<open>The handler\<close>

lemma yields_documents_proper:
  "yields proper_reply (service_document D st bs)" "yields proper_reply (metadata_document D bs)"
proof -
  have "proper_reply \<lparr>rs_status = 200, rs_headers = map_put ''OData-Version'' ''4.0''
      (map_put ''Content-Type'' ''application/xml'' []), rs_body = b\<rparr>" for b
    by (auto simp: proper_reply_def clean_headers_def intro!: clean_map_put del: ballI)
  then show "yields proper_reply (metadata_document D bs)"
    unfolding metadata_document_def by (auto intro!: yields_intro yields_bind_any)
  show "yields proper_reply (service_document D st bs)"
    unfolding service_document_def by (auto intro!: yields_intro yields_bind_any)
qed

lemma yields_handle_entity_proper:
  "no_crlf (st_base_path st) \<Longrightarrow> yields proper_reply (handle_entity D yyjson st rq route b)"
  unfolding handle_entity_def Let_def
  by (auto intro!: yields_intro yields_ExecuteWrite_proper yields_handle_key_proper
      yields_handle_collection_proper split: option.splits sum.splits)

lemma with_slot_proper:
  assumes "with_slot st body db = (Inr r, s')" "yields proper_reply (body (add_active 1 st))"
  shows "proper_reply r"
  using assms by (auto simp: with_slot_def yields_def split: if_splits prod.splits)

lemma handler_proper:
  assumes run: "HandleODataRequest D yyjson rq (st, db) = (Inr r, s')" and base: "no_crlf (st_base_path st)"
  shows "proper_reply r"
proof -
  have ent: "yields proper_reply (handle_entity D yyjson (add_active 1 st) rq route b)" for route b
    using base by (intro yields_handle_entity_proper) (simp add: add_active_def)
  have doc: "proper_reply r"
    if "in_state st (m db) = (Inr r, s')" "yields proper_reply m" for m
    using that by (auto simp: in_state_def yields_def split: prod.splits)
  from run show ?thesis
    by (auto simp: HandleODataRequest_def Let_def split: if_splits option.splits
        dest: doc [OF _ yields_documents_proper(1)] doc [OF _ yields_documents_proper(2)]
        with_slot_proper [where body = "\<lambda>st'. handle_entity D yyjson st' rq route b" for route b, OF _ ent])
qed

end
