(* ===== verification/Http_Send.thy ===== *)
theory Http_Send
  imports Http_Server
begin

text \<open>
  The end of a connection in \<open>SocketHttpServer::HandleConnection\<close>: the loop that sends the response,
  and the loop that discards what an uploading client still sends after a 413. The results of the
  system calls are lists, one element for each call that the loop may make: what \<open>send\<close> returns (at
  most the bytes it was given), and for the drain whether the deadline has not passed, whether \<open>poll\<close>
  reports data, and what \<open>recv\<close> returns.
\<close>

fun send_loop :: "int list \<Rightarrow> string \<Rightarrow> string \<times> string" where
  "send_loop rs [] = ([], [])"
| "send_loop [] data = ([], data)"
| "send_loop (n # rs) data =
     (if n \<le> 0 then ([], data)
      else case send_loop rs (drop (nat n) data) of (sent, rest) \<Rightarrow> (take (nat n) data @ sent, rest))"

record drain_event =
  before_deadline :: bool
  poll_pending :: bool
  recv_result :: int

definition max_drain :: nat where "max_drain = 8 * 1048576"

fun drain_loop :: "drain_event list \<Rightarrow> nat \<Rightarrow> nat" where
  "drain_loop [] drained = drained"
| "drain_loop (e # es) drained =
     (if drained < max_drain \<and> before_deadline e then
        (if \<not> poll_pending e then drained
         else if recv_result e \<le> 0 then drained
         else drain_loop es (drained + nat (recv_result e)))
      else drained)"

text \<open>What the client receives before the socket is closed, and how much of its data is discarded.\<close>

definition send_response :: "HttpResponse \<Rightarrow> int list \<Rightarrow> drain_event list \<Rightarrow> string \<times> nat" where
  "send_response r sends drains =
     (fst (send_loop sends (ToWire ''HTTP/1.1'' (with_content_type r))),
      if rs_status r = 413 then drain_loop drains 0 else 0)"

section \<open>What arrives\<close>

lemma send_loop_split: "send_loop rs data = (sent, rest) \<Longrightarrow> data = sent @ rest"
proof (induction rs data arbitrary: sent rest rule: send_loop.induct)
  case (3 n rs c cs)
  show ?case
  proof (cases "n \<le> 0")
    case False
    obtain s r where s: "send_loop rs (drop (nat n) (c # cs)) = (s, r)" by fastforce
    from "3.IH" [OF False s] have "drop (nat n) (c # cs) = s @ r" .
    then have "c # cs = take (nat n) (c # cs) @ s @ r" by (metis append_take_drop_id)
    with 3(2) False s show ?thesis by auto
  qed (use 3 in simp)
qed auto

lemma send_loop_complete:
  assumes "\<forall>n \<in> set rs. 0 < n" "int (length data) \<le> sum_list rs"
  shows "send_loop rs data = (data, [])"
  using assms
proof (induction rs data rule: send_loop.induct)
  case (3 n rs c cs)
  have "0 \<le> sum_list rs" using 3(2) by (intro sum_list_nonneg) (simp add: order_less_imp_le)
  with 3(3) have "int (length (drop (nat n) (c # cs))) \<le> sum_list rs" by auto
  with 3 have "send_loop rs (drop (nat n) (c # cs)) = (drop (nat n) (c # cs), [])"
    by (intro "3.IH") auto
  with 3 show ?case by simp
qed auto

lemma drain_loop_bound:
  assumes "\<forall>e \<in> set es. recv_result e \<le> 8192" "d < max_drain + 8192"
  shows "drain_loop es d < max_drain + 8192"
  using assms by (induction es arbitrary: d) auto

end
