(* ===== verification/Wire_Protocol.thy ===== *)
theory Wire_Protocol
  imports Response_Headers Demo_Database Http_Send
begin

text \<open>
  Properties of one connection: what the server makes of the bytes that arrive, in whatever chunks,
  and what a client reads back from the bytes that it sends.
\<close>

section \<open>Reading\<close>

text \<open>A request that arrives in three pieces.\<close>

definition sample_headers :: "(string \<times> string) list" where
  "sample_headers = [(''Content-Length'', ''2''), (''Authorization'', ''Bearer t'')]"

definition sample_socket :: socket where
  "sample_socket =
     (let s = request_head ''POST'' ''/o/c?a=%20'' sample_headers @ ''{}''
      in [take 7 s, take 60 (drop 7 s), drop 67 s])"

lemma sample_request:
  "word ''POST'' \<and> word ''/o/c?a=%20'' \<and> (\<forall>h \<in> set sample_headers. good_header h) \<and> single_length sample_headers
   \<and> body_headers sample_headers ''{}'' \<and> length (request_head ''POST'' ''/o/c?a=%20'' sample_headers) \<le> max_head
   \<and> concat sample_socket = request_head ''POST'' ''/o/c?a=%20'' sample_headers @ ''{}'' @ [] \<and> [] \<notin> set sample_socket"
  by code_simp

lemma small_body: "length ''{}'' \<le> max_body"
  by (simp add: max_body_def)

text \<open>
  Where the header ends does not depend on the pieces that the bytes arrive in.
\<close>

lemma header_is_chunk_independent:
  assumes "find_sub header_end (concat s) = Some p" "p + 4 \<le> max_head" "concat s = concat t"
    and "[] \<notin> set s" "[] \<notin> set t"
  shows "\<exists>h b s' b' t'. ReadRequestHead s = (Some (h, b), s') \<and> ReadRequestHead t = (Some (h, b'), t')
    \<and> h = take (p + 4) (concat s) \<and> b @ concat s' = b' @ concat t'"
proof -
  from ReadRequestHead_accepts [OF assms(1,2,4)] obtain b s' where
    s: "ReadRequestHead s = (Some (take (p + 4) (concat s), b), s')"
      "concat s = take (p + 4) (concat s) @ b @ concat s'" by blast
  from ReadRequestHead_accepts [of t p] assms obtain b' t' where
    t: "ReadRequestHead t = (Some (take (p + 4) (concat t), b'), t')"
      "concat t = take (p + 4) (concat t) @ b' @ concat t'" by auto
  from s(2) t(2) assms(3) have "b @ concat s' = b' @ concat t'" by (metis same_append_eq)
  with s(1) t(1) assms(3) show ?thesis by auto
qed

text \<open>
  C31. Every connection is answered once: it is refused with 400 or 413 and the handler is not
  called, or the handler is called once, with a body within the limit, and its response is sent, or
  the response with status 500 that stands for its exception.
\<close>

theorem one_answer:
  "(\<exists>r. connection_response handler s st = (r, st) \<and> rs_status r \<in> {400, 413})
   \<or> (\<exists>rq r st'. handler rq st = (Inr r, st') \<and> connection_response handler s st = (r, st')
        \<and> length (rq_body rq) \<le> max_body)
   \<or> (\<exists>rq e st'. handler rq st = (Inl e, st') \<and> connection_response handler s st = (exception_response e, st')
        \<and> length (rq_body rq) \<le> max_body)"
  by (rule connection_response_cases [of handler s st]) blast+

section \<open>Writing\<close>



text \<open>
  What a client has received when the socket is closed is a beginning of the response, and all of
  it when every send takes some bytes and together they take enough; after a 413 fewer than 8 MiB and
  8 KiB of the client's data are discarded, and after any other response none.
\<close>

lemma client_receives_a_prefix:
  assumes "\<forall>e \<in> set drains. recv_result e \<le> 8192"
  shows "\<exists>rest. ToWire ''HTTP/1.1'' (with_content_type r) = fst (send_response r sends drains) @ rest
    \<and> ((\<forall>n \<in> set sends. 0 < n) \<and> int (length (ToWire ''HTTP/1.1'' (with_content_type r))) \<le> sum_list sends
         \<longrightarrow> rest = [])
    \<and> snd (send_response r sends drains) < 8396800
    \<and> (rs_status r \<noteq> 413 \<longrightarrow> snd (send_response r sends drains) = 0)"
proof -
  let ?wire = "ToWire ''HTTP/1.1'' (with_content_type r)"
  obtain sent rest where s: "send_loop sends ?wire = (sent, rest)" by fastforce
  have "drain_loop drains 0 < 8396800"
    using drain_loop_bound [OF assms, of 0] by (simp add: max_drain_def)
  then show ?thesis
    using send_loop_split [OF s] send_loop_complete [of sends ?wire] s
    by (intro exI [of _ rest]) (auto simp: send_response_def)
qed

section \<open>From bytes to bytes\<close>

lemma clean_with_content_type: "clean_headers r \<Longrightarrow> clean_headers (with_content_type r)"
  by (auto simp: with_content_type_def clean_headers_def intro!: clean_map_put del: ballI)

lemma clean_exception_response: "clean_headers (exception_response e)"
  by (auto simp: exception_response_def clean_headers_def intro!: clean_map_put del: ballI)

lemma rs_with_content_type [simp]:
  "rs_body (with_content_type r) = rs_body r" "rs_status (with_content_type r) = rs_status r"
  by (simp_all add: with_content_type_def)

text \<open>
  C9. End to end: a well-formed request, cut into any pieces, is answered with bytes that a client
  reads as the status and the body of the handler's response to exactly that request, or of the
  response that stands for its exception, and the state of the server is as before.
\<close>

theorem served_on_the_wire:
  assumes "word meth" "word target" "\<forall>h \<in> set hs. good_header h" "single_length hs"
    and "body_headers hs body" "length body \<le> max_body"
    and "length (request_head meth target hs) \<le> max_head"
    and "concat s = request_head meth target hs @ body @ extra" "[] \<notin> set s"
    and "no_crlf (st_base_path st)"
  shows "\<exists>res r db' hdrs.
    HandleODataRequest D yyjson \<lparr>rq_method = meth, rq_path = UrlDecode (fst (split_target target)),
      rq_raw_query = snd (split_target target), rq_body = body,
      rq_query = ParseQueryString (snd (split_target target)), rq_headers = header_map hs\<rparr> (st, db) = (res, (st, db'))
    \<and> r = (case res of Inr r \<Rightarrow> r | Inl e \<Rightarrow> exception_response e)
    \<and> snd (HandleConnection (HandleODataRequest D yyjson) s (st, db)) = (st, db')
    \<and> read_lines (fst (HandleConnection (HandleODataRequest D yyjson) s (st, db)))
        = Some ((''HTTP/1.1 '' @ to_string (rs_status r) @ '' '' @ HttpStatusPhrase (rs_status r)) # hdrs, rs_body r)"
proof -
  let ?rq = "\<lparr>rq_method = meth, rq_path = UrlDecode (fst (split_target target)),
      rq_raw_query = snd (split_target target), rq_body = body,
      rq_query = ParseQueryString (snd (split_target target)), rq_headers = header_map hs\<rparr>"
  obtain res st' db' where run: "HandleODataRequest D yyjson ?rq (st, db) = (res, (st', db'))"
    by (metis prod.exhaust)
  then have st': "st' = st" by (rule HandleODataRequest_state)
  let ?r = "case res of Inr r \<Rightarrow> r | Inl e \<Rightarrow> exception_response e"
  have resp: "connection_response (HandleODataRequest D yyjson) s (st, db) = (?r, (st, db'))"
    using connection_delivers [OF assms(1-9), of "HandleODataRequest D yyjson" "(st, db)"] run st'
    by (simp split: sum.splits)
  have "clean_headers ?r"
  proof (cases res)
    case (Inr r)
    with handler_proper [of D yyjson ?rq st db r] run assms(10) show ?thesis by (simp add: proper_reply_def)
  qed (simp add: clean_exception_response)
  then have "read_lines (ToWire ''HTTP/1.1'' (with_content_type ?r))
      = Some (status_line ''HTTP/1.1'' (with_content_type ?r) # map header_text (wire_headers (with_content_type ?r)), rs_body ?r)"
    using read_ToWire [OF clean_with_content_type [of ?r], of "''HTTP/1.1''"] by simp
  with run st' resp show ?thesis
    by (intro exI [of _ res] exI [of _ ?r] exI [of _ db']
          exI [of _ "map header_text (wire_headers (with_content_type ?r))"])
       (simp add: HandleConnection_def status_line_def)
qed

theorem served_on_the_wire_witness:
  "no_crlf (st_base_path demo_state) \<and>
   (\<exists>lines body. read_lines (fst (HandleConnection (HandleODataRequest demo_duck demo_json) sample_socket (demo_state, 0)))
      = Some (lines, body))"
proof -
  have "no_crlf (st_base_path demo_state)" by code_simp
  with served_on_the_wire [of "''POST''" "''/o/c?a=%20''" sample_headers "''{}''" sample_socket "[]"
      demo_state demo_duck demo_json 0] sample_request small_body
  show ?thesis by blast
qed

end
