(* ===== verification/Response_Data.thy ===== *)
theory Response_Data
  imports Result_Serializer Edm_Model
begin

text \<open>
  Properties of the data in the responses: binary values and the metadata document.
\<close>

text \<open>The Base64 text of any bytes decodes to the bytes, with four characters for every three bytes begun.\<close>

lemma binary_round_trip:
  "Base64Decode (Base64Encode s) = Some s \<and> length (Base64Encode s) = (length s + 2) div 3 * 4"
  by (simp add: Base64_round_trip length_Base64Encode)

text \<open>
  C34. The metadata document of any model has a closing tag for every tag that it opens, in the right
  order, whatever the names of tables and columns are; a name in it is read back by undoing the
  escapes.
\<close>

theorem metadata_is_well_nested: "well_nested (GenerateEdmx model) \<and> xml_unescape (XmlEscape n) = Some n"
  by (simp add: GenerateEdmx_nested xml_unescape_XmlEscape)

end
