(* ===== verification/Server_Behaviour.thy ===== *)
theory Server_Behaviour
  imports Response_Headers Generated_Sql
begin

text \<open>
  Properties of the checks before the work: routes, the depth limit on filters and the bearer token.
\<close>

section \<open>Routes\<close>

definition textual_key :: "EdmProperty \<Rightarrow> bool" where
  "textual_key k \<longleftrightarrow> p_edm_type k \<in> {EdmType.STRING, EdmType.GUID, EdmType.DATE, EdmType.TIME_OF_DAY, EdmType.DATETIME_OFFSET}"

text \<open>
  C18. The Location of a created entity leads back to it: as the target of a request it is the route
  of the entity set with one key, whose value is the value of the key column, for every text, also
  one with quotes, slashes or percent signs.
\<close>

theorem location_leads_back:
  assumes "base \<noteq> []" "base \<noteq> ''/''" "set base \<inter> {CHR ''%'', CHR ''+'', CHR ''?''} = {}"
    and "entity_segment (e_name ent)"
    and "textual_key k \<or> (v \<noteq> [] \<and> trimmed v \<and> set v \<inter> {CHR 0x27, CHR '')''} = {})"
  shows "\<exists>raw. ParseRoute base (UrlDecode (fst (split_target (location base ent k v))))
      = empty_route\<lparr>r_entity := e_name ent, r_keys := [raw]\<rparr> \<and> key_value raw = v"
proof -
  let ?lit = "location_literal k v"
  have "CHR ''?'' \<notin> set (EncodePath s)" for s
    using EncodePath_chars [of "CHR ''?''" s] by (auto simp: char_class)
  then have target: "fst (split_target (location base ent k v)) = location base ent k v"
    using assms(3) by (simp add: location_def split_target_def)
  have "UrlDecode (location base ent k v) = base @ CHR ''/'' # e_name ent @ CHR ''('' # ?lit @ '')''"
    using assms(3) by (simp add: location_def UrlDecode_EncodePath_append)
  moreover have "scan_key False [] (?lit @ '')'') = Some (?lit, []) \<and> ?lit \<noteq> [] \<and> Trim ?lit = ?lit \<and> key_value ?lit = v"
  proof (cases "textual_key k")
    case True
    then have "?lit = QuoteStringLiteral v" by (auto simp: location_literal_def textual_key_def)
    moreover have "Trim (QuoteStringLiteral v) = QuoteStringLiteral v"
      by (rule Trim_trimmed) (simp add: trimmed_def QuoteStringLiteral_def)
    ultimately show ?thesis
      using scan_key_literal [of v "[]"] by (simp add: key_value_def) (simp add: QuoteStringLiteral_def)
  next
    case False
    then have "?lit = v" by (auto simp: location_literal_def textual_key_def)
    moreover have "v \<noteq> []" "trimmed v" "CHR 0x27 \<notin> set v" "CHR '')'' \<notin> set v"
      using False assms(5) by auto
    moreover from this have "hd v \<noteq> CHR 0x27" by (metis hd_in_set)
    ultimately show ?thesis
      using scan_key_unquoted [of v "[]" "[]"]
      by (auto simp: key_value_def in_single_quotes_def Trim_trimmed)
  qed
  ultimately show ?thesis
    using ParseRoute_key [OF assms(1,2,4), of ?lit] target by auto
qed

theorem location_leads_back_witness:
  "\<exists>raw. ParseRoute ''/o'' (UrlDecode (fst (split_target (location ''/o'' demo_entity
        (demo_property ''k'' EdmType.STRING ''VARCHAR'' True) (''a'' @ CHR 0x27 # ''/b%'')))))
      = empty_route\<lparr>r_entity := ''c'', r_keys := [raw]\<rparr> \<and> key_value raw = ''a'' @ CHR 0x27 # ''/b%''"
proof -
  have "set ''/o'' \<inter> {CHR ''%'', CHR ''+'', CHR ''?''} = {}" "entity_segment (e_name demo_entity)"
    "textual_key (demo_property ''k'' EdmType.STRING ''VARCHAR'' True)" "e_name demo_entity = ''c''"
    by code_simp+
  with location_leads_back [of "''/o''" demo_entity "demo_property ''k'' EdmType.STRING ''VARCHAR'' True"
      "''a'' @ CHR 0x27 # ''/b%''"]
  show ?thesis by simp
qed

section \<open>The depth of a filter\<close>

lemma nesting_open: "nesting d (replicate n (CHR ''('') @ s) = nesting (d + n) s"
  by (induction n arbitrary: d) simp_all

lemma nesting_close: "nesting (d + n) (replicate n (CHR '')'')) = d + n"
proof (induction n arbitrary: d)
  case (Suc n)
  have "nesting (d + Suc n) (replicate (Suc n) (CHR '')'')) = max (d + Suc n) (nesting (d + n) (replicate n (CHR '')'')))"
    by simp
  with Suc show ?case by simp
qed simp

text \<open>
  The depth check takes the empty string literal for an open quote: a filter passes every limit,
  however deep its parentheses are nested, when an empty literal comes before them.
\<close>

lemma depth_check_bypassed:
  "FilterWithinDepth (nested_filter (Suc n)) max_depth \<and> nesting 0 (nested_filter (Suc n)) = Suc n"
proof -
  have "nesting 0 (nested_filter (Suc n)) = nesting (0 + Suc n) (replicate (Suc n) (CHR '')''))"
    unfolding nested_filter_def QuoteStringLiteral_def
    by (simp add: nesting_open del: replicate.simps) 
  then show ?thesis
    by (simp only: nesting_close) (simp add: FilterWithinDepth_nested)
qed

section \<open>Authentication\<close>

text \<open>
  C28. With a token configured, a header is accepted exactly when it is a scheme that is "bearer" in
  any case, one blank, and the token, with blanks around it allowed; without a token every header is.
\<close>

theorem bearer_token_accepted:
  "CheckBearerToken hdr tok \<longleftrightarrow>
     tok = [] \<or> (\<exists>scheme rest. hdr = scheme @ CHR '' '' # rest \<and> CHR '' '' \<notin> set scheme
                    \<and> ToLower scheme = ''bearer'' \<and> Trim rest = tok)"
  by (rule CheckBearerToken_iff)

text \<open>
  A token that begins or ends with a blank can never be presented.
\<close>

lemma padded_token_locks_out:
  assumes "tok \<noteq> []" "Trim tok \<noteq> tok"
  shows "\<not> CheckBearerToken hdr tok"
  using assms Trim_idem by (auto simp: CheckBearerToken_iff)

end
