(* ===== verification/Query_Slots.thy ===== *)
theory Query_Slots
  imports Transition_Systems Odata_Server "HOL-Library.Multiset"
begin

text \<open>
  The limit on concurrent queries, \<open>state.active_queries\<close> in \<open>HandleODataRequest\<close>, under any
  interleaving of requests. A request adds one to the counter and gets the old value, compares that
  value with the limit, and takes one off when it is refused or when its \<open>QuerySlot\<close> is destroyed.
  The state counts the requests at each of these points; the ones between the addition and the
  comparison carry the value they got. Starting the server again sets the counter to zero whatever
  requests are still running.
\<close>

record slots =
  sl_limit :: int
  sl_counter :: int
  sl_checking :: "int multiset"
  sl_running :: nat
  sl_refused :: nat

definition over_limit :: "int \<Rightarrow> int \<Rightarrow> bool" where
  "over_limit limit active \<longleftrightarrow> 0 < limit \<and> limit \<le> active"

lemma slot_busy_over_limit: "slot_busy st = over_limit (st_max_concurrent_queries st) (st_active_queries st)"
  by (simp add: slot_busy_def over_limit_def)

definition idle :: "int \<Rightarrow> slots" where
  "idle limit = \<lparr>sl_limit = limit, sl_counter = 0, sl_checking = {#}, sl_running = 0, sl_refused = 0\<rparr>"

inductive slot_step :: "slots \<Rightarrow> slots \<Rightarrow> bool" where
  arrive: "slot_step s (s\<lparr>sl_counter := sl_counter s + 1, sl_checking := add_mset (sl_counter s) (sl_checking s)\<rparr>)"
| admit: "n \<in># sl_checking s \<Longrightarrow> \<not> over_limit (sl_limit s) n \<Longrightarrow>
    slot_step s (s\<lparr>sl_checking := sl_checking s - {#n#}, sl_running := sl_running s + 1\<rparr>)"
| refuse: "n \<in># sl_checking s \<Longrightarrow> over_limit (sl_limit s) n \<Longrightarrow>
    slot_step s (s\<lparr>sl_checking := sl_checking s - {#n#}, sl_refused := sl_refused s + 1\<rparr>)"
| withdraw: "0 < sl_refused s \<Longrightarrow>
    slot_step s (s\<lparr>sl_counter := sl_counter s - 1, sl_refused := sl_refused s - 1\<rparr>)"
| finish: "0 < sl_running s \<Longrightarrow>
    slot_step s (s\<lparr>sl_counter := sl_counter s - 1, sl_running := sl_running s - 1\<rparr>)"

inductive serve_step :: "slots \<Rightarrow> slots \<Rightarrow> bool" where
  request: "slot_step s t \<Longrightarrow> serve_step s t"
| restart: "serve_step s (s\<lparr>sl_counter := 0, sl_limit := limit\<rparr>)"

inductive_cases slot_stepE: "slot_step s t"

section \<open>The limit holds while the server is not restarted\<close>

definition in_flight :: "slots \<Rightarrow> nat" where
  "in_flight s = size (sl_checking s) + sl_running s + sl_refused s"

text \<open>The requests that run or will be admitted.\<close>

definition admitted :: "slots \<Rightarrow> nat" where
  "admitted s = size (filter_mset (\<lambda>n. \<not> over_limit (sl_limit s) n) (sl_checking s)) + sl_running s"

definition slots_ok :: "slots \<Rightarrow> bool" where
  "slots_ok s \<longleftrightarrow> sl_counter s = int (in_flight s)
     \<and> (0 < sl_limit s \<longrightarrow> int (admitted s) \<le> sl_limit s)"

lemma admitted_le: "admitted s \<le> in_flight s"
  using size_filter_mset_lesseq [of "\<lambda>n. \<not> over_limit (sl_limit s) n" "sl_checking s"]
  unfolding admitted_def in_flight_def by linarith

lemma size_remove: "n \<in># M \<Longrightarrow> size (M - {#n#}) + 1 = size M"
  by (simp add: size_Diff_singleton) (metis Suc_pred size_eq_0_iff_empty empty_iff set_mset_empty not_gr_zero)

lemma slots_ok_step: "slots_ok s \<Longrightarrow> slot_step s t \<Longrightarrow> slots_ok t"
proof (erule slot_stepE, goal_cases)
  case 1
  then show ?case
    using admitted_le [of s]
    by (auto simp: slots_ok_def in_flight_def admitted_def over_limit_def)
next
  case (2 n)
  from 2(3) obtain M where "sl_checking s = add_mset n M" by (metis mset_add)
  with 2 show ?case by (auto simp: slots_ok_def in_flight_def admitted_def)
next
  case (3 n)
  from 3(3) obtain M where "sl_checking s = add_mset n M" by (metis mset_add)
  with 3 show ?case by (auto simp: slots_ok_def in_flight_def admitted_def)
qed (auto simp: slots_ok_def in_flight_def admitted_def)

interpretation slots: safe_system "\<lambda>s. s = idle limit" slot_step slots_ok for limit
proof unfold_locales
  show "slots_ok s" if "s = idle limit" for s limit
    using that by (simp add: slots_ok_def idle_def in_flight_def admitted_def)
qed (rule slots_ok_step)

lemma limit_constant: "reachable (\<lambda>s. s = idle limit) slot_step s \<Longrightarrow> sl_limit s = limit"
  by (induction rule: reachable.induct) (auto simp: idle_def elim!: slot_stepE)

section \<open>A request can always leave\<close>

text \<open>From every state the requests in flight can finish, and then no slot is taken.\<close>

definition drained :: "slots \<Rightarrow> bool" where
  "drained s \<longleftrightarrow> sl_checking s = {#} \<and> sl_running s = 0 \<and> sl_refused s = 0"

lemma drain_step:
  assumes "\<not> drained s"
  shows "\<exists>t. slot_step s t \<and> 2 * size (sl_checking t) + sl_running t + sl_refused t
    < 2 * size (sl_checking s) + sl_running s + sl_refused s"
proof -
  consider (c) n where "n \<in># sl_checking s" | (r) "0 < sl_running s" | (f) "0 < sl_refused s"
    using assms by (auto simp: drained_def)
  then show ?thesis
  proof cases
    case c
    then have sz: "size (sl_checking s - {#n#}) + 1 = size (sl_checking s)" by (rule size_remove)
    show ?thesis
    proof (cases "over_limit (sl_limit s) n")
      case True
      show ?thesis by (rule exI, rule conjI, rule refuse [OF c True]) (use sz in simp)
    next
      case False
      show ?thesis by (rule exI, rule conjI, rule admit [OF c False]) (use sz in simp)
    qed
  next
    case r
    show ?thesis by (rule exI, rule conjI, rule finish [OF r]) (use r in simp)
  next
    case f
    show ?thesis by (rule exI, rule conjI, rule withdraw [OF f]) (use f in simp)
  qed
qed

lemma can_drain: "\<exists>t. slot_step\<^sup>*\<^sup>* s t \<and> drained t"
proof (induction "2 * size (sl_checking s) + sl_running s + sl_refused s" arbitrary: s rule: less_induct)
  case less
  show ?case
  proof (cases "drained s")
    case False
    then obtain u where "slot_step s u" "2 * size (sl_checking u) + sl_running u + sl_refused u
        < 2 * size (sl_checking s) + sl_running s + sl_refused s"
      using drain_step by blast
    with less [of u] show ?thesis by (meson converse_rtranclp_into_rtranclp)
  qed blast
qed

section \<open>Restarting\<close>

text \<open>With a limit of one, two requests run at once after a restart.\<close>

lemma request_runs:
  assumes "\<not> over_limit (sl_limit s) (sl_counter s)"
  shows "serve_step\<^sup>*\<^sup>* s (s\<lparr>sl_counter := sl_counter s + 1, sl_running := sl_running s + 1\<rparr>)"
proof -
  let ?t = "s\<lparr>sl_counter := sl_counter s + 1, sl_checking := add_mset (sl_counter s) (sl_checking s)\<rparr>"
  have "serve_step s ?t" by (intro request arrive)
  moreover have "serve_step ?t (?t\<lparr>sl_checking := sl_checking ?t - {#sl_counter s#}, sl_running := sl_running ?t + 1\<rparr>)"
    using assms by (intro request admit) auto
  ultimately show ?thesis by simp
qed

lemma restart_breaks_limit:
  "reachable (\<lambda>s. s = idle 1) serve_step (idle 1\<lparr>sl_counter := 1, sl_running := 2\<rparr>)"
proof -
  let ?one = "idle 1\<lparr>sl_counter := 1, sl_running := 1\<rparr>"
  have "serve_step\<^sup>*\<^sup>* (idle 1) ?one"
    using request_runs [of "idle 1"] by (simp add: idle_def over_limit_def)
  moreover have "serve_step ?one (?one\<lparr>sl_counter := 0, sl_limit := 1\<rparr>)" by (rule restart)
  moreover have "serve_step\<^sup>*\<^sup>* (?one\<lparr>sl_counter := 0, sl_limit := 1\<rparr>) (idle 1\<lparr>sl_counter := 1, sl_running := 2\<rparr>)"
    using request_runs [of "?one\<lparr>sl_counter := 0, sl_limit := 1\<rparr>"] by (simp add: idle_def over_limit_def numeral_2_eq_2)
  ultimately have "serve_step\<^sup>*\<^sup>* (idle 1) (idle 1\<lparr>sl_counter := 1, sl_running := 2\<rparr>)"
    by (meson rtranclp.rtrancl_into_rtrancl rtranclp_trans)
  then show ?thesis by (rule reachable_rtranclp) (rule reachable.start, rule refl)
qed

end
