(* ===== verification/Query_Watchdog.thy ===== *)
theory Query_Watchdog
  imports Transition_Systems
begin

text \<open>
  A query with a timeout, the second \<open>LocalDuckDBExecutor::Execute\<close> of
  \<open>src/src/execution/query_executor.cpp\<close>, under any interleaving of its two threads. The watchdog waits on
  a condition variable until the query is done or the deadline has passed, and calls \<open>Interrupt\<close> while
  it holds the mutex; the executor runs the query, sets \<open>done\<close> under the mutex, notifies and joins.
  \<open>wait_for\<close> tests its predicate before it waits and after each wake-up, spurious ones included;
  \<open>Interrupt\<close> acts on the query that is running. The result is the one call \<open>duck_query_within\<close> of
  \<open>Duck_Db\<close>.
\<close>

datatype executor = Starting | Querying | Queried | Done_Set | Notified | Returned

datatype watchdog = Created | Waiting | Interrupting | Ended

record timed_query =
  tq_done :: bool
  tq_deadline :: bool
  tq_executor :: executor
  tq_watchdog :: watchdog
  tq_interrupts :: nat
  tq_cut :: bool

text \<open>When the watchdog thread has been created.\<close>

definition query_started :: timed_query where
  "query_started = \<lparr>tq_done = False, tq_deadline = False, tq_executor = Starting, tq_watchdog = Created,
     tq_interrupts = 0, tq_cut = False\<rparr>"

text \<open>\<open>done\<close> is set when the mutex is free, so not while the watchdog interrupts.\<close>

inductive executor_step :: "timed_query \<Rightarrow> timed_query \<Rightarrow> bool" where
  begin_query: "tq_executor s = Starting \<Longrightarrow> executor_step s (s\<lparr>tq_executor := Querying\<rparr>)"
| end_query: "tq_executor s = Querying \<Longrightarrow> executor_step s (s\<lparr>tq_executor := Queried\<rparr>)"
| set_done: "tq_executor s = Queried \<Longrightarrow> tq_watchdog s \<noteq> Interrupting \<Longrightarrow>
    executor_step s (s\<lparr>tq_executor := Done_Set, tq_done := True\<rparr>)"
| notify: "tq_executor s = Done_Set \<Longrightarrow> executor_step s (s\<lparr>tq_executor := Notified\<rparr>)"
| join_watchdog: "tq_executor s = Notified \<Longrightarrow> tq_watchdog s = Ended \<Longrightarrow> executor_step s (s\<lparr>tq_executor := Returned\<rparr>)"

inductive watchdog_step :: "timed_query \<Rightarrow> timed_query \<Rightarrow> bool" where
  wait: "tq_watchdog s = Created \<Longrightarrow> \<not> tq_done s \<Longrightarrow> watchdog_step s (s\<lparr>tq_watchdog := Waiting\<rparr>)"
| no_wait: "tq_watchdog s = Created \<Longrightarrow> tq_done s \<Longrightarrow> watchdog_step s (s\<lparr>tq_watchdog := Ended\<rparr>)"
| wake: "tq_watchdog s = Waiting \<Longrightarrow> tq_done s \<Longrightarrow> watchdog_step s (s\<lparr>tq_watchdog := Ended\<rparr>)"
| pass: "tq_watchdog s = Waiting \<Longrightarrow> \<not> tq_deadline s \<Longrightarrow> watchdog_step s (s\<lparr>tq_deadline := True\<rparr>)"
| expire: "tq_watchdog s = Waiting \<Longrightarrow> tq_deadline s \<Longrightarrow> \<not> tq_done s \<Longrightarrow>
    watchdog_step s (s\<lparr>tq_watchdog := Interrupting\<rparr>)"
| interrupt: "tq_watchdog s = Interrupting \<Longrightarrow>
    watchdog_step s (s\<lparr>tq_watchdog := Ended, tq_interrupts := tq_interrupts s + 1,
                       tq_cut := (tq_cut s \<or> tq_executor s = Querying)\<rparr>)"

inductive query_step :: "timed_query \<Rightarrow> timed_query \<Rightarrow> bool" where
  executor: "executor_step s t \<Longrightarrow> query_step s t"
| watchdog: "watchdog_step s t \<Longrightarrow> query_step s t"

inductive_cases executor_stepE: "executor_step s t"
inductive_cases watchdog_stepE: "watchdog_step s t"
inductive_cases query_stepE: "query_step s t"

section \<open>The invariant\<close>

definition query_ok :: "timed_query \<Rightarrow> bool" where
  "query_ok s \<longleftrightarrow>
     (tq_done s \<longleftrightarrow> tq_executor s \<in> {Done_Set, Notified, Returned}) \<and>
     (tq_executor s = Returned \<longrightarrow> tq_watchdog s = Ended) \<and>
     (tq_watchdog s = Interrupting \<longrightarrow> tq_deadline s \<and> \<not> tq_done s) \<and>
     tq_interrupts s = (if tq_watchdog s = Ended then tq_interrupts s else 0) \<and>
     tq_interrupts s \<le> 1 \<and>
     (0 < tq_interrupts s \<longrightarrow> tq_deadline s) \<and>
     (tq_cut s \<longrightarrow> tq_interrupts s = 1)"

lemma query_ok_step: "query_ok s \<Longrightarrow> query_step s t \<Longrightarrow> query_ok t"
  by (elim query_stepE executor_stepE watchdog_stepE) (auto simp: query_ok_def split: if_splits)

interpretation queries: safe_system "\<lambda>s. s = query_started" query_step query_ok
proof unfold_locales
  show "query_ok s" if "s = query_started" for s
    using that by (simp add: query_ok_def query_started_def)
qed (rule query_ok_step)

section \<open>Every run ends\<close>

fun executor_left :: "executor \<Rightarrow> nat" where
  "executor_left Starting = 5"
| "executor_left Querying = 4"
| "executor_left Queried = 3"
| "executor_left Done_Set = 2"
| "executor_left Notified = 1"
| "executor_left Returned = 0"

fun watchdog_left :: "watchdog \<Rightarrow> nat" where
  "watchdog_left Created = 3"
| "watchdog_left Waiting = 2"
| "watchdog_left Interrupting = 1"
| "watchdog_left Ended = 0"

definition steps_left :: "timed_query \<Rightarrow> nat" where
  "steps_left s = executor_left (tq_executor s) + watchdog_left (tq_watchdog s) + of_bool (\<not> tq_deadline s)"

lemma steps_left_step: "query_step s t \<Longrightarrow> steps_left t < steps_left s"
  by (elim query_stepE executor_stepE watchdog_stepE) (auto simp: steps_left_def)

text \<open>A thread that has something left is never stuck: only a query that has returned has no step.\<close>

lemma watchdog_can_step: "tq_watchdog s \<noteq> Ended \<Longrightarrow> \<exists>t. query_step s t"
  using wait no_wait wake pass expire interrupt watchdog
  by (cases "tq_watchdog s"; cases "tq_done s"; cases "tq_deadline s") blast+

lemma executor_can_step: "tq_watchdog s = Ended \<Longrightarrow> tq_executor s \<noteq> Returned \<Longrightarrow> \<exists>t. query_step s t"
  using begin_query end_query set_done notify join_watchdog executor
  by (cases "tq_executor s") (metis watchdog.distinct(11))+

lemma stuck_iff_returned:
  assumes "query_ok s"
  shows "(\<forall>t. \<not> query_step s t) \<longleftrightarrow> tq_executor s = Returned"
proof
  show "tq_executor s = Returned" if "\<forall>t. \<not> query_step s t"
    using that watchdog_can_step executor_can_step by blast
  show "\<forall>t. \<not> query_step s t" if "tq_executor s = Returned"
    using assms that by (auto simp: query_ok_def elim!: query_stepE executor_stepE watchdog_stepE)
qed

section \<open>An interrupt that comes too early\<close>

text \<open>
  When the deadline passes before the executor has begun the query, the one interrupt is spent: the query
  runs without a limit.
\<close>

lemma interrupt_can_be_lost:
  "\<exists>s. reachable (\<lambda>s. s = query_started) query_step s \<and> tq_executor s = Querying \<and> tq_deadline s \<and> \<not> tq_cut s
     \<and> (\<forall>t. query_step\<^sup>*\<^sup>* s t \<longrightarrow> \<not> tq_cut t)"
proof -
  let ?a = "query_started\<lparr>tq_watchdog := Waiting\<rparr>"
  let ?b = "?a\<lparr>tq_deadline := True\<rparr>"
  let ?c = "?b\<lparr>tq_watchdog := Interrupting\<rparr>"
  let ?d = "?c\<lparr>tq_watchdog := Ended, tq_interrupts := 1\<rparr>"
  let ?e = "?d\<lparr>tq_executor := Querying\<rparr>"
  have "reachable (\<lambda>s. s = query_started) query_step query_started" by (rule reachable.start) simp
  moreover have "query_step query_started ?a" by (intro watchdog wait) (simp_all add: query_started_def)
  moreover have "query_step ?a ?b" by (intro watchdog pass) (simp_all add: query_started_def)
  moreover have "query_step ?b ?c" by (intro watchdog expire) (simp_all add: query_started_def)
  moreover have "query_step ?c ?d"
    using watchdog [OF interrupt [of ?c]] by (simp add: query_started_def)
  moreover have "query_step ?d ?e" by (intro executor begin_query) (simp add: query_started_def)
  ultimately have r: "reachable (\<lambda>s. s = query_started) query_step ?e" by (meson reachable.step)
  have "tq_watchdog t = Ended \<and> \<not> tq_cut t" if "query_step\<^sup>*\<^sup>* ?e t" for t
    using that
  proof (induction rule: rtranclp_induct)
    case (step t u)
    from step(2,3) show ?case by (elim query_stepE executor_stepE watchdog_stepE) auto
  qed (simp add: query_started_def)
  with r show ?thesis by (intro exI [of _ ?e]) (simp add: query_started_def)
qed

end
