(* ===== verification/Server_Lifecycle.thy ===== *)
theory Server_Lifecycle
  imports Transition_Systems
begin

text \<open>
  The threads of a started server, \<open>AcceptLoop\<close> and \<open>Stop\<close> of \<open>src/src/server/http_server.cpp\<close> and
  \<open>StopODataServer\<close>, which destroys the server object when \<open>Stop\<close> returns. The accept thread tests
  \<open>stop_requested\<close>, waits in \<open>accept\<close> and detaches a thread for each connection; the stopping thread
  sets the flag, closes the socket and joins the accept thread. A connection thread uses the server
  object when it calls \<open>handler\<close>. Each step is one of these actions, in any interleaving; an
  \<open>accept\<close> may also fail for a reason of its own.
\<close>

datatype acceptor = Testing | Accepting | Exited

datatype stopper = Serving | Flag_Set | Socket_Closed | Joined | Destroyed

record lifecycle =
  lc_stop_requested :: bool
  lc_running :: bool
  lc_listening :: bool
  lc_acceptor :: acceptor
  lc_stopper :: stopper
  lc_before_handler :: nat
  lc_in_handler :: nat

text \<open>After \<open>Start\<close>.\<close>

definition started :: lifecycle where
  "started = \<lparr>lc_stop_requested = False, lc_running = True, lc_listening = True, lc_acceptor = Testing,
     lc_stopper = Serving, lc_before_handler = 0, lc_in_handler = 0\<rparr>"

inductive accept_step :: "lifecycle \<Rightarrow> lifecycle \<Rightarrow> bool" where
  test: "lc_acceptor s = Testing \<Longrightarrow> \<not> lc_stop_requested s \<Longrightarrow> accept_step s (s\<lparr>lc_acceptor := Accepting\<rparr>)"
| leave: "lc_acceptor s = Testing \<Longrightarrow> lc_stop_requested s \<Longrightarrow>
    accept_step s (s\<lparr>lc_acceptor := Exited, lc_running := False\<rparr>)"
| accept: "lc_acceptor s = Accepting \<Longrightarrow> lc_listening s \<Longrightarrow>
    accept_step s (s\<lparr>lc_acceptor := Testing, lc_before_handler := lc_before_handler s + 1\<rparr>)"
| fail_retry: "lc_acceptor s = Accepting \<Longrightarrow> \<not> lc_stop_requested s \<Longrightarrow> accept_step s (s\<lparr>lc_acceptor := Testing\<rparr>)"
| fail_leave: "lc_acceptor s = Accepting \<Longrightarrow> lc_stop_requested s \<Longrightarrow>
    accept_step s (s\<lparr>lc_acceptor := Exited, lc_running := False\<rparr>)"

inductive stop_step :: "lifecycle \<Rightarrow> lifecycle \<Rightarrow> bool" where
  request: "lc_stopper s = Serving \<Longrightarrow> stop_step s (s\<lparr>lc_stop_requested := True, lc_stopper := Flag_Set\<rparr>)"
| close_socket: "lc_stopper s = Flag_Set \<Longrightarrow> stop_step s (s\<lparr>lc_listening := False, lc_stopper := Socket_Closed\<rparr>)"
| join: "lc_stopper s = Socket_Closed \<Longrightarrow> lc_acceptor s = Exited \<Longrightarrow>
    stop_step s (s\<lparr>lc_stopper := Joined, lc_running := False\<rparr>)"
| destroy: "lc_stopper s = Joined \<Longrightarrow> stop_step s (s\<lparr>lc_stopper := Destroyed\<rparr>)"

inductive connection_step :: "lifecycle \<Rightarrow> lifecycle \<Rightarrow> bool" where
  enter: "0 < lc_before_handler s \<Longrightarrow>
    connection_step s (s\<lparr>lc_before_handler := lc_before_handler s - 1, lc_in_handler := lc_in_handler s + 1\<rparr>)"
| reject: "0 < lc_before_handler s \<Longrightarrow> connection_step s (s\<lparr>lc_before_handler := lc_before_handler s - 1\<rparr>)"
| close_connection: "0 < lc_in_handler s \<Longrightarrow> connection_step s (s\<lparr>lc_in_handler := lc_in_handler s - 1\<rparr>)"

inductive lifecycle_step :: "lifecycle \<Rightarrow> lifecycle \<Rightarrow> bool" where
  acceptor: "accept_step s t \<Longrightarrow> lifecycle_step s t"
| stopper: "stop_step s t \<Longrightarrow> lifecycle_step s t"
| connection: "connection_step s t \<Longrightarrow> lifecycle_step s t"

inductive_cases accept_stepE: "accept_step s t"
inductive_cases stop_stepE: "stop_step s t"
inductive_cases connection_stepE: "connection_step s t"
inductive_cases lifecycle_stepE: "lifecycle_step s t"

section \<open>After a stop nothing is accepted\<close>

definition lifecycle_ok :: "lifecycle \<Rightarrow> bool" where
  "lifecycle_ok s \<longleftrightarrow>
     (lc_stop_requested s \<longleftrightarrow> lc_stopper s \<noteq> Serving) \<and>
     (lc_listening s \<longleftrightarrow> lc_stopper s = Serving \<or> lc_stopper s = Flag_Set) \<and>
     (lc_running s \<longleftrightarrow> lc_acceptor s \<noteq> Exited) \<and>
     (lc_acceptor s = Exited \<longrightarrow> lc_stop_requested s) \<and>
     (lc_stopper s = Joined \<or> lc_stopper s = Destroyed \<longrightarrow> lc_acceptor s = Exited)"

lemma lifecycle_ok_step: "lifecycle_ok s \<Longrightarrow> lifecycle_step s t \<Longrightarrow> lifecycle_ok t"
  by (elim lifecycle_stepE accept_stepE stop_stepE connection_stepE) (auto simp: lifecycle_ok_def)

interpretation lifecycle: safe_system "\<lambda>s. s = started" lifecycle_step lifecycle_ok
proof unfold_locales
  show "lifecycle_ok s" if "s = started" for s
    using that by (simp add: lifecycle_ok_def started_def)
qed (rule lifecycle_ok_step)

text \<open>Once \<open>Stop\<close> has returned, no step adds a connection.\<close>

definition connections :: "lifecycle \<Rightarrow> nat" where
  "connections s = lc_before_handler s + lc_in_handler s"

lemma no_new_connections:
  assumes "lifecycle_ok s" "lc_stopper s = Joined \<or> lc_stopper s = Destroyed" "lifecycle_step s t"
  shows "connections t \<le> connections s \<and> (lc_stopper t = Joined \<or> lc_stopper t = Destroyed)"
  using assms(3,1,2)
  by (elim lifecycle_stepE accept_stepE stop_stepE connection_stepE) (auto simp: lifecycle_ok_def connections_def)

lemma no_new_connections_ever:
  "lifecycle_step\<^sup>*\<^sup>* s t \<Longrightarrow> lifecycle_ok s \<Longrightarrow> lc_stopper s = Joined \<or> lc_stopper s = Destroyed \<Longrightarrow>
     connections t \<le> connections s \<and> (lc_stopper t = Joined \<or> lc_stopper t = Destroyed)"
proof (induction rule: rtranclp_induct)
  case (step t u)
  then have "lifecycle_ok t" by (blast intro: lifecycle.reachable_from_inv)
  with step no_new_connections [of t u] show ?case by fastforce
qed simp

section \<open>A stop ends\<close>

text \<open>
  While the stopping thread waits for the accept thread, that thread has exited or has a step, and
  its next step is its last.
\<close>

lemma stop_never_blocks:
  assumes "lifecycle_ok s" "lc_stopper s = Socket_Closed"
  shows "(\<exists>t. accept_step s t) \<or> (\<exists>t. stop_step s t)"
    and "accept_step s t \<Longrightarrow> lc_acceptor t = Exited"
proof -
  from assms have st: "lc_stop_requested s" "\<not> lc_listening s" by (auto simp: lifecycle_ok_def)
  show "(\<exists>t. accept_step s t) \<or> (\<exists>t. stop_step s t)"
    using assms(2) st(1) leave fail_leave join by (cases "lc_acceptor s") blast+
  show "accept_step s t \<Longrightarrow> lc_acceptor t = Exited"
    using st by (elim accept_stepE) auto
qed

text \<open>From every reachable state the server can be stopped.\<close>

lemma closed_can_join:
  assumes "lifecycle_ok s" "lc_stopper s = Socket_Closed"
  shows "\<exists>t. lifecycle_step\<^sup>*\<^sup>* s t \<and> lc_stopper t = Joined"
proof -
  have join_now: "\<exists>t. lifecycle_step\<^sup>*\<^sup>* u t \<and> lc_stopper t = Joined"
    if "lc_stopper u = Socket_Closed" "lc_acceptor u = Exited" for u
    using stopper [OF join [OF that]] by (intro exI conjI r_into_rtranclp) auto
  show ?thesis
  proof (cases "lc_acceptor s = Exited")
    case False
    have "lc_stop_requested s" using assms by (auto simp: lifecycle_ok_def)
    then have "accept_step s (s\<lparr>lc_acceptor := Exited, lc_running := False\<rparr>)"
      using False leave fail_leave by (cases "lc_acceptor s") auto
    with join_now [of "s\<lparr>lc_acceptor := Exited, lc_running := False\<rparr>"] assms(2) show ?thesis
      by (auto intro: converse_rtranclp_into_rtranclp acceptor)
  qed (use join_now assms(2) in blast)
qed

lemma can_stop:
  assumes "lifecycle_ok s"
  shows "\<exists>t. lifecycle_step\<^sup>*\<^sup>* s t \<and> (lc_stopper t = Joined \<or> lc_stopper t = Destroyed)"
proof -
  have closed: "\<exists>t. lifecycle_step\<^sup>*\<^sup>* u t \<and> lc_stopper t = Joined"
    if "lifecycle_ok u" "lc_stopper u = Flag_Set" for u
  proof -
    let ?v = "u\<lparr>lc_listening := False, lc_stopper := Socket_Closed\<rparr>"
    have v: "lifecycle_step u ?v" using that(2) by (intro stopper close_socket)
    with that(1) have "lifecycle_ok ?v" by (rule lifecycle_ok_step)
    with closed_can_join [of ?v] v show ?thesis by (auto intro: converse_rtranclp_into_rtranclp)
  qed
  show ?thesis
  proof (cases "lc_stopper s")
    case Serving
    let ?v = "s\<lparr>lc_stop_requested := True, lc_stopper := Flag_Set\<rparr>"
    have v: "lifecycle_step s ?v" using Serving by (intro stopper request)
    with assms have "lifecycle_ok ?v" by (rule lifecycle_ok_step)
    with closed [of ?v] v show ?thesis by (auto intro: converse_rtranclp_into_rtranclp)
  qed (use closed closed_can_join assms in blast)+
qed

section \<open>The server object does not outlive its connections\<close>

text \<open>A connection accepted before the stop is served after the object it uses is destroyed.\<close>

lemma destroyed_before_handler:
  "reachable (\<lambda>s. s = started) lifecycle_step
     (started\<lparr>lc_stop_requested := True, lc_running := False, lc_listening := False, lc_acceptor := Exited,
        lc_stopper := Destroyed, lc_before_handler := 1\<rparr>)"
proof -
  let ?a = "started\<lparr>lc_acceptor := Accepting\<rparr>"
  let ?b = "started\<lparr>lc_before_handler := 1\<rparr>"
  let ?c = "?b\<lparr>lc_stop_requested := True, lc_stopper := Flag_Set\<rparr>"
  let ?d = "?c\<lparr>lc_listening := False, lc_stopper := Socket_Closed\<rparr>"
  let ?e = "?d\<lparr>lc_acceptor := Exited, lc_running := False\<rparr>"
  let ?f = "?e\<lparr>lc_stopper := Joined, lc_running := False\<rparr>"
  let ?g = "?f\<lparr>lc_stopper := Destroyed\<rparr>"
  have "reachable (\<lambda>s. s = started) lifecycle_step started" by (rule reachable.start) simp
  moreover have "lifecycle_step started ?a" by (intro acceptor test) (simp_all add: started_def)
  moreover have "lifecycle_step ?a ?b"
    using acceptor [OF accept [of ?a]] by (simp add: started_def)
  moreover have "lifecycle_step ?b ?c" by (intro stopper request) (simp add: started_def)
  moreover have "lifecycle_step ?c ?d" by (intro stopper close_socket) simp
  moreover have "lifecycle_step ?d ?e" by (intro acceptor leave) (simp_all add: started_def)
  moreover have "lifecycle_step ?e ?f" by (intro stopper join) simp_all
  moreover have "lifecycle_step ?f ?g" by (intro stopper destroy) simp
  ultimately have "reachable (\<lambda>s. s = started) lifecycle_step ?g"
    by (meson reachable.step)
  then show ?thesis by (simp add: started_def)
qed

end
