(* ===== verification/Server_Control.thy ===== *)
theory Server_Control
  imports Odata_Server
begin

text \<open>
  Starting and stopping: \<open>SocketHttpServer::Start\<close> and \<open>Stop\<close> of
  \<open>src/src/server/http_server.cpp\<close> seen from the thread that calls them, \<open>StartODataServer\<close>,
  \<open>StopODataServer\<close> and the registry of \<open>src/src/server/odata_server.cpp\<close>. The socket calls are a
  parameter \<open>net\<close>: whether \<open>socket\<close>, \<open>getaddrinfo\<close>, \<open>bind\<close> and \<open>listen\<close> succeed, and the port the
  kernel picks when it is asked for port 0. The accept loop, which runs in its own thread, is in
  \<open>Server_Lifecycle\<close>.
\<close>

record net =
  net_socket :: bool
  net_resolve :: "string \<Rightarrow> bool"
  net_bind :: "16 word \<Rightarrow> bool"
  net_listen :: bool
  net_free_port :: "16 word"
  net_sockname :: bool

text \<open>The server object; \<open>hs_bound\<close> is the port that its socket is bound to in the kernel.\<close>

record SocketHttpServer =
  hs_running :: bool
  hs_stop_requested :: bool
  hs_listening :: bool
  hs_host :: string
  hs_port :: int
  hs_bound :: "16 word"

definition new_server :: SocketHttpServer where
  "new_server = \<lparr>hs_running = False, hs_stop_requested = False, hs_listening = False, hs_host = [],
     hs_port = 0, hs_bound = 0\<rparr>"

definition any_address :: "string \<Rightarrow> bool" where
  "any_address host \<longleftrightarrow> host = [] \<or> host = ''0.0.0.0'' \<or> host = ''::''"

text \<open>\<open>htons(static_cast<uint16_t>(port))\<close> keeps the low 16 bits of the port.\<close>

definition socket_start :: "net \<Rightarrow> string \<Rightarrow> int \<Rightarrow> SocketHttpServer \<Rightarrow> bool \<times> SocketHttpServer" where
  "socket_start N host_p port_p s =
     (if hs_running s then (False, s)
      else
        (let s1 = s\<lparr>hs_host := host_p, hs_port := port_p\<rparr>;
             sin_port = (word_of_int port_p :: 16 word)
         in if \<not> net_socket N \<or> (\<not> any_address host_p \<and> \<not> net_resolve N host_p)
               \<or> \<not> net_bind N sin_port \<or> \<not> net_listen N
            then (False, s1\<lparr>hs_listening := False\<rparr>)
            else
              (let bound = (if sin_port = 0 then net_free_port N else sin_port)
               in (True, s1\<lparr>hs_listening := True, hs_bound := bound,
                            hs_port := (if port_p = 0 \<and> net_sockname N then uint bound else port_p),
                            hs_stop_requested := False, hs_running := True\<rparr>))))"

definition socket_stop :: "SocketHttpServer \<Rightarrow> SocketHttpServer" where
  "socket_stop s =
     (if \<not> hs_running s \<and> \<not> hs_stop_requested s then s
      else s\<lparr>hs_stop_requested := True, hs_listening := False, hs_running := False\<rparr>)"

definition IsRunning :: "SocketHttpServer \<Rightarrow> bool" where
  "IsRunning s \<longleftrightarrow> hs_running s \<or> (hs_listening s \<and> \<not> hs_stop_requested s)"

section \<open>The OData server\<close>

record ServeConfig =
  sc_address :: string
  sc_token :: string
  sc_base_path :: string
  sc_max_top :: int
  sc_max_filter_depth :: int
  sc_max_response_bytes :: int
  sc_query_timeout_ms :: int
  sc_page_size :: int
  sc_max_concurrent_queries :: int
  sc_read_only :: bool

text \<open>The state with its \<open>server\<close> pointer.\<close>

type_synonym server_state = "ODataServerState \<times> SocketHttpServer option"

definition listen_on :: "string \<Rightarrow> int \<Rightarrow> ODataServerState \<Rightarrow> ODataServerState" where
  "listen_on host port st =
     (if host = ''0.0.0.0'' \<or> host = ''::''
      then st\<lparr>st_listen_url := ''http://localhost:'' @ to_string port, st_listen_uri := ''odata:localhost''\<rparr>
      else st\<lparr>st_listen_url := ''http://'' @ host @ '':'' @ to_string port, st_listen_uri := ''odata:'' @ host\<rparr>)"

definition configure :: "ServeConfig \<Rightarrow> string \<Rightarrow> int \<Rightarrow> string \<Rightarrow> ODataServerState \<Rightarrow> ODataServerState" where
  "configure c host port path st =
     (let st1 = listen_on host port st
      in st1\<lparr>st_host := host, st_port := port,
             st_base_path := (if sc_base_path c = [] then path else sc_base_path c),
             st_token := sc_token c, st_read_only := sc_read_only c, st_max_top := sc_max_top c,
             st_max_filter_depth := sc_max_filter_depth c, st_max_response_bytes := sc_max_response_bytes c,
             st_query_timeout_ms := sc_query_timeout_ms c, st_page_size := sc_page_size c,
             st_max_concurrent_queries := sc_max_concurrent_queries c, st_active_queries := 0,
             st_running := True, st_started_at := ''now'',
             st_started_address := (if sc_address c = [] then st_listen_url st1 else sc_address c)\<rparr>)"

definition StartODataServer :: "net \<Rightarrow> ServeConfig \<Rightarrow> server_state \<Rightarrow> (string + unit) \<times> server_state" where
  "StartODataServer N c s =
     (case s of (st, srv) \<Rightarrow>
        if st_running st then (Inl ''server is already running'', s)
        else case ParseAddress (sc_address c) of
          None \<Rightarrow> (Inl (''invalid server address: '' @ in_quotes (sc_address c)), s)
        | Some (host, port, path) \<Rightarrow>
            (case socket_start N host port new_server of
               (False, _) \<Rightarrow> (Inl (''could not bind to '' @ host @ '':'' @ to_string port), s)
             | (True, server) \<Rightarrow>
                 (Inr (), (configure c host (hs_port server) path st, Some server))))"

definition StopODataServer :: "server_state \<Rightarrow> server_state" where
  "StopODataServer s = (case s of (st, srv) \<Rightarrow> (st\<lparr>st_running := False\<rparr>, None))"

section \<open>The registry\<close>

type_synonym 'p registry = "'p \<Rightarrow> server_state option"

definition GetOrCreate :: "'p \<Rightarrow> 'p registry \<Rightarrow> server_state \<times> 'p registry" where
  "GetOrCreate db states =
     (case states db of
        Some s \<Rightarrow> (s, states)
      | None \<Rightarrow> ((initial_state, None), states(db \<mapsto> (initial_state, None))))"

definition Find :: "'p \<Rightarrow> 'p registry \<Rightarrow> server_state option" where
  "Find db states = states db"

section \<open>Facts\<close>

text \<open>A running server has a socket that listens; a stopped one has none.\<close>

definition server_ok :: "server_state \<Rightarrow> bool" where
  "server_ok s \<longleftrightarrow>
     (case s of
        (st, None) \<Rightarrow> \<not> st_running st
      | (st, Some srv) \<Rightarrow> st_running st \<and> hs_running srv \<and> hs_listening srv \<and> \<not> hs_stop_requested srv)"

lemma server_ok_initial: "server_ok (initial_state, None)"
  by (simp add: server_ok_def initial_state_def)

lemma socket_start_True:
  "socket_start N h p new_server = (True, srv) \<Longrightarrow>
     hs_running srv \<and> hs_listening srv \<and> \<not> hs_stop_requested srv"
  by (auto simp: socket_start_def new_server_def Let_def split: if_splits)

lemma configure_running [simp]: "st_running (configure c h p path st)"
  by (simp add: configure_def Let_def)

lemma server_ok_Start: "server_ok s \<Longrightarrow> server_ok (snd (StartODataServer N c s))"
  by (cases s)
     (auto simp: StartODataServer_def server_ok_def split: option.splits bool.splits prod.splits
       dest: socket_start_True)

lemma server_ok_Stop: "server_ok (StopODataServer s)"
  by (cases s) (simp add: StopODataServer_def server_ok_def)

lemma Start_error: "StartODataServer N c s = (Inl e, s') \<Longrightarrow> s' = s"
  by (auto simp: StartODataServer_def split: prod.splits if_splits option.splits bool.splits)

lemma Start_running: "st_running st \<Longrightarrow> StartODataServer N c (st, srv) = (Inl ''server is already running'', (st, srv))"
  by (simp add: StartODataServer_def)

lemma configure_settings:
  "configure c h p path st =
     (let url = (if h = ''0.0.0.0'' \<or> h = ''::'' then ''http://localhost:'' @ to_string p
                 else ''http://'' @ h @ '':'' @ to_string p)
      in \<lparr>st_bindings = st_bindings st, st_host = h, st_port = p,
          st_base_path = (if sc_base_path c = [] then path else sc_base_path c),
          st_token = sc_token c, st_read_only = sc_read_only c, st_max_top = sc_max_top c,
          st_max_filter_depth = sc_max_filter_depth c, st_max_response_bytes = sc_max_response_bytes c,
          st_query_timeout_ms = sc_query_timeout_ms c, st_page_size = sc_page_size c,
          st_max_concurrent_queries = sc_max_concurrent_queries c, st_active_queries = 0,
          st_running = True, st_started_at = ''now'',
          st_started_address = (if sc_address c = [] then url else sc_address c),
          st_listen_uri = (if h = ''0.0.0.0'' \<or> h = ''::'' then ''odata:localhost'' else ''odata:'' @ h),
          st_listen_url = url\<rparr>)"
  by (simp add: configure_def listen_on_def Let_def)

text \<open>The port in the settings is the one the socket is bound to when it fits 16 bits.\<close>

lemma socket_start_port:
  assumes "socket_start N h p new_server = (True, srv)" "0 \<le> p" "p < 65536" "net_sockname N"
  shows "hs_port srv = uint (hs_bound srv)"
proof -
  have "uint (word_of_int p :: 16 word) = p"
    using assms(2,3) by (simp add: unsigned_of_int take_bit_int_eq_self)
  moreover have "word_of_int p \<noteq> (0 :: 16 word)" if "p \<noteq> 0"
    using calculation that by (metis unsigned_0)
  ultimately show ?thesis
    using assms(1,4) by (auto simp: socket_start_def new_server_def Let_def split: if_splits)
qed

lemma socket_start_wraps:
  assumes "socket_start N h (p + 65536) new_server = (True, srv)" "0 < p" "p < 65536"
  shows "hs_port srv = p + 65536" "uint (hs_bound srv) = p"
proof -
  have w: "(65536 :: 16 word) = 0" by simp
  have u: "uint (word_of_int p :: 16 word) = p"
    using assms(2,3) by (simp add: unsigned_of_int take_bit_int_eq_self)
  then have "word_of_int p \<noteq> (0 :: 16 word)"
    using assms(2) by (metis less_irrefl unsigned_0)
  then show "hs_port srv = p + 65536" "uint (hs_bound srv) = p"
    using assms(1,2) u by (auto simp: socket_start_def new_server_def Let_def w split: if_splits)
qed

section \<open>The registry keeps one state for each instance\<close>

lemma GetOrCreate_Find:
  "GetOrCreate db states = (s, states') \<Longrightarrow>
     Find db states' = Some s \<and> (\<forall>db'. db' \<noteq> db \<longrightarrow> Find db' states' = Find db' states)
     \<and> (Find db states = Some s' \<longrightarrow> s = s' \<and> states' = states)"
  by (auto simp: GetOrCreate_def Find_def split: option.splits)

end
