(* ===== verification/Odata_Extension.thy ===== *)
theory Odata_Extension
  imports Server_Control Auth
begin

text \<open>
  The table functions of \<open>src/src/odata_extension.cpp\<close>: \<open>odata_serve\<close>, \<open>odata_stop\<close>,
  \<open>odata_expose\<close>, \<open>odata_expose_schema\<close>, \<open>odata_entity\<close> and \<open>odata_status\<close>. The arguments of a call
  and the settings are what DuckDB passes to the bind function; a NULL argument is \<open>None\<close> where the
  code tests it. \<open>StringUtil::Lower\<close> is a function of DuckDB and a parameter. Each execute function is
  called until it returns no rows, and does its work when \<open>done\<close> is not yet set.
\<close>

type_synonym row = "string list"

section \<open>odata_serve\<close>

record ServeCall =
  call_address :: "string option"
  call_read_only :: "bool option option"
  call_token :: "string option"
  call_base_path :: "string option"

record ODataServeData =
  sd_address :: string
  sd_token :: string
  sd_token_provided :: bool
  sd_read_only :: bool
  sd_base_path :: string
  sd_limits :: "string \<Rightarrow> int"

definition default_limit :: "string \<Rightarrow> int" where
  "default_limit name =
     (if name = ''odata_max_top'' then 10000
      else if name = ''odata_max_filter_depth'' then 64
      else if name = ''odata_max_response_bytes'' then 104857600
      else 0)"

definition read_limit :: "(string \<Rightarrow> int option) \<Rightarrow> string \<Rightarrow> int" where
  "read_limit settings name = (case settings name of None \<Rightarrow> default_limit name | Some n \<Rightarrow> n)"

definition ServeBind :: "ServeCall \<Rightarrow> (string \<Rightarrow> int option) \<Rightarrow> ODataServeData res" where
  "ServeBind c settings =
     bindE (case call_read_only c of
              None \<Rightarrow> Inr True
            | Some None \<Rightarrow> Inl (InvalidInputException ''read_only cannot be NULL'')
            | Some (Some b) \<Rightarrow> Inr b) (\<lambda>ro.
       Inr \<lparr>sd_address = (case call_address c of None \<Rightarrow> [] | Some a \<Rightarrow> a),
            sd_token = (case call_token c of None \<Rightarrow> [] | Some t \<Rightarrow> t),
            sd_token_provided = (call_token c \<noteq> None), sd_read_only = ro,
            sd_base_path = (case call_base_path c of None \<Rightarrow> [] | Some p \<Rightarrow> p),
            sd_limits = read_limit settings\<rparr>)"

definition serve_config :: "ODataServeData \<Rightarrow> string \<Rightarrow> ServeConfig" where
  "serve_config d token =
     \<lparr>sc_address = sd_address d, sc_token = token, sc_base_path = sd_base_path d,
      sc_max_top = sd_limits d ''odata_max_top'',
      sc_max_filter_depth = sd_limits d ''odata_max_filter_depth'',
      sc_max_response_bytes = sd_limits d ''odata_max_response_bytes'',
      sc_query_timeout_ms = sd_limits d ''odata_query_timeout_ms'',
      sc_page_size = sd_limits d ''odata_page_size'',
      sc_max_concurrent_queries = sd_limits d ''odata_max_concurrent_queries'',
      sc_read_only = sd_read_only d\<rparr>"

text \<open>The bytes of the random device are an argument.\<close>

definition ServeExecute :: "net \<Rightarrow> byte list \<Rightarrow> 'p \<Rightarrow> ODataServeData \<Rightarrow> bool \<Rightarrow> 'p registry
    \<Rightarrow> row list res \<times> 'p registry" where
  "ServeExecute N rd db d finished reg =
     (if finished then (Inr [], reg)
      else
        (let token = (if sd_token_provided d then sd_token d else GenerateAuthToken rd);
             (s, reg1) = GetOrCreate db reg
         in case StartODataServer N (serve_config d token) s of
              (Inl e, s') \<Rightarrow> (Inl (InvalidInputException (''odata_serve failed: '' @ e)), reg1(db \<mapsto> s'))
            | (Inr _, s') \<Rightarrow>
                (Inr [[st_listen_uri (fst s'), st_listen_url (fst s'), st_token (fst s')]], reg1(db \<mapsto> s'))))"

section \<open>Bindings\<close>

definition ScalarQueryResult :: "'db duck \<Rightarrow> string \<Rightarrow> ('db, string) dbm" where
  "ScalarQueryResult D sql =
     bindD (queryD D sql) (\<lambda>q.
       if qr_error q \<noteq> None \<or> result_rows q = [] then returnD []
       else bindD (liftD (cell (result_rows q) 0 0)) (\<lambda>v. returnD (dv_text v)))"

definition BindingTableRef :: "EntityBinding \<Rightarrow> string \<Rightarrow> string \<Rightarrow> string" where
  "BindingTableRef b current_schema current_catalog =
     (if b_catalog b \<noteq> [] \<and> b_catalog b \<noteq> current_catalog
      then b_catalog b @ ''.'' @ b_schema b @ ''.'' @ b_table b
      else if b_schema b \<noteq> [] \<and> b_schema b \<noteq> current_schema then b_schema b @ ''.'' @ b_table b
      else b_table b)"

definition SchemaEntityName :: "EntityBinding \<Rightarrow> string \<Rightarrow> string \<Rightarrow> string" where
  "SchemaEntityName b current_schema current_catalog =
     (let catalog_differs = (b_catalog b \<noteq> [] \<and> b_catalog b \<noteq> current_catalog)
      in if \<not> catalog_differs \<and> b_schema b = current_schema then b_table b
         else (if catalog_differs then b_catalog b @ ''_'' else []) @ b_schema b @ ''_'' @ b_table b)"

text \<open>The loops that replace the first matching binding, or append.\<close>

fun replace_first :: "('a \<Rightarrow> bool) \<Rightarrow> ('a \<Rightarrow> 'a) \<Rightarrow> 'a \<Rightarrow> 'a list \<Rightarrow> 'a list" where
  "replace_first P f b [] = [b]"
| "replace_first P f b (x # xs) = (if P x then f x # xs else x # replace_first P f b xs)"

definition put_binding :: "(string \<Rightarrow> string) \<Rightarrow> EntityBinding \<Rightarrow> EntityBinding list \<Rightarrow> EntityBinding list" where
  "put_binding lower b bs = replace_first (\<lambda>x. lower (b_name x) = lower (b_name b)) (\<lambda>_. b) b bs"

definition put_schema_binding :: "(string \<Rightarrow> string) \<Rightarrow> EntityBinding \<Rightarrow> EntityBinding list
    \<Rightarrow> EntityBinding list" where
  "put_schema_binding lower b bs =
     replace_first (\<lambda>x. lower (b_name x) = lower (b_name b) \<and> lower (b_schema x) = lower (b_schema b)
                       \<and> lower (b_catalog x) = lower (b_catalog b)) (\<lambda>_. b) b bs"

definition put_keys :: "(string \<Rightarrow> string) \<Rightarrow> EntityBinding \<Rightarrow> EntityBinding list \<Rightarrow> EntityBinding list" where
  "put_keys lower b bs =
     replace_first (\<lambda>x. lower (b_name x) = lower (b_name b)) (\<lambda>x. x\<lparr>b_keys := b_keys b\<rparr>) b bs"

definition update_bindings :: "'p \<Rightarrow> (EntityBinding list \<Rightarrow> EntityBinding list) \<Rightarrow> 'p registry \<Rightarrow> 'p registry" where
  "update_bindings db f reg =
     (case GetOrCreate db reg of ((st, srv), reg1) \<Rightarrow> reg1(db \<mapsto> (st\<lparr>st_bindings := f (st_bindings st)\<rparr>, srv)))"

section \<open>odata_expose\<close>

definition ExposeBind :: "string option \<Rightarrow> string list option \<Rightarrow> string \<times> string list" where
  "ExposeBind input columns =
     (case input of None \<Rightarrow> [] | Some a \<Rightarrow> a, case columns of None \<Rightarrow> [] | Some cs \<Rightarrow> cs)"

definition msg_no_column :: "string \<Rightarrow> EntityBinding \<Rightarrow> string" where
  "msg_no_column column b =
     ''column '' @ in_quotes column @ '' does not exist on table '' @ in_quotes (b_table b)"

definition check_columns :: "(string \<Rightarrow> string) \<Rightarrow> EntityBinding \<Rightarrow> EdmEntity \<Rightarrow> unit res" where
  "check_columns lower b ent =
     (case find (\<lambda>c. \<not> list_ex (\<lambda>p. lower (p_name p) = lower c) (e_properties ent)) (b_columns b) of
        Some c \<Rightarrow> Inl (ODataParseException (msg_no_column c b))
      | None \<Rightarrow> Inr ())"

definition expose_binding :: "'db duck \<Rightarrow> (string \<Rightarrow> string) \<Rightarrow> string \<Rightarrow> string list
    \<Rightarrow> ('db, EntityBinding) dbm" where
  "expose_binding D lower arg columns =
     bindD (liftD (ParseQualifiedBinding arg)) (\<lambda>b0.
     bindD (ResolveBindingTable D b0) (\<lambda>b1.
       let b = b1\<lparr>b_columns := columns\<rparr>
       in if columns = [] then returnD b
          else bindD (BuildEntity D b) (\<lambda>ent. bindD (liftD (check_columns lower b ent)) (\<lambda>_. returnD b))))"

text \<open>\<open>catch (const ODataParseException &)\<close> turns the exception into one of DuckDB.\<close>

definition failing :: "string \<Rightarrow> ('db, 'a) dbm \<Rightarrow> ('db, 'a) dbm" where
  "failing prefix m =
     (\<lambda>db. case m db of
        (Inl (ODataParseException msg), db') \<Rightarrow> (Inl (InvalidInputException (prefix @ msg)), db')
      | r \<Rightarrow> r)"

definition table_row :: "'db duck \<Rightarrow> EntityBinding \<Rightarrow> ('db, row) dbm" where
  "table_row D b =
     bindD (ScalarQueryResult D ''SELECT current_schema()'') (\<lambda>schema.
     bindD (ScalarQueryResult D ''SELECT current_catalog()'') (\<lambda>catalog.
       returnD [b_name b, BindingTableRef b schema catalog]))"

definition ExposeExecute :: "'db duck \<Rightarrow> (string \<Rightarrow> string) \<Rightarrow> 'p \<Rightarrow> string \<Rightarrow> string list \<Rightarrow> bool
    \<Rightarrow> 'p registry \<Rightarrow> 'db \<Rightarrow> (row list res \<times> 'p registry) \<times> 'db" where
  "ExposeExecute D lower db arg columns finished reg s =
     (if finished then ((Inr [], reg), s)
      else if arg = [] then ((Inl (InvalidInputException ''odata_expose requires a table name''), reg), s)
      else case failing ''odata_expose failed: '' (expose_binding D lower arg columns) s of
        (Inl e, s1) \<Rightarrow> ((Inl e, reg), s1)
      | (Inr b, s1) \<Rightarrow>
          (let reg1 = update_bindings db (put_binding lower b) reg
           in case table_row D b s1 of
                (Inl e, s2) \<Rightarrow> ((Inl e, reg1), s2)
              | (Inr r, s2) \<Rightarrow> ((Inr [r], reg1), s2)))"

section \<open>odata_expose_schema\<close>

definition tables_sql :: "string \<Rightarrow> string \<Rightarrow> string" where
  "tables_sql catalog schema =
     ''SELECT table_name, database_name FROM duckdb_tables() WHERE schema_name = '' @ QuoteStringLiteral schema @
     '' AND NOT internal AND NOT temporary AND database_name = '' @
     (if catalog = [] then ''current_catalog()'' else QuoteStringLiteral catalog)"

definition schema_binding :: "string \<Rightarrow> string \<Rightarrow> string \<Rightarrow> string \<Rightarrow> string \<Rightarrow> EntityBinding" where
  "schema_binding schema current_schema current_catalog tname catalog =
     (let b = empty_binding\<lparr>b_table := tname, b_schema := schema, b_catalog := catalog\<rparr>
      in b\<lparr>b_name := SchemaEntityName b current_schema current_catalog\<rparr>)"

text \<open>The loop over the tables: the rows reported and the bindings, also when a row cannot be read.\<close>

fun expose_rows :: "(string \<Rightarrow> string) \<Rightarrow> string \<Rightarrow> string \<Rightarrow> string \<Rightarrow> dvalue list list
    \<Rightarrow> EntityBinding list \<Rightarrow> row list \<Rightarrow> row list res \<times> EntityBinding list" where
  "expose_rows lower schema cs cc [] bs exposed = (Inr exposed, bs)"
| "expose_rows lower schema cs cc (row # rows) bs exposed =
     (case bindE (cell [row] 0 0) (\<lambda>t.
             if dv_text t = [] then Inr None
             else bindE (cell [row] 0 1) (\<lambda>c. Inr (Some (schema_binding schema cs cc (dv_text t) (dv_text c))))) of
        Inl e \<Rightarrow> (Inl e, bs)
      | Inr None \<Rightarrow> expose_rows lower schema cs cc rows bs exposed
      | Inr (Some b) \<Rightarrow>
          expose_rows lower schema cs cc rows (put_schema_binding lower b bs)
            (exposed @ [[b_name b, BindingTableRef b cs cc]]))"

definition registered_bindings :: "'p \<Rightarrow> 'p registry \<Rightarrow> EntityBinding list" where
  "registered_bindings db reg = st_bindings (fst (fst (GetOrCreate db reg)))"

definition ExposeSchemaExecute :: "'db duck \<Rightarrow> (string \<Rightarrow> string) \<Rightarrow> 'p \<Rightarrow> string \<Rightarrow> bool
    \<Rightarrow> 'p registry \<Rightarrow> 'db \<Rightarrow> (row list res \<times> 'p registry) \<times> 'db" where
  "ExposeSchemaExecute D lower db arg finished reg s =
     (if finished then ((Inr [], reg), s)
      else if arg = [] then ((Inl (InvalidInputException ''odata_expose_schema requires a schema name''), reg), s)
      else case ParseQualifiedSchema arg of
        Inl e \<Rightarrow> ((Inl (case e of ODataParseException m \<Rightarrow> InvalidInputException (''odata_expose_schema failed: '' @ m)
                        | _ \<Rightarrow> e), reg), s)
      | Inr (catalog, schema) \<Rightarrow>
          (case duck_query D (tables_sql catalog schema) s of
             (q, s1) \<Rightarrow>
               (case qr_error q of
                  Some (_, m) \<Rightarrow>
                    ((Inl (InvalidInputException (''odata_expose_schema failed: '' @ m)), update_bindings db id reg), s1)
                | None \<Rightarrow>
                    (case bindD (ScalarQueryResult D ''SELECT current_schema()'') (\<lambda>cs.
                          bindD (ScalarQueryResult D ''SELECT current_catalog()'') (\<lambda>cc. returnD (cs, cc))) s1 of
                       (Inl e, s2) \<Rightarrow> ((Inl e, update_bindings db id reg), s2)
                     | (Inr (cs, cc), s2) \<Rightarrow>
                         (case expose_rows lower schema cs cc (result_rows q) (registered_bindings db reg) [] of
                            (res, bs) \<Rightarrow> ((res, update_bindings db (\<lambda>_. bs) reg), s2))))))"

section \<open>odata_entity, odata_stop and odata_status\<close>

datatype ODataActionKind = STOP | ENTITY

record ODataActionData =
  ad_kind :: ODataActionKind
  ad_arg :: string
  ad_key :: string
  ad_max_top :: int

definition CommonBind :: "ODataActionKind \<Rightarrow> (string \<Rightarrow> int option) \<Rightarrow> ODataActionData" where
  "CommonBind kind settings = \<lparr>ad_kind = kind, ad_arg = [], ad_key = [],
     ad_max_top = read_limit settings ''odata_max_top''\<rparr>"

definition StopBind :: "(string \<Rightarrow> int option) \<Rightarrow> ODataActionData" where
  "StopBind settings = CommonBind STOP settings"

definition EntityBind :: "string option \<Rightarrow> string option \<Rightarrow> (string \<Rightarrow> int option) \<Rightarrow> ODataActionData" where
  "EntityBind input key_column settings =
     (CommonBind ENTITY settings)\<lparr>ad_arg := (case input of None \<Rightarrow> [] | Some a \<Rightarrow> a),
        ad_key := (case key_column of None \<Rightarrow> [] | Some k \<Rightarrow> k)\<rparr>"

definition entity_binding :: "'db duck \<Rightarrow> string \<Rightarrow> string \<Rightarrow> ('db, EntityBinding) dbm" where
  "entity_binding D arg key_column =
     bindD (failing ''odata_entity failed: ''
              (bindD (liftD (ParseQualifiedBinding arg)) (ResolveBindingTable D))) (\<lambda>b.
       returnD (b\<lparr>b_keys := [key_column]\<rparr>))"

definition stop_instance :: "'p \<Rightarrow> 'p registry \<Rightarrow> 'p registry" where
  "stop_instance db reg = (case Find db reg of None \<Rightarrow> reg | Some s \<Rightarrow> reg(db \<mapsto> StopODataServer s))"

definition ActionExecute :: "'db duck \<Rightarrow> (string \<Rightarrow> string) \<Rightarrow> 'p \<Rightarrow> ODataActionData
    \<Rightarrow> bool \<Rightarrow> 'p registry \<Rightarrow> 'db \<Rightarrow> (row list res \<times> 'p registry) \<times> 'db" where
  "ActionExecute D lower db action finished reg s =
     (if finished then ((Inr [], reg), s)
      else case ad_kind action of
        STOP \<Rightarrow> ((Inr [], stop_instance db reg), s)
      | ENTITY \<Rightarrow>
          if ad_arg action = [] \<or> ad_key action = []
          then ((Inl (InvalidInputException ''odata_entity requires a table name and a key column''), reg), s)
          else (case entity_binding D (ad_arg action) (ad_key action) s of
                  (Inl e, s1) \<Rightarrow> ((Inl e, reg), s1)
                | (Inr b, s1) \<Rightarrow> ((Inr [], update_bindings db (put_keys lower b) reg), s1)))"

record Status =
  status_running :: bool
  status_address :: string
  status_base_path :: string
  status_token_required :: bool
  status_entities :: int

definition StatusExecute :: "'p \<Rightarrow> bool \<Rightarrow> 'p registry \<Rightarrow> Status option" where
  "StatusExecute db finished reg =
     (if finished then None
      else case Find db reg of
        None \<Rightarrow> Some \<lparr>status_running = False, status_address = [], status_base_path = ''/odata'',
                 status_token_required = False, status_entities = 0\<rparr>
      | Some (st, srv) \<Rightarrow>
          Some \<lparr>status_running = st_running st,
           status_address = (if st_listen_url st \<noteq> [] then st_listen_url st else st_started_address st),
           status_base_path = st_base_path st, status_token_required = (st_token st \<noteq> []),
           status_entities = int (length (st_bindings st))\<rparr>)"

section \<open>The settings\<close>

definition RegisterOptions :: "(string \<times> int) list" where
  "RegisterOptions =
     [(''odata_max_top'', 10000), (''odata_max_filter_depth'', 64), (''odata_max_response_bytes'', 104857600),
      (''odata_query_timeout_ms'', 0), (''odata_page_size'', 0), (''odata_max_concurrent_queries'', 0)]"

lemma default_limit_registered: "(name, n) \<in> set RegisterOptions \<Longrightarrow> default_limit name = n"
  by (auto simp: RegisterOptions_def default_limit_def)

section \<open>The bindings as a table\<close>

definition binding_named :: "(string \<Rightarrow> string) \<Rightarrow> EntityBinding list \<Rightarrow> string \<Rightarrow> EntityBinding option" where
  "binding_named lower bs k = find (\<lambda>b. lower (b_name b) = k) bs"

lemma binding_named_put:
  "binding_named lower (put_binding lower b bs) k
     = (if k = lower (b_name b) then Some b else binding_named lower bs k)"
  by (induction bs) (auto simp: put_binding_def binding_named_def)

interpretation bindings: keyed "\<lambda>b. lower (b_name b)" "binding_named lower" "put_binding lower" for lower
  by unfold_locales (rule binding_named_put)

lemma find_binding_named: "find_binding bs name = binding_named ToLower bs (ToLower name)"
  by (simp add: find_binding_def binding_named_def)

lemma put_keys_named:
  "binding_named lower (put_keys lower b bs) k =
     (if k = lower (b_name b)
      then Some (case binding_named lower bs k of None \<Rightarrow> b | Some x \<Rightarrow> x\<lparr>b_keys := b_keys b\<rparr>)
      else binding_named lower bs k)"
  by (induction bs) (auto simp: put_keys_def binding_named_def)

text \<open>No two bindings of \<open>odata_expose\<close> and \<open>odata_entity\<close> have the same name.\<close>

definition unique_names :: "(string \<Rightarrow> string) \<Rightarrow> EntityBinding list \<Rightarrow> bool" where
  "unique_names lower bs \<longleftrightarrow> distinct (map (\<lambda>b. lower (b_name b)) bs)"

lemma replace_first_names:
  assumes "\<And>x. P x \<longleftrightarrow> g x = g b" "\<And>x. P x \<Longrightarrow> g (f x) = g x"
  shows "distinct (map g xs) \<Longrightarrow> distinct (map g (replace_first P f b xs))"
    and "g ` set (replace_first P f b xs) = insert (g b) (g ` set xs)"
proof -
  show names: "g ` set (replace_first P f b xs) = insert (g b) (g ` set xs)" for xs
    by (induction xs) (auto simp: assms)
  show "distinct (map g xs) \<Longrightarrow> distinct (map g (replace_first P f b xs))"
    by (induction xs) (use names in \<open>auto simp: assms\<close>)
qed

lemma unique_put_binding: "unique_names lower bs \<Longrightarrow> unique_names lower (put_binding lower b bs)"
  unfolding unique_names_def put_binding_def by (rule replace_first_names) auto

lemma unique_put_keys: "unique_names lower bs \<Longrightarrow> unique_names lower (put_keys lower b bs)"
  unfolding unique_names_def put_keys_def by (rule replace_first_names) auto

section \<open>The tables of a schema\<close>

text \<open>\<open>odata_expose_schema\<close> tells bindings of the same name apart by schema and catalog.\<close>

definition schema_key :: "(string \<Rightarrow> string) \<Rightarrow> EntityBinding \<Rightarrow> string \<times> string \<times> string" where
  "schema_key lower b = (lower (b_name b), lower (b_schema b), lower (b_catalog b))"

definition binding_keyed :: "(string \<Rightarrow> string) \<Rightarrow> EntityBinding list \<Rightarrow> string \<times> string \<times> string
    \<Rightarrow> EntityBinding option" where
  "binding_keyed lower bs k = find (\<lambda>b. schema_key lower b = k) bs"

lemma binding_keyed_put:
  "binding_keyed lower (put_schema_binding lower b bs) k
     = (if k = schema_key lower b then Some b else binding_keyed lower bs k)"
  by (induction bs) (auto simp: put_schema_binding_def binding_keyed_def schema_key_def)

interpretation schema_bindings: keyed "schema_key lower" "binding_keyed lower" "put_schema_binding lower" for lower
  by unfold_locales (rule binding_keyed_put)

text \<open>What \<open>odata_expose_schema\<close> makes of the rows of its query: a binding for each table, and a report of each.\<close>

definition listed_bindings :: "string \<Rightarrow> string \<Rightarrow> string \<Rightarrow> dvalue list list \<Rightarrow> EntityBinding list" where
  "listed_bindings schema cs cc rows =
     map (\<lambda>r. schema_binding schema cs cc (dv_text (r ! 0)) (dv_text (r ! 1))) (filter (\<lambda>r. dv_text (r ! 0) \<noteq> []) rows)"

definition reported :: "string \<Rightarrow> string \<Rightarrow> EntityBinding \<Rightarrow> row" where
  "reported cs cc b = [b_name b, BindingTableRef b cs cc]"

lemma cell_single: "cell [r] 0 c = (if c < length r then Inr (r ! c) else Inl (DuckDBException ''invalid cell access''))"
  by (simp add: cell_def)

lemma expose_rows_Inr:
  assumes "expose_rows lower schema cs cc rows bs exposed = (Inr out, bs')"
  shows "out = exposed @ map (reported cs cc) (listed_bindings schema cs cc rows)
    \<and> bs' = fold (put_schema_binding lower) (listed_bindings schema cs cc rows) bs"
  using assms
proof (induction rows arbitrary: bs exposed)
  case Nil
  then show ?case by (simp add: listed_bindings_def)
next
  case (Cons r rows)
  consider "r = []" | "r \<noteq> []" "dv_text (r ! 0) = []" | "dv_text (r ! 0) \<noteq> []" "length r = 1"
    | "dv_text (r ! 0) \<noteq> []" "1 < length r"
    by (cases r) (auto simp: less_Suc_eq_0_disj)
  then show ?case
  proof cases
    case 2
    with Cons.prems have "expose_rows lower schema cs cc rows bs exposed = (Inr out, bs')"
      by (simp add: cell_single)
    from Cons.IH [OF this] 2 show ?thesis by (simp add: listed_bindings_def)
  next
    case 4
    let ?b = "schema_binding schema cs cc (dv_text (r ! 0)) (dv_text (r ! 1))"
    have "r \<noteq> []" using 4 by auto
    with Cons.prems 4 have "expose_rows lower schema cs cc rows (put_schema_binding lower ?b bs)
        (exposed @ [reported cs cc ?b]) = (Inr out, bs')"
      by (simp add: cell_single reported_def)
    from Cons.IH [OF this] 4 show ?thesis by (simp add: listed_bindings_def)
  qed (use Cons.prems in \<open>simp_all add: cell_single\<close>)
qed

end
