(* ===== verification/Extension_Load.thy ===== *)
theory Extension_Load
  imports Odata_Extension
begin

text \<open>
  The extension as DuckDB sees it (\<open>LoadInternal\<close> of \<open>src/src/odata_extension.cpp\<close>): the table functions
  that are registered, each with its bind, init and execute function, and the columns of its result.
  Function pointers are constructors, and \<open>run_bind\<close>, \<open>run_init\<close> and \<open>run_execute\<close> call what they point
  to. DuckDB calls the bind function with the arguments, the init function for a new scan, and then the
  execute function until it gives no rows.
\<close>

section \<open>Types and arguments\<close>

datatype LogicalType = Scalar LogicalTypeId | LIST LogicalType

abbreviation VARCHAR :: LogicalType where "VARCHAR \<equiv> Scalar LT_VARCHAR"
abbreviation BOOLEAN_TYPE :: LogicalType where "BOOLEAN_TYPE \<equiv> Scalar LT_BOOLEAN"
abbreviation BIGINT :: LogicalType where "BIGINT \<equiv> Scalar LT_BIGINT"

type_synonym columns = "(string \<times> LogicalType) list"

datatype out_value = Varchar string | Boolean bool | Bigint int

fun value_type :: "out_value \<Rightarrow> LogicalType" where
  "value_type (Varchar _) = VARCHAR"
| "value_type (Boolean _) = BOOLEAN_TYPE"
| "value_type (Bigint _) = BIGINT"

text \<open>
  The input of a bind function: the text of each positional argument, and the named ones by type; the
  value of a BOOLEAN may be NULL.
\<close>

record BindInput =
  bi_inputs :: "string list"
  bi_strings :: "string \<Rightarrow> string option"
  bi_bools :: "string \<Rightarrow> bool option option"
  bi_lists :: "string \<Rightarrow> string list option"

definition first_input :: "BindInput \<Rightarrow> string option" where
  "first_input i = (case bi_inputs i of [] \<Rightarrow> None | a # _ \<Rightarrow> Some a)"

definition serve_call :: "BindInput \<Rightarrow> ServeCall" where
  "serve_call i = \<lparr>call_address = first_input i, call_read_only = bi_bools i ''read_only'',
     call_token = bi_strings i ''token'', call_base_path = bi_strings i ''base_path''\<rparr>"

section \<open>The columns of the results\<close>

definition serve_columns :: columns where
  "serve_columns = [(''listen_uri'', VARCHAR), (''listen_url'', VARCHAR), (''auth_token'', VARCHAR)]"

definition action_columns :: columns where
  "action_columns = [(''Success'', BOOLEAN_TYPE)]"

definition expose_columns :: columns where
  "expose_columns = [(''entity'', VARCHAR), (''table'', VARCHAR)]"

definition status_columns :: columns where
  "status_columns = [(''running'', BOOLEAN_TYPE), (''address'', VARCHAR), (''base_path'', VARCHAR),
     (''token_required'', BOOLEAN_TYPE), (''exposed_entities'', BIGINT)]"

section \<open>Bind, init and execute functions\<close>

datatype bind_function = ServeBindF | StopBindF | ExposeBindF | EntityBindF | StatusBindF

datatype init_function = CommonInitF | StatusInitF

datatype execute_function =
  ServeExecuteF | ActionExecuteF | ExposeExecuteF | ExposeSchemaExecuteF | StatusExecuteF

text \<open>The subclasses of \<open>TableFunctionData\<close>; \<open>StatusBind\<close> returns a null pointer.\<close>

datatype bind_data =
  ServeData ODataServeData | ActionData ODataActionData | ExposeData string "string list" | NoData

record ODataGlobalState =
  gs_done :: bool

definition CommonInit :: ODataGlobalState where
  "CommonInit = \<lparr>gs_done = False\<rparr>"

definition StatusInit :: ODataGlobalState where
  "StatusInit = \<lparr>gs_done = False\<rparr>"

fun run_bind :: "bind_function \<Rightarrow> BindInput \<Rightarrow> (string \<Rightarrow> int option) \<Rightarrow> (bind_data \<times> columns) res" where
  "run_bind ServeBindF i settings =
     bindE (ServeBind (serve_call i) settings) (\<lambda>d. Inr (ServeData d, serve_columns))"
| "run_bind StopBindF i settings = Inr (ActionData (StopBind settings), action_columns)"
| "run_bind ExposeBindF i settings =
     (case ExposeBind (first_input i) (bi_lists i ''columns'') of
        (arg, cs) \<Rightarrow> Inr (ExposeData arg cs, expose_columns))"
| "run_bind EntityBindF i settings =
     Inr (ActionData (EntityBind (first_input i) (bi_strings i ''key'') settings), action_columns)"
| "run_bind StatusBindF i settings = Inr (NoData, status_columns)"

fun run_init :: "init_function \<Rightarrow> ODataGlobalState" where
  "run_init CommonInitF = CommonInit"
| "run_init StatusInitF = StatusInit"

text \<open>What the calls of an instance share: DuckDB, its functions, the sockets, the random bytes, the instance.\<close>

record ('p, 'db) instance_env =
  env_duck :: "'db duck"
  env_lower :: "string \<Rightarrow> string"
  env_net :: net
  env_random :: "byte list"
  env_db :: 'p

definition varchar_rows :: "row list res \<Rightarrow> out_value list list res" where
  "varchar_rows r = bindE r (\<lambda>rows. Inr (map (map Varchar) rows))"

definition status_row :: "Status \<Rightarrow> out_value list" where
  "status_row s = [Boolean (status_running s), Varchar (status_address s), Varchar (status_base_path s),
     Boolean (status_token_required s), Bigint (status_entities s)]"

definition status_rows :: "Status option \<Rightarrow> out_value list list" where
  "status_rows s = (case s of None \<Rightarrow> [] | Some st \<Rightarrow> [status_row st])"

text \<open>
  An execute function casts the bind data to its own class: for data of another class there is no result.
  It marks the scan as done before it does its work.
\<close>

fun run_execute :: "('p, 'db) instance_env \<Rightarrow> execute_function \<Rightarrow> bind_data \<Rightarrow> ODataGlobalState
    \<Rightarrow> 'p registry \<Rightarrow> 'db \<Rightarrow> (out_value list list res \<times> ODataGlobalState \<times> 'p registry \<times> 'db) option" where
  "run_execute E ServeExecuteF (ServeData d) g reg s =
     (case ServeExecute (env_net E) (env_random E) (env_db E) d (gs_done g) reg of
        (r, reg') \<Rightarrow> Some (varchar_rows r, g\<lparr>gs_done := True\<rparr>, reg', s))"
| "run_execute E ActionExecuteF (ActionData d) g reg s =
     (case ActionExecute (env_duck E) (env_lower E) (env_db E) d (gs_done g) reg s of
        ((r, reg'), s') \<Rightarrow> Some (varchar_rows r, g\<lparr>gs_done := True\<rparr>, reg', s'))"
| "run_execute E ExposeExecuteF (ExposeData arg cs) g reg s =
     (case ExposeExecute (env_duck E) (env_lower E) (env_db E) arg cs (gs_done g) reg s of
        ((r, reg'), s') \<Rightarrow> Some (varchar_rows r, g\<lparr>gs_done := True\<rparr>, reg', s'))"
| "run_execute E ExposeSchemaExecuteF (ExposeData arg cs) g reg s =
     (case ExposeSchemaExecute (env_duck E) (env_lower E) (env_db E) arg (gs_done g) reg s of
        ((r, reg'), s') \<Rightarrow> Some (varchar_rows r, g\<lparr>gs_done := True\<rparr>, reg', s'))"
| "run_execute E StatusExecuteF d g reg s =
     Some (Inr (status_rows (StatusExecute (env_db E) (gs_done g) reg)), g\<lparr>gs_done := True\<rparr>, reg, s)"
| "run_execute E _ _ g reg s = None"

section \<open>What is registered\<close>

record TableFunction =
  tf_name :: string
  tf_arguments :: "LogicalType list"
  tf_execute :: execute_function
  tf_bind :: bind_function
  tf_init :: init_function
  tf_named :: columns

definition serve_parameters :: columns where
  "serve_parameters = [(''token'', VARCHAR), (''read_only'', BOOLEAN_TYPE), (''base_path'', VARCHAR)]"

definition registered_functions :: "TableFunction list" where
  "registered_functions =
     [\<lparr>tf_name = ''odata_serve'', tf_arguments = [], tf_execute = ServeExecuteF, tf_bind = ServeBindF,
       tf_init = CommonInitF, tf_named = serve_parameters\<rparr>,
      \<lparr>tf_name = ''odata_serve'', tf_arguments = [VARCHAR], tf_execute = ServeExecuteF, tf_bind = ServeBindF,
       tf_init = CommonInitF, tf_named = serve_parameters\<rparr>,
      \<lparr>tf_name = ''odata_stop'', tf_arguments = [], tf_execute = ActionExecuteF, tf_bind = StopBindF,
       tf_init = CommonInitF, tf_named = []\<rparr>,
      \<lparr>tf_name = ''odata_expose'', tf_arguments = [VARCHAR], tf_execute = ExposeExecuteF, tf_bind = ExposeBindF,
       tf_init = CommonInitF, tf_named = [(''columns'', LIST VARCHAR)]\<rparr>,
      \<lparr>tf_name = ''odata_expose_schema'', tf_arguments = [VARCHAR], tf_execute = ExposeSchemaExecuteF,
       tf_bind = ExposeBindF, tf_init = CommonInitF, tf_named = []\<rparr>,
      \<lparr>tf_name = ''odata_entity'', tf_arguments = [VARCHAR], tf_execute = ActionExecuteF, tf_bind = EntityBindF,
       tf_init = CommonInitF, tf_named = [(''key'', VARCHAR)]\<rparr>,
      \<lparr>tf_name = ''odata_status'', tf_arguments = [], tf_execute = StatusExecuteF, tf_bind = StatusBindF,
       tf_init = StatusInitF, tf_named = []\<rparr>]"

text \<open>What loading adds to the instance: its options with their defaults, and its functions.\<close>

definition LoadInternal :: "(string \<times> int) list \<times> TableFunction list" where
  "LoadInternal = (RegisterOptions, registered_functions)"

definition extension_name :: string where
  "extension_name = ''odata''"

definition extension_version :: string where
  "extension_version = ''0.2.0''"

section \<open>Rows and columns\<close>

definition fits :: "columns \<Rightarrow> out_value list \<Rightarrow> bool" where
  "fits cols r \<longleftrightarrow> map value_type r = map snd cols"

lemma fits_varchar: "list_all (\<lambda>c. snd c = VARCHAR) cols \<Longrightarrow> fits cols (map Varchar r) \<longleftrightarrow> length r = length cols"
  by (auto simp: fits_def list_all_iff list_eq_iff_nth_eq)

lemma fits_status_row: "fits status_columns (status_row st)"
  by (simp add: fits_def status_columns_def status_row_def)

lemma varchar_rows_Inr: "varchar_rows r = Inr rows \<longleftrightarrow> (\<exists>rs. r = Inr rs \<and> rows = map (map Varchar) rs)"
  by (auto simp: varchar_rows_def bindE_Inr_iff)

lemma ServeExecute_width: "ServeExecute N rd db d fin reg = (Inr rows, reg') \<Longrightarrow> \<forall>r \<in> set rows. length r = 3"
  by (auto simp: ServeExecute_def Let_def split: if_splits prod.splits sum.splits)

lemma ExposeExecute_width:
  "ExposeExecute D lower db arg cs fin reg s = ((Inr rows, reg'), s') \<Longrightarrow> \<forall>r \<in> set rows. length r = 2"
  by (auto simp: ExposeExecute_def Let_def table_row_def bindD_eq_Inr returnD_def
      split: if_splits prod.splits sum.splits)

lemma ExposeSchemaExecute_width:
  "ExposeSchemaExecute D lower db arg fin reg s = ((Inr rows, reg'), s') \<Longrightarrow> \<forall>r \<in> set rows. length r = 2"
  by (auto simp: ExposeSchemaExecute_def split: if_splits prod.splits sum.splits option.splits
      simp: reported_def dest!: expose_rows_Inr)

lemma ActionExecute_no_rows: "ActionExecute D lower db a fin reg s = ((Inr rows, reg'), s') \<Longrightarrow> rows = []"
  by (auto simp: ActionExecute_def split: if_splits prod.splits sum.splits ODataActionKind.splits)

lemmas execute_finished =
  ServeExecute_def ExposeExecute_def ExposeSchemaExecute_def ActionExecute_def StatusExecute_def

lemma run_init_fresh [simp]: "run_init f = \<lparr>gs_done = False\<rparr>"
  by (cases f) (simp_all add: CommonInit_def StatusInit_def)

text \<open>A scan that is done gives no rows and does nothing.\<close>

lemma run_execute_done:
  assumes "run_execute E f d g reg s = Some r" "gs_done g"
  shows "r = (Inr [], g, reg, s)"
proof -
  have "g\<lparr>gs_done := True\<rparr> = g" using assms(2) by (cases g) simp
  with assms show ?thesis
    by (cases "(E, f, d, g, reg, s)" rule: run_execute.cases)
       (auto simp: execute_finished varchar_rows_def status_rows_def)
qed

lemma run_execute_marks_done: "run_execute E f d g reg s = Some (r, g', reg', s') \<Longrightarrow> gs_done g'"
  by (cases "(E, f, d, g, reg, s)" rule: run_execute.cases) (auto split: prod.splits)

text \<open>Whether the data is of the class that the function casts it to does not depend on the state.\<close>

fun casts :: "execute_function \<Rightarrow> bind_data \<Rightarrow> bool" where
  "casts ServeExecuteF d = (case d of ServeData _ \<Rightarrow> True | _ \<Rightarrow> False)"
| "casts ActionExecuteF d = (case d of ActionData _ \<Rightarrow> True | _ \<Rightarrow> False)"
| "casts ExposeExecuteF d = (case d of ExposeData _ _ \<Rightarrow> True | _ \<Rightarrow> False)"
| "casts ExposeSchemaExecuteF d = (case d of ExposeData _ _ \<Rightarrow> True | _ \<Rightarrow> False)"
| "casts StatusExecuteF d = True"

lemma run_execute_casts: "casts f d \<longleftrightarrow> run_execute E f d g reg s \<noteq> None"
  by (cases "(E, f, d, g, reg, s)" rule: run_execute.cases) (auto split: prod.splits)

lemma registered_casts:
  "f \<in> set registered_functions \<Longrightarrow> run_bind (tf_bind f) i settings = Inr (d, cols) \<Longrightarrow> casts (tf_execute f) d"
  by (auto simp: registered_functions_def bindE_Inr_iff split: prod.splits)

lemma registered_rows_fit:
  assumes "f \<in> set registered_functions" "run_bind (tf_bind f) i settings = Inr (d, cols)"
    and "run_execute E (tf_execute f) d g reg s = Some (Inr rows, g', reg', s')" "r \<in> set rows"
  shows "fits cols r"
  using assms
  by (auto simp: registered_functions_def bindE_Inr_iff varchar_rows_Inr fits_varchar fits_status_row
      serve_columns_def expose_columns_def status_rows_def
      dest!: ServeExecute_width ExposeExecute_width ExposeSchemaExecute_width ActionExecute_no_rows
      split: prod.splits option.splits)

text \<open>
  Each SQL function is registered with functions that fit together: the data that its bind function makes
  is of the class that its execute function casts it to, each row has a value of the declared type for
  each column, and the second call ends the scan and changes nothing.
\<close>

theorem registered_functions_fit:
  assumes "f \<in> set (snd LoadInternal)" "run_bind (tf_bind f) i settings = Inr (d, cols)"
  shows "\<exists>res g reg' s'. run_execute E (tf_execute f) d (run_init (tf_init f)) reg s = Some (res, g, reg', s')
    \<and> (case res of Inl e \<Rightarrow> True | Inr rows \<Rightarrow> list_all (fits cols) rows)
    \<and> run_execute E (tf_execute f) d g reg' s' = Some (Inr [], g, reg', s')"
proof -
  have f: "f \<in> set registered_functions" using assms(1) by (simp add: LoadInternal_def)
  have cast: "casts (tf_execute f) d" using registered_casts [OF f assms(2)] .
  then obtain res g reg' s' where
    run: "run_execute E (tf_execute f) d (run_init (tf_init f)) reg s = Some (res, g, reg', s')"
    unfolding run_execute_casts [of _ _ E "run_init (tf_init f)" reg s] by auto
  moreover from cast run_execute_marks_done [OF run]
  have "run_execute E (tf_execute f) d g reg' s' = Some (Inr [], g, reg', s')"
    unfolding run_execute_casts [of _ _ E g reg' s'] by (auto dest: run_execute_done)
  ultimately show ?thesis
    using registered_rows_fit [OF f assms(2)] by (auto simp: list_all_iff split: sum.split)
qed

end
