(* ===== verification/Server_State.thy ===== *)
theory Server_State
  imports Demo_Database Query_Slots Query_Watchdog Server_Lifecycle Extension_Load
begin

text \<open>
  Properties of the state of a server across calls and threads: what the SQL functions make of it,
  which states starting and stopping can reach, the limit on concurrent queries, and the end of a
  server.
\<close>

section \<open>The entity sets of an instance\<close>

definition bindings_of :: "'p \<Rightarrow> 'p registry \<Rightarrow> EntityBinding list" where
  "bindings_of db reg = (case Find db reg of None \<Rightarrow> [] | Some (st, srv) \<Rightarrow> st_bindings st)"

lemma bindings_of_update:
  "bindings_of db (update_bindings db f reg) = f (bindings_of db reg)"
  "db' \<noteq> db \<Longrightarrow> Find db' (update_bindings db f reg) = Find db' reg"
  by (auto simp: bindings_of_def update_bindings_def GetOrCreate_def Find_def initial_state_def
      split: option.splits prod.splits)

lemma bindings_of_stop: "bindings_of db (stop_instance db reg) = bindings_of db reg"
  by (auto simp: bindings_of_def stop_instance_def Find_def StopODataServer_def split: option.splits prod.splits)



lemma expose_binding_columns:
  "expose_binding D lower arg columns s = (Inr b, s') \<Longrightarrow> b_columns b = columns"
  by (auto simp: expose_binding_def bindD_eq_Inr Let_def returnD_def split: if_splits)

lemma failing_Inr: "failing p m s = (Inr x, s') \<Longrightarrow> m s = (Inr x, s')"
  by (auto simp: failing_def split: prod.splits sum.splits exn.splits)

text \<open>
  C19. odata_expose is an update of a table that is keyed by the lower-case name of the entity set: it
  reports the name, what that name stood for before is replaced, with the columns of the call, no
  other name and no other instance is affected.
\<close>

theorem expose_updates_one_name:
  assumes "ExposeExecute D lower db arg columns False reg s = ((Inr rows, reg'), s')"
  shows "\<exists>b t. rows = [[b_name b, t]] \<and> b_columns b = columns
    \<and> binding_named lower (bindings_of db reg') = (binding_named lower (bindings_of db reg))(lower (b_name b) \<mapsto> b)
    \<and> (\<forall>db'. db' \<noteq> db \<longrightarrow> Find db' reg' = Find db' reg)"
proof -
  obtain b s1 r s2 where
    b: "failing ''odata_expose failed: '' (expose_binding D lower arg columns) s = (Inr b, s1)"
    and r: "table_row D b s1 = (Inr r, s2)"
    and res: "rows = [r]" "reg' = update_bindings db (put_binding lower b) reg"
    using assms by (auto simp: ExposeExecute_def Let_def split: if_splits prod.splits sum.splits)
  from r have "\<exists>t. r = [b_name b, t]"
    by (auto simp: table_row_def bindD_eq_Inr returnD_def)
  moreover have "b_columns b = columns"
    using expose_binding_columns [OF failing_Inr [OF b]] .
  moreover have "binding_named lower (put_binding lower b bs) = (binding_named lower bs)(lower (b_name b) \<mapsto> b)" for bs
    using bindings.lookup_upsert by (auto simp: fun_eq_iff)
  ultimately show ?thesis
    using res by (auto simp: bindings_of_update)
qed

theorem expose_updates_one_name_witness:
  "\<exists>rows reg' s' b t. ExposeExecute demo_duck ToLower (0 :: nat) ''c'' [''id''] False (\<lambda>_. None) 0 = ((Inr rows, reg'), s')
     \<and> rows = [[b_name b, t]] \<and> binding_named ToLower (bindings_of 0 reg') (ToLower (b_name b)) = Some b"
proof -
  have "case fst (fst (ExposeExecute demo_duck ToLower (0 :: nat) ''c'' [''id''] False (\<lambda>_. None) 0)) of
      Inr rows \<Rightarrow> True | Inl _ \<Rightarrow> False"
    by code_simp
  then obtain rows reg' s' where
    run: "ExposeExecute demo_duck ToLower (0 :: nat) ''c'' [''id''] False (\<lambda>_. None) 0 = ((Inr rows, reg'), s')"
    by (cases "ExposeExecute demo_duck ToLower (0 :: nat) ''c'' [''id''] False (\<lambda>_. None) 0")
       (auto split: sum.splits)
  from expose_updates_one_name [OF this] obtain b t where
    "rows = [[b_name b, t]]" "binding_named ToLower (bindings_of 0 reg') (ToLower (b_name b)) = Some b"
    by (auto simp: fun_upd_def)
  with run show ?thesis by metis
qed

text \<open>
  C33. odata_expose, odata_entity and odata_stop, whatever their arguments and however they end, keep the names of
  an instance's entity sets distinct.
\<close>

theorem names_stay_distinct:
  assumes "unique_names lower (bindings_of db reg)"
  shows "unique_names lower (bindings_of db (snd (fst (ExposeExecute D lower db arg columns finished reg s))))
    \<and> unique_names lower (bindings_of db (snd (fst (ActionExecute D lower db action finished reg s))))"
  using assms unique_put_binding unique_put_keys
  by (cases "ad_kind action")
     (auto simp: ExposeExecute_def ActionExecute_def Let_def bindings_of_update bindings_of_stop
       split: prod.splits sum.splits)

theorem names_stay_distinct_witness:
  "let reg = (\<lambda>_. None) (0 :: nat \<mapsto> (demo_state, None))
   in unique_names ToLower (bindings_of 0 reg)
    \<and> unique_names ToLower (bindings_of 0 (snd (fst (ExposeExecute demo_duck ToLower 0 ''C'' [] False reg 0))))"
proof -
  have "unique_names ToLower (bindings_of 0 ((\<lambda>_. None) (0 :: nat \<mapsto> (demo_state, None))))"
    by (simp add: unique_names_def bindings_of_def Find_def demo_state_def)
  with names_stay_distinct [where lower = ToLower and db = "0 :: nat" and D = demo_duck and s = 0
      and reg = "(\<lambda>_. None) (0 :: nat \<mapsto> (demo_state, None))"] show ?thesis
    by (simp add: Let_def)
qed





text \<open>
  \<open>odata_expose_schema\<close> does not: a table of another schema whose qualified name reads the same is added
  under a name that is taken, and requests for that name get the first of the two.
\<close>

lemma schema_shadows_name:
  "let first = empty_binding\<lparr>b_name := ''a_b_c'', b_schema := ''a_b'', b_table := ''c''\<rparr>;
       bs = snd (expose_rows ToLower ''a'' ''main'' ''db'' [[demo_text ''b_c'', demo_text ''db'']] [first] [])
   in \<not> unique_names ToLower bs \<and> length bs = 2 \<and> find_binding bs ''A_B_C'' = Some first"
  by code_simp

section \<open>Starting and stopping\<close>





lemma trimmed_no_space: "list_all (\<lambda>c. \<not> isspace c) s \<Longrightarrow> trimmed s"
  by (auto simp: trimmed_def list_all_iff)

lemma hex_digit_no_space: "c \<in> set ''0123456789ABCDEF'' \<Longrightarrow> \<not> isspace c"
  by (auto simp: isspace_def code_def)

lemma GenerateAuthToken_chars:
  "list_all (\<lambda>c. c \<in> set ''0123456789ABCDEF'') (GenerateAuthToken rd)"
proof -
  have "unat (x AND 15) < 16" for x :: byte
  proof -
    have "x AND 15 \<le> 15" by (rule word_and_le1)
    then have "unat (x AND 15) \<le> unat (15 :: byte)" by (simp add: word_le_nat_alt)
    then show ?thesis by simp
  qed
  then have "hex_upper (unat (x AND 15)) \<in> set ''0123456789ABCDEF''" for x :: byte
    by (rule hex_upper_mem)
  then show ?thesis by (simp only: GenerateAuthToken_def list_all_iff set_concat) force
qed

lemma length_GenerateAuthToken: "16 \<le> length rd \<Longrightarrow> length (GenerateAuthToken rd) = 32"
proof -
  have "length (concat (map (\<lambda>b. [f b, g b]) xs)) = 2 * length xs" for f g :: "byte \<Rightarrow> char" and xs
    by (induction xs) simp_all
  then show "16 \<le> length rd \<Longrightarrow> ?thesis" by (simp add: GenerateAuthToken_def)
qed

text \<open>
  C23. A server that is started without a token requires the one it generated: 32 digits that the call
  reports, and the header with them is accepted.
\<close>

theorem serve_without_token_is_protected:
  assumes "ServeBind c settings = Inr d" "call_token c = None" "16 \<le> length rd"
    and "ServeExecute N rd db d False reg = (Inr rows, reg')"
  shows "\<exists>uri url tok st srv. rows = [[uri, url, tok]] \<and> Find db reg' = Some (st, Some srv) \<and> st_token st = tok
    \<and> length tok = 32 \<and> CheckBearerToken (''Bearer '' @ tok) tok
    \<and> (\<forall>rq. GetHeader rq ''Authorization'' = [] \<longrightarrow> \<not> authorized st rq)"
proof -
  let ?tok = "GenerateAuthToken rd"
  have d: "\<not> sd_token_provided d" using assms(1,2) by (auto simp: ServeBind_def bindE_Inr_iff)
  obtain st0 srv0 reg1 where g: "GetOrCreate db reg = ((st0, srv0), reg1)" by (metis prod.exhaust)
  from assms(4) d g obtain s' where
    run: "StartODataServer N (serve_config d ?tok) (st0, srv0) = (Inr (), s')"
    and res: "rows = [[st_listen_uri (fst s'), st_listen_url (fst s'), st_token (fst s')]]" "reg' = reg1(db \<mapsto> s')"
    by (auto simp: ServeExecute_def Let_def split: prod.splits sum.splits)
  from run obtain h p path srv where s': "s' = (configure (serve_config d ?tok) h p path st0, Some srv)"
    by (auto simp: StartODataServer_def split: option.splits prod.splits bool.splits if_splits)
  then have tok: "st_token (fst s') = ?tok"
    by (simp add: configure_settings serve_config_def Let_def)
  have len: "length ?tok = 32" using assms(3) by (rule length_GenerateAuthToken)
  have "Trim ?tok = ?tok"
    using GenerateAuthToken_chars [of rd] hex_digit_no_space
    by (intro Trim_trimmed trimmed_no_space) (rule list.pred_mono_strong)
  moreover have "ToLower ''Bearer'' = ''bearer''" by code_simp
  ultimately have "CheckBearerToken (''Bearer'' @ CHR '' '' # ?tok) ?tok"
    unfolding CheckBearerToken_iff by (intro disjI2 exI [of _ "''Bearer''"] exI [of _ ?tok]) simp
  moreover have "\<not> authorized (fst s') rq" if "GetHeader rq ''Authorization'' = []" for rq
  proof -
    have "?tok \<noteq> []" using len by (metis list.size(3) zero_neq_numeral)
    with that tok show ?thesis by (simp add: authorized_def CheckBearerToken_iff)
  qed
  ultimately show ?thesis
    using res s' tok len by (simp add: Find_def)
qed

definition demo_net :: net where
  "demo_net = \<lparr>net_socket = True, net_resolve = (\<lambda>_. True), net_bind = (\<lambda>_. True), net_listen = True,
     net_free_port = 4711, net_sockname = True\<rparr>"

definition demo_call :: ServeCall where
  "demo_call = \<lparr>call_address = None, call_read_only = None, call_token = None, call_base_path = None\<rparr>"

theorem serve_without_token_is_protected_witness:
  "\<exists>d rows reg' uri url tok. ServeBind demo_call (\<lambda>_. None) = Inr d
     \<and> ServeExecute demo_net (replicate 16 7) (0 :: nat) d False (\<lambda>_. None) = (Inr rows, reg')
     \<and> rows = [[uri, url, tok]] \<and> length tok = 32"
proof -
  obtain d where d: "ServeBind demo_call (\<lambda>_. None) = Inr d"
    by (simp add: ServeBind_def demo_call_def)
  have "case fst (case ServeBind demo_call (\<lambda>_. None) of
      Inr d \<Rightarrow> ServeExecute demo_net (replicate 16 7) (0 :: nat) d False (\<lambda>_. None)) of Inr rows \<Rightarrow> True | Inl e \<Rightarrow> False"
    by code_simp
  with d obtain rows reg' where
    run: "ServeExecute demo_net (replicate 16 7) (0 :: nat) d False (\<lambda>_. None) = (Inr rows, reg')"
    by (cases "ServeExecute demo_net (replicate 16 7) (0 :: nat) d False (\<lambda>_. None)") (auto split: sum.splits)
  from serve_without_token_is_protected [OF d _ _ run] obtain uri url tok where
    "rows = [[uri, url, tok]]" "length tok = 32"
    by (auto simp: demo_call_def)
  with d run show ?thesis by metis
qed

text \<open>
  A start that succeeds takes every setting of the call, forgets nothing that was exposed, and
  reports the port that the socket is bound to, when the address names a port below 65536; a start
  that fails changes nothing.
\<close>

lemma start_takes_settings:
  assumes "ParseAddress (sc_address c) = Some (h, p, path)" "0 \<le> p" "p < 65536" "net_sockname N"
  shows "case StartODataServer N c (st, srv) of
      (Inl e, s') \<Rightarrow> s' = (st, srv)
    | (Inr _, (st', srv')) \<Rightarrow> \<not> st_running st \<and> st_running st' \<and> st_bindings st' = st_bindings st
        \<and> st_token st' = sc_token c \<and> st_read_only st' = sc_read_only c \<and> st_max_top st' = sc_max_top c
        \<and> st_max_filter_depth st' = sc_max_filter_depth c \<and> st_page_size st' = sc_page_size c
        \<and> st_max_response_bytes st' = sc_max_response_bytes c
        \<and> st_query_timeout_ms st' = sc_query_timeout_ms c
        \<and> st_max_concurrent_queries st' = sc_max_concurrent_queries c
        \<and> st_base_path st' = (if sc_base_path c = [] then path else sc_base_path c)
        \<and> (\<exists>v. srv' = Some v \<and> st_port st' = uint (hs_bound v))"
  using assms(1) socket_start_port [OF _ assms(2-4), of h]
  by (auto simp: StartODataServer_def configure_settings Let_def split: bool.splits prod.splits)

text \<open>
  A port of 65536 or more is cut to 16 bits when the socket is bound; the server reports the other one.
\<close>

lemma port_wraps:
  assumes "ParseAddress (sc_address c) = Some (h, p + 65536, path)" "0 < p" "p < 65536"
    and "StartODataServer N c (st, srv) = (Inr (), (st', Some v))"
  shows "st_port st' = p + 65536 \<and> uint (hs_bound v) = p"
proof -
  from assms(1,4) have run: "socket_start N h (p + 65536) new_server = (True, v)"
    and st': "st' = configure c h (hs_port v) path st"
    by (auto simp: StartODataServer_def split: if_splits prod.splits bool.splits)
  from socket_start_wraps [OF run assms(2,3)] st' show ?thesis
    by (simp add: configure_settings Let_def)
qed

section \<open>The limit on concurrent queries\<close>

text \<open>
  C17. However the requests interleave, no more than odata_max_concurrent_queries of them run at the
  same time while the server is not restarted, and the counter is the number of requests in flight.
\<close>

theorem limit_holds:
  assumes "reachable (\<lambda>s. s = idle limit) slot_step s" "0 < limit"
  shows "int (sl_running s) \<le> limit
    \<and> sl_counter s = int (size (sl_checking s) + sl_running s + sl_refused s)"
proof -
  have "slots_ok s" using assms(1) by (rule slots.reachable_inv)
  moreover have "sl_limit s = limit" using assms(1) by (rule limit_constant)
  ultimately show ?thesis using assms(2) by (auto simp: slots_ok_def admitted_def in_flight_def)
qed

theorem limit_holds_witness:
  "reachable (\<lambda>s. s = idle 1) slot_step (idle 1) \<and> int (sl_running (idle 1)) \<le> 1 \<and> sl_counter (idle 1) = 0"
proof -
  have r: "reachable (\<lambda>s. s = idle 1) slot_step (idle 1)" by (rule reachable.start) simp
  from limit_holds [OF r] r show ?thesis by (simp add: idle_def)
qed

text \<open>
  C29. No request is stuck on the limit: from every state that the requests can reach, they can all
  finish, and then the counter is zero and the next request is admitted.
\<close>

theorem slots_are_given_back:
  assumes "reachable (\<lambda>s. s = idle limit) slot_step s"
  shows "\<exists>t. slot_step\<^sup>*\<^sup>* s t \<and> sl_running t = 0 \<and> sl_counter t = 0 \<and> \<not> over_limit (sl_limit t) (sl_counter t)"
proof -
  obtain t where t: "slot_step\<^sup>*\<^sup>* s t" "drained t" using can_drain by blast
  with slots.reachable_from_inv [of s t] slots.reachable_inv [OF assms] have "slots_ok t" by blast
  with t show ?thesis
    by (auto simp: slots_ok_def in_flight_def drained_def over_limit_def)
qed

theorem slots_are_given_back_witness:
  "\<exists>t. slot_step\<^sup>*\<^sup>* (idle 1) t \<and> sl_running t = 0 \<and> sl_counter t = 0 \<and> \<not> over_limit (sl_limit t) (sl_counter t)"
proof -
  have r: "reachable (\<lambda>s. s = idle 1) slot_step (idle 1)" by (rule reachable.start) simp
  from slots_are_given_back [OF r] show ?thesis .
qed

text \<open>
  C38. Starting the server again sets the counter to zero while requests of the old server still run:
  with a limit of one, two requests run at the same time.
\<close>

theorem restart_exceeds_limit:
  "\<exists>s. reachable (\<lambda>s. s = idle 1) serve_step s \<and> sl_limit s = 1 \<and> sl_running s = 2"
  by (rule exI, rule conjI, rule restart_breaks_limit) (simp add: idle_def)

section \<open>A query with a timeout\<close>

text \<open>
  C32. However its two threads are scheduled, a query with a timeout takes at most nine steps and is stuck
  only when it has returned; it is interrupted at most once and only after the deadline, and when it
  has returned its watchdog has ended, so that no later query of the connection is interrupted by it.
\<close>

theorem timed_query_ends:
  assumes "reachable (\<lambda>s. s = query_started) query_step s"
  shows "steps_left query_started = 9 \<and> (\<forall>t. query_step s t \<longrightarrow> steps_left t < steps_left s)
    \<and> ((\<forall>t. \<not> query_step s t) \<longleftrightarrow> tq_executor s = Returned)
    \<and> tq_interrupts s \<le> 1 \<and> (0 < tq_interrupts s \<longrightarrow> tq_deadline s)
    \<and> (tq_executor s = Returned \<longrightarrow> tq_watchdog s = Ended)"
proof -
  have ok: "query_ok s" using assms by (rule queries.reachable_inv)
  moreover have "steps_left query_started = 9" by (simp add: steps_left_def query_started_def)
  ultimately show ?thesis
    using stuck_iff_returned [OF ok] steps_left_step by (auto simp: query_ok_def)
qed

theorem timed_query_ends_witness:
  "reachable (\<lambda>s. s = query_started) query_step query_started \<and> (\<exists>t. query_step query_started t \<and> steps_left t < 9)"
proof -
  have r: "reachable (\<lambda>s. s = query_started) query_step query_started" by (rule reachable.start) simp
  from timed_query_ends [OF r] r show ?thesis by (auto simp: query_started_def)
qed

section \<open>The end of a server\<close>

text \<open>
  C20. Once Stop has returned, no connection is accepted any more, whatever the threads do next, and
  the socket is closed; the accept loop has ended.
\<close>

theorem nothing_after_stop:
  assumes "reachable (\<lambda>s. s = started) lifecycle_step s" "lc_stopper s \<in> {Joined, Destroyed}" "lifecycle_step\<^sup>*\<^sup>* s t"
  shows "connections t \<le> connections s \<and> \<not> lc_listening t \<and> lc_acceptor t = Exited"
proof -
  have "lifecycle_ok s" using assms(1) by (rule lifecycle.reachable_inv)
  moreover from this have "lifecycle_ok t" using assms(3) by (blast intro: lifecycle.reachable_from_inv)
  ultimately show ?thesis
    using no_new_connections_ever [OF assms(3)] assms(2) by (auto simp: lifecycle_ok_def)
qed

theorem nothing_after_stop_witness:
  "\<exists>s. reachable (\<lambda>s. s = started) lifecycle_step s \<and> lc_stopper s = Destroyed \<and> connections s = 1
     \<and> \<not> lc_listening s \<and> lc_acceptor s = Exited"
proof -
  let ?s = "started\<lparr>lc_stop_requested := True, lc_running := False, lc_listening := False, lc_acceptor := Exited,
      lc_stopper := Destroyed, lc_before_handler := 1\<rparr>"
  have "connections ?s = 1" by (simp add: connections_def started_def)
  with destroyed_before_handler nothing_after_stop [of ?s ?s] show ?thesis by (intro exI [of _ ?s]) simp
qed

text \<open>
  C30. A stop ends: in every state that the threads can reach, there is a way for Stop to return, and
  while it waits for the accept loop, that thread is never blocked and its next step is its last.
\<close>

theorem stop_returns:
  assumes "reachable (\<lambda>s. s = started) lifecycle_step s"
  shows "(\<exists>t. lifecycle_step\<^sup>*\<^sup>* s t \<and> (lc_stopper t = Joined \<or> lc_stopper t = Destroyed))
    \<and> (lc_stopper s = Socket_Closed \<and> lc_acceptor s \<noteq> Exited \<longrightarrow>
         (\<exists>t. accept_step s t) \<and> (\<forall>t. accept_step s t \<longrightarrow> lc_acceptor t = Exited))"
proof -
  have ok: "lifecycle_ok s" using assms by (rule lifecycle.reachable_inv)
  moreover have "\<exists>t. accept_step s t" if "lc_stopper s = Socket_Closed" "lc_acceptor s \<noteq> Exited"
    using stop_never_blocks(1) [OF ok that(1)] that by (auto elim: stop_stepE)
  ultimately show ?thesis using can_stop stop_never_blocks(2) by blast
qed

theorem stop_returns_witness:
  "\<exists>t. lifecycle_step\<^sup>*\<^sup>* started t \<and> (lc_stopper t = Joined \<or> lc_stopper t = Destroyed)"
  using stop_returns [OF reachable.start [of "\<lambda>s. s = started" started lifecycle_step]] by simp

text \<open>
  C37. The server object can be destroyed while a connection thread has yet to call the handler
  through it: the threads are detached, and Stop waits only for the accept loop.
\<close>

theorem handler_used_after_destruction:
  "\<exists>s t. reachable (\<lambda>s. s = started) lifecycle_step s \<and> lc_stopper s = Destroyed
    \<and> lifecycle_step s t \<and> lc_in_handler t = Suc (lc_in_handler s)"
proof (intro exI conjI)
  show "reachable (\<lambda>s. s = started) lifecycle_step
     (started\<lparr>lc_stop_requested := True, lc_running := False, lc_listening := False, lc_acceptor := Exited,
        lc_stopper := Destroyed, lc_before_handler := 1\<rparr>)"
    by (rule destroyed_before_handler)
qed (auto intro!: lifecycle_step.connection connection_step.enter)

end
