(* ===== verification/Spec2Isabelle.thy ===== *)
theory Spec2Isabelle
  imports Query_Language Generated_Sql Served_Queries Paging Wire_Protocol Response_Data Server_Behaviour Server_State
begin

text \<open>
  A verification development of the OData extension of DuckDB, the C++ code under \<open>src/src\<close>. The
  extension adds SQL functions that expose tables as OData entity sets and start an HTTP server inside
  the database process; a request is authenticated, routed, parsed, compiled to SQL, run on DuckDB and
  answered as JSON or, for the metadata document, as XML.

  \<^bold>\<open>From the bytes of a request to the bytes of its answer.\<close>
  \<open>Http_Server\<close> reads a connection (\<open>server/http_server.cpp\<close>) in the chunks that the network gives it,
  with \<open>Http_Request\<close> (\<open>http_request.cpp\<close>) for the head, calls a handler, and writes the wire form of
  \<open>Http_Response\<close> (\<open>http_response.cpp\<close>); \<open>Http_Send\<close> is the loop that sends it. The handler is
  \<open>Odata_Server\<close> (\<open>HandleODataRequest\<close> of \<open>odata_server.cpp\<close>), with the helpers of the same file in
  \<open>Routing\<close>: addresses, routes, the depth check, the column policy and the link to the next page.
  Options are parsed by \<open>Lexer\<close>, \<open>Filter_Parser\<close> and \<open>Query_Options\<close> (\<open>parser/\<close>) into the syntax of
  \<open>Ast\<close>. \<open>Metadata_Generator\<close> (\<open>metadata/\<close>) builds the entity, \<open>Edm_Model\<close> its types and the EDMX
  document. \<open>Expression_Compiler\<close> and \<open>Sql_Compiler\<close> (\<open>compiler/\<close>) write the statements, \<open>Duck_Db\<close> and
  \<open>Write_Executor\<close> (\<open>execution/\<close>) run them, \<open>Result_Serializer\<close> writes the rows. \<open>String_Util\<close>
  (\<open>common/\<close>) and \<open>Auth\<close> (\<open>auth/\<close>) are used throughout; \<open>Cpp_Std\<close>, \<open>Cpp_Double\<close> and \<open>Std_Map\<close> are what the
  code uses of the C++ library.

  \<^bold>\<open>The server.\<close>
  \<open>Server_Control\<close> is starting and stopping and the registry of servers (\<open>odata_server.cpp\<close>,
  \<open>http_server.cpp\<close>), \<open>Odata_Extension\<close> the SQL functions (\<open>odata_extension.cpp\<close>) and
  \<open>Extension_Load\<close> how they are registered, called by DuckDB and typed. Three parts run in
  threads and are step relations over \<open>Transition_Systems\<close>: \<open>Server_Lifecycle\<close>, the accept loop, the
  connection threads and \<open>Stop\<close>; \<open>Query_Slots\<close>, the counter of active queries; and \<open>Query_Watchdog\<close>, a
  query with a timeout and its watchdog (\<open>query_executor.cpp\<close>), which is one call of \<open>duck\<close> elsewhere.

  \<^bold>\<open>How the code is rendered.\<close>
  Classes are records with the fields of the source, enumerations are datatypes, an exception is a value
  of \<open>exn\<close> on the left of a sum. Functions that call the database are state transformers (\<open>dbm\<close>) over
  a record \<open>duck\<close> of its calls; \<open>logging\<close> records them. Integers are \<open>int\<close> where the code checks their
  range (\<open>std::stoll\<close>), words where it cuts them (\<open>htons\<close>, the bytes of Base64 and of the token
  comparison). The sum \<open>skip + rows\<close> of the paging code is unbounded here; it leaves 64 bits only for a
  \<open>$skip\<close> that is larger than any number of rows.

  \<^bold>\<open>What the lemmas show.\<close>
  \<open>Sql_Lex\<close> is the lexical specification of SQL text: what is read as strings and as quoted names; the
  compilers and \<open>Write_Executor\<close> are checked against it, and \<open>Generated_Sql\<close> and \<open>Call_Log\<close> lift this to
  statements and to whole requests. \<open>Sql_Grammar\<close>, \<open>Sql_Statement\<close> and the reader of \<open>Write_Reading\<close> are
  the grammar of the SQL that the code writes, with the precedences of DuckDB. \<open>Sql_Reading\<close> has the
  lemmas on reading a text piece by piece, with which \<open>Compiled_Filter\<close>, \<open>Compiled_Statement\<close> and
  \<open>Write_Reading\<close> show that every text is read as what it was written for. \<open>Query_Meaning\<close> gives filters
  and SQL expressions the same meaning on the rows of a table, and \<open>Query_Answers\<close> follows it to the
  response: \<open>Served_Queries\<close> states that a request is answered with the rows it asks for. \<open>Parsed_Filters\<close>
  shows that the numbers of a parsed filter are finite. \<open>Json_Spec\<close> is the grammar of JSON, which \<open>Json_Responses\<close> proves
  of every body. \<open>Filter_Printer\<close> and \<open>Filter_Text\<close> are the grammar of filters as a printer, which the
  parser inverts. \<open>Response_Headers\<close> and \<open>Wire_Protocol\<close> follow a response to the client, \<open>Paging\<close> the
  pages of a collection, \<open>Server_Behaviour\<close> and \<open>Server_State\<close> the routes, the limits and the server.
  \<open>Demo_Database\<close> is a concrete database on which the theorems are instantiated, \<open>Table_Database\<close> one that evaluates
  each statement on a table. The locales are
  \<open>sql_quoting\<close> and \<open>char_escape\<close> (\<open>String_Util\<close>), \<open>keyed\<close> and \<open>lookup_table\<close> (\<open>Std_Map\<close>) and
  \<open>safe_system\<close> (\<open>Transition_Systems\<close>), each interpreted on the definitions of the code.

  \<^bold>\<open>Bounds.\<close>
  The filter parser recurses on fuel, \<open>parse_fuel\<close>, that grows with the number of tokens; \<open>filter_errors\<close>
  shows that it is never used up. Every other loop is structural or has a measure. The limits of the
  code (64 KiB of header, the size of a body, 8 MiB of drain) are constants of the model.

  \<^bold>\<open>Hypotheses.\<close>
  \<open>numeric_db\<close>: DuckDB prints numbers as JSON does and gives each row a value for each column.
  \<open>answers\<close>: \<open>LIMIT\<close> and \<open>OFFSET\<close> select that part of the rows. \<open>obeys\<close>: a statement that DuckDB executes
  without an error has the rows that its reading says, for some meaning of comparisons, functions, casts
  and the sort order; \<open>Table_Database\<close> satisfies it. \<open>sound_types\<close>, \<open>sound_keys\<close>, \<open>writable_types\<close>: as
  \<open>plain_types\<close>, with closed parentheses. \<open>flat\<close>: no comparison is an operand of a comparison, as the code
  writes such operands without parentheses. \<open>typed\<close>, \<open>plain_types\<close>, \<open>plain_keys\<close>: the
  type names of the catalog are made of letters, digits, blanks and brackets; an ENUM, whose type name
  has quotes, is outside. \<open>plain_names\<close>: the base path and the entity names need no escape in JSON, as
  the code writes them unescaped into \<open>@odata.context\<close>.

  \<^bold>\<open>Not modelled.\<close>
  DuckDB, the JSON reader yyjson, \<open>StringUtil::Lower\<close>, the random device and the socket calls are
  parameters. Socket options are left out. The mutexes of the server state are not modelled: each critical section is one step. The grammar covers the statements
  on entity sets; the catalog queries of \<open>Metadata_Generator\<close> are known only as texts.
\<close>

section \<open>What a request may do to the database\<close>





text \<open>
  C16. A request without the token of the server, and a method other than GET on a read-only server,
  is answered with 401 or 405 before anything else: no call on the database, no change of the state.
\<close>

theorem refused_before_work:
  assumes "\<not> authorized st rq \<or> (st_read_only st \<and> rq_method rq \<noteq> ''GET'')"
  shows "\<exists>r. HandleODataRequest D yyjson rq (st, db) = (Inr r, (st, db))
    \<and> rs_status r = (if authorized st rq then 405 else 401)"
  using assms
  by (cases "authorized st rq")
     (simp_all add: HandleODataRequest_unauthorized HandleODataRequest_read_only MakeError_def)

theorem refused_before_work_witness:
  "\<not> authorized (demo_state\<lparr>st_token := ''u''\<rparr>) (demo_request ''GET'' ''/o/c'' []) \<and>
   (\<exists>r. HandleODataRequest demo_duck demo_json (demo_request ''GET'' ''/o/c'' []) (demo_state\<lparr>st_token := ''u''\<rparr>, 0)
      = (Inr r, (demo_state\<lparr>st_token := ''u''\<rparr>, 0))
      \<and> rs_status r = (if authorized (demo_state\<lparr>st_token := ''u''\<rparr>) (demo_request ''GET'' ''/o/c'' []) then 405 else 401))"
proof -
  have "\<not> authorized (demo_state\<lparr>st_token := ''u''\<rparr>) (demo_request ''GET'' ''/o/c'' [])"
    by code_simp
  with refused_before_work [of "demo_state\<lparr>st_token := ''u''\<rparr>" "demo_request ''GET'' ''/o/c'' []" demo_duck demo_json 0]
  show ?thesis by simp
qed

text \<open>
  C13. Every answer of the handler other than the metadata document has an empty body or a body that
  is JSON, for a database whose numbers are printed as JSON numbers and for names without characters
  that JSON escapes.
\<close>

theorem replies_are_json:
  assumes "HandleODataRequest D yyjson rq (st, db) = (Inr r, s')"
    and "numeric_db D" "plain_names st" "\<not> r_metadata (ParseRoute (st_base_path st) (rq_path rq))"
  shows "rs_body r = [] \<or> json (rs_body r)"
  using handler_replies_json [OF assms] by (simp add: json_reply_def)

theorem replies_are_json_witness:
  "\<exists>r s'. HandleODataRequest demo_duck demo_json (demo_request ''GET'' ''/o/c'' []) (demo_state, 0) = (Inr r, s')
     \<and> rs_body r \<noteq> [] \<and> numeric_db demo_duck \<and> plain_names demo_state
     \<and> \<not> r_metadata (ParseRoute (st_base_path demo_state) (rq_path (demo_request ''GET'' ''/o/c'' [])))
     \<and> json (rs_body r)"
proof -
  have "case fst (HandleODataRequest demo_duck demo_json (demo_request ''GET'' ''/o/c'' []) (demo_state, 0)) of
      Inr r \<Rightarrow> rs_body r \<noteq> [] | Inl _ \<Rightarrow> False"
    by code_simp
  then obtain r s' where
    "HandleODataRequest demo_duck demo_json (demo_request ''GET'' ''/o/c'' []) (demo_state, 0) = (Inr r, s')" "rs_body r \<noteq> []"
    by (cases "HandleODataRequest demo_duck demo_json (demo_request ''GET'' ''/o/c'' []) (demo_state, 0)")
       (auto split: sum.splits)
  moreover have "plain_names demo_state"
    "\<not> r_metadata (ParseRoute (st_base_path demo_state) (rq_path (demo_request ''GET'' ''/o/c'' [])))"
    by code_simp+
  ultimately show ?thesis
    using replies_are_json demo_numeric by metis
qed

text \<open>
  C24. Whatever a request does and however it ends, it leaves the state of the server as it found it;
  the slot that it took is free again.
\<close>

theorem state_is_kept: "fst (snd (HandleODataRequest D yyjson rq (st, db))) = st"
  using HandleODataRequest_state [of D yyjson rq st db]
  by (cases "HandleODataRequest D yyjson rq (st, db)") auto

section \<open>Writes are atomic\<close>

text \<open>
  C6. A write is answered with success exactly when its transaction was committed, and then the calls
  on the database were one transaction with one statement with the values of the request; any other
  answer comes from a write that made no call, could not open the transaction, or ended it with a
  rollback and has no successful commit.
\<close>

theorem write_is_atomic:
  assumes "ExecuteWrite (logging D) yyjson rq ent keys base (db, []) = (res, (db', evs))"
  shows "if succeeded res
    then \<exists>plan. prepare_write yyjson rq ent keys = Inr plan
      \<and> evs = [Query_Call ''BEGIN TRANSACTION'' True, Prepare_Call (wp_sql plan) True,
                Execute_Call (wp_sql plan) (wp_values plan) True, Query_Call ''COMMIT'' True]
    else Query_Call ''COMMIT'' True \<notin> set evs
      \<and> (evs = [] \<or> evs = [Query_Call ''BEGIN TRANSACTION'' False] \<or> (\<exists>b. last evs = Query_Call ''ROLLBACK'' b))"
proof -
  from ExecuteWrite_calls [OF assms] consider "evs = []" "\<not> succeeded res"
    | plan where "prepare_write yyjson rq ent keys = Inr plan" "write_calls plan (succeeded res) evs"
    by auto
  then show ?thesis
  proof cases
    case (2 plan)
    from 2(2) 2(1) show ?thesis by cases auto
  qed simp
qed

theorem write_is_atomic_witness:
  "let ent = ApplyColumnPolicy demo_entity demo_binding; rq = demo_request ''POST'' ''/o/c'' []
   in \<exists>res db' evs. ExecuteWrite (logging demo_duck) demo_json rq ent [] ''/o'' (0, []) = (res, (db', evs))
     \<and> succeeded res \<and> length evs = 4 \<and> last evs = Query_Call ''COMMIT'' True"
proof -
  define ent rq where "ent = ApplyColumnPolicy demo_entity demo_binding" and "rq = demo_request ''POST'' ''/o/c'' []"
  have "succeeded (fst (ExecuteWrite (logging demo_duck) demo_json rq ent [] ''/o'' (0, [])))"
    unfolding ent_def rq_def by code_simp
  then obtain res db' evs where
    run: "ExecuteWrite (logging demo_duck) demo_json rq ent [] ''/o'' (0, []) = (res, (db', evs))" "succeeded res"
    by (metis prod.exhaust fst_conv)
  from write_is_atomic [OF run(1)] run show ?thesis
    by (auto simp: Let_def simp flip: ent_def rq_def)
qed

end
